theory Spec2Isabelle
  imports Complex_Main
begin

section \<open>JavaScript strings\<close>

text \<open>
  A JavaScript string is a sequence of UTF-16 code units. The services index, compare and
  count code units (\<^verbatim>\<open>includes\<close>, \<^verbatim>\<open>split\<close>, \<^verbatim>\<open>match\<close> with a
  range class and no \<^verbatim>\<open>u\<close> flag), so a string is the list of its code units, each a
  natural number. ASCII literals of the source are written \<open>js ''...''\<close>.
\<close>

type_synonym jsstring = "nat list"

definition js :: "string \<Rightarrow> jsstring" where
  "js s = map of_char s"

text \<open>
  The code points of a string: a high surrogate followed by a low surrogate is one code
  point, every other code unit is a code point by itself. \<open>fromCodePoint\<close> is the way
  back.
\<close>

definition isHighSurrogate :: "nat \<Rightarrow> bool" where
  "isHighSurrogate c \<longleftrightarrow> 0xD800 \<le> c \<and> c \<le> 0xDBFF"

definition isLowSurrogate :: "nat \<Rightarrow> bool" where
  "isLowSurrogate c \<longleftrightarrow> 0xDC00 \<le> c \<and> c \<le> 0xDFFF"

fun toCodePoints :: "jsstring \<Rightarrow> nat list" where
  "toCodePoints (h # l # s) =
     (if isHighSurrogate h \<and> isLowSurrogate l
      then (0x10000 + (h - 0xD800) * 0x400 + (l - 0xDC00)) # toCodePoints s
      else h # toCodePoints (l # s))"
| "toCodePoints s = s"

definition fromCodePoint :: "nat \<Rightarrow> jsstring" where
  "fromCodePoint cp =
     (if cp < 0x10000 then [cp]
      else [0xD800 + (cp - 0x10000) div 0x400, 0xDC00 + (cp - 0x10000) mod 0x400])"


section \<open>Unicode case tables\<close>

text \<open>
  \<^verbatim>\<open>String.prototype.toLowerCase\<close> follows the default case conversion of the Unicode
  standard, whose tables are part of the engine and not of the repository. They are taken
  from Unicode 14.0; the lower-case forms are those of Unicode 15.0 as well.
  \<open>lowerTable\<close> holds the code points above ASCII that have a lower-case form, as
  runs \<open>(first, last, step, offset)\<close>: every \<open>step\<close>-th code point from \<open>first\<close>
  to \<open>last\<close> maps to itself plus \<open>offset\<close>. \<open>caseIgnorableTable\<close> holds the
  case-ignorable code points and \<open>casedTable\<close> the cased code points that are not
  case-ignorable, as ranges.
\<close>

definition lowerTable :: "(nat \<times> nat \<times> nat \<times> int) list" where
  "lowerTable =
     [(0x00C0, 0x00D6, 1, 32), (0x00D8, 0x00DE, 1, 32), (0x0100, 0x012E, 2, 1),
      (0x0132, 0x0136, 2, 1), (0x0139, 0x0147, 2, 1), (0x014A, 0x0176, 2, 1),
      (0x0178, 0x0178, 1, -121), (0x0179, 0x017D, 2, 1), (0x0181, 0x0181, 1, 210),
      (0x0182, 0x0184, 2, 1), (0x0186, 0x0186, 1, 206), (0x0187, 0x0187, 1, 1),
      (0x0189, 0x018A, 1, 205), (0x018B, 0x018B, 1, 1), (0x018E, 0x018E, 1, 79),
      (0x018F, 0x018F, 1, 202), (0x0190, 0x0190, 1, 203), (0x0191, 0x0191, 1, 1),
      (0x0193, 0x0193, 1, 205), (0x0194, 0x0194, 1, 207), (0x0196, 0x0196, 1, 211),
      (0x0197, 0x0197, 1, 209), (0x0198, 0x0198, 1, 1), (0x019C, 0x019C, 1, 211),
      (0x019D, 0x019D, 1, 213), (0x019F, 0x019F, 1, 214), (0x01A0, 0x01A4, 2, 1),
      (0x01A6, 0x01A6, 1, 218), (0x01A7, 0x01A7, 1, 1), (0x01A9, 0x01A9, 1, 218),
      (0x01AC, 0x01AC, 1, 1), (0x01AE, 0x01AE, 1, 218), (0x01AF, 0x01AF, 1, 1),
      (0x01B1, 0x01B2, 1, 217), (0x01B3, 0x01B5, 2, 1), (0x01B7, 0x01B7, 1, 219),
      (0x01B8, 0x01B8, 1, 1), (0x01BC, 0x01BC, 1, 1), (0x01C4, 0x01C4, 1, 2),
      (0x01C5, 0x01C5, 1, 1), (0x01C7, 0x01C7, 1, 2), (0x01C8, 0x01C8, 1, 1),
      (0x01CA, 0x01CA, 1, 2), (0x01CB, 0x01DB, 2, 1), (0x01DE, 0x01EE, 2, 1),
      (0x01F1, 0x01F1, 1, 2), (0x01F2, 0x01F4, 2, 1), (0x01F6, 0x01F6, 1, -97),
      (0x01F7, 0x01F7, 1, -56), (0x01F8, 0x021E, 2, 1), (0x0220, 0x0220, 1, -130),
      (0x0222, 0x0232, 2, 1), (0x023A, 0x023A, 1, 10795), (0x023B, 0x023B, 1, 1),
      (0x023D, 0x023D, 1, -163), (0x023E, 0x023E, 1, 10792), (0x0241, 0x0241, 1, 1),
      (0x0243, 0x0243, 1, -195), (0x0244, 0x0244, 1, 69), (0x0245, 0x0245, 1, 71),
      (0x0246, 0x024E, 2, 1), (0x0370, 0x0372, 2, 1), (0x0376, 0x0376, 1, 1),
      (0x037F, 0x037F, 1, 116), (0x0386, 0x0386, 1, 38), (0x0388, 0x038A, 1, 37),
      (0x038C, 0x038C, 1, 64), (0x038E, 0x038F, 1, 63), (0x0391, 0x03A1, 1, 32),
      (0x03A3, 0x03AB, 1, 32), (0x03CF, 0x03CF, 1, 8), (0x03D8, 0x03EE, 2, 1),
      (0x03F4, 0x03F4, 1, -60), (0x03F7, 0x03F7, 1, 1), (0x03F9, 0x03F9, 1, -7),
      (0x03FA, 0x03FA, 1, 1), (0x03FD, 0x03FF, 1, -130), (0x0400, 0x040F, 1, 80),
      (0x0410, 0x042F, 1, 32), (0x0460, 0x0480, 2, 1), (0x048A, 0x04BE, 2, 1),
      (0x04C0, 0x04C0, 1, 15), (0x04C1, 0x04CD, 2, 1), (0x04D0, 0x052E, 2, 1),
      (0x0531, 0x0556, 1, 48), (0x10A0, 0x10C5, 1, 7264), (0x10C7, 0x10C7, 1, 7264),
      (0x10CD, 0x10CD, 1, 7264), (0x13A0, 0x13EF, 1, 38864), (0x13F0, 0x13F5, 1, 8),
      (0x1C90, 0x1CBA, 1, -3008), (0x1CBD, 0x1CBF, 1, -3008), (0x1E00, 0x1E94, 2, 1),
      (0x1E9E, 0x1E9E, 1, -7615), (0x1EA0, 0x1EFE, 2, 1), (0x1F08, 0x1F0F, 1, -8),
      (0x1F18, 0x1F1D, 1, -8), (0x1F28, 0x1F2F, 1, -8), (0x1F38, 0x1F3F, 1, -8),
      (0x1F48, 0x1F4D, 1, -8), (0x1F59, 0x1F5F, 2, -8), (0x1F68, 0x1F6F, 1, -8),
      (0x1F88, 0x1F8F, 1, -8), (0x1F98, 0x1F9F, 1, -8), (0x1FA8, 0x1FAF, 1, -8),
      (0x1FB8, 0x1FB9, 1, -8), (0x1FBA, 0x1FBB, 1, -74), (0x1FBC, 0x1FBC, 1, -9),
      (0x1FC8, 0x1FCB, 1, -86), (0x1FCC, 0x1FCC, 1, -9), (0x1FD8, 0x1FD9, 1, -8),
      (0x1FDA, 0x1FDB, 1, -100), (0x1FE8, 0x1FE9, 1, -8), (0x1FEA, 0x1FEB, 1, -112),
      (0x1FEC, 0x1FEC, 1, -7), (0x1FF8, 0x1FF9, 1, -128), (0x1FFA, 0x1FFB, 1, -126),
      (0x1FFC, 0x1FFC, 1, -9), (0x2126, 0x2126, 1, -7517), (0x212A, 0x212A, 1, -8383),
      (0x212B, 0x212B, 1, -8262), (0x2132, 0x2132, 1, 28), (0x2160, 0x216F, 1, 16),
      (0x2183, 0x2183, 1, 1), (0x24B6, 0x24CF, 1, 26), (0x2C00, 0x2C2F, 1, 48),
      (0x2C60, 0x2C60, 1, 1), (0x2C62, 0x2C62, 1, -10743), (0x2C63, 0x2C63, 1, -3814),
      (0x2C64, 0x2C64, 1, -10727), (0x2C67, 0x2C6B, 2, 1), (0x2C6D, 0x2C6D, 1, -10780),
      (0x2C6E, 0x2C6E, 1, -10749), (0x2C6F, 0x2C6F, 1, -10783), (0x2C70, 0x2C70, 1, -10782),
      (0x2C72, 0x2C72, 1, 1), (0x2C75, 0x2C75, 1, 1), (0x2C7E, 0x2C7F, 1, -10815),
      (0x2C80, 0x2CE2, 2, 1), (0x2CEB, 0x2CED, 2, 1), (0x2CF2, 0x2CF2, 1, 1),
      (0xA640, 0xA66C, 2, 1), (0xA680, 0xA69A, 2, 1), (0xA722, 0xA72E, 2, 1),
      (0xA732, 0xA76E, 2, 1), (0xA779, 0xA77B, 2, 1), (0xA77D, 0xA77D, 1, -35332),
      (0xA77E, 0xA786, 2, 1), (0xA78B, 0xA78B, 1, 1), (0xA78D, 0xA78D, 1, -42280),
      (0xA790, 0xA792, 2, 1), (0xA796, 0xA7A8, 2, 1), (0xA7AA, 0xA7AA, 1, -42308),
      (0xA7AB, 0xA7AB, 1, -42319), (0xA7AC, 0xA7AC, 1, -42315), (0xA7AD, 0xA7AD, 1, -42305),
      (0xA7AE, 0xA7AE, 1, -42308), (0xA7B0, 0xA7B0, 1, -42258), (0xA7B1, 0xA7B1, 1, -42282),
      (0xA7B2, 0xA7B2, 1, -42261), (0xA7B3, 0xA7B3, 1, 928), (0xA7B4, 0xA7C2, 2, 1),
      (0xA7C4, 0xA7C4, 1, -48), (0xA7C5, 0xA7C5, 1, -42307), (0xA7C6, 0xA7C6, 1, -35384),
      (0xA7C7, 0xA7C9, 2, 1), (0xA7D0, 0xA7D0, 1, 1), (0xA7D6, 0xA7D8, 2, 1),
      (0xA7F5, 0xA7F5, 1, 1), (0xFF21, 0xFF3A, 1, 32), (0x10400, 0x10427, 1, 40),
      (0x104B0, 0x104D3, 1, 40), (0x10570, 0x1057A, 1, 39), (0x1057C, 0x1058A, 1, 39),
      (0x1058C, 0x10592, 1, 39), (0x10594, 0x10595, 1, 39), (0x10C80, 0x10CB2, 1, 64),
      (0x118A0, 0x118BF, 1, 32), (0x16E40, 0x16E5F, 1, 32), (0x1E900, 0x1E921, 1, 34)]"

definition caseIgnorableTable :: "(nat \<times> nat) list" where
  "caseIgnorableTable =
     [(0x0027, 0x0027), (0x002E, 0x002E), (0x003A, 0x003A), (0x005E, 0x005E), (0x0060, 0x0060),
      (0x00A8, 0x00A8), (0x00AD, 0x00AD), (0x00AF, 0x00AF), (0x00B4, 0x00B4), (0x00B7, 0x00B8),
      (0x02B0, 0x036F), (0x0374, 0x0375), (0x037A, 0x037A), (0x0384, 0x0385), (0x0387, 0x0387),
      (0x0483, 0x0489), (0x0559, 0x0559), (0x055F, 0x055F), (0x0591, 0x05BD), (0x05BF, 0x05BF),
      (0x05C1, 0x05C2), (0x05C4, 0x05C5), (0x05C7, 0x05C7), (0x05F4, 0x05F4), (0x0600, 0x0605),
      (0x0610, 0x061A), (0x061C, 0x061C), (0x0640, 0x0640), (0x064B, 0x065F), (0x0670, 0x0670),
      (0x06D6, 0x06DD), (0x06DF, 0x06E8), (0x06EA, 0x06ED), (0x070F, 0x070F), (0x0711, 0x0711),
      (0x0730, 0x074A), (0x07A6, 0x07B0), (0x07EB, 0x07F5), (0x07FA, 0x07FA), (0x07FD, 0x07FD),
      (0x0816, 0x082D), (0x0859, 0x085B), (0x0888, 0x0888), (0x0890, 0x0891), (0x0898, 0x089F),
      (0x08C9, 0x0902), (0x093A, 0x093A), (0x093C, 0x093C), (0x0941, 0x0948), (0x094D, 0x094D),
      (0x0951, 0x0957), (0x0962, 0x0963), (0x0971, 0x0971), (0x0981, 0x0981), (0x09BC, 0x09BC),
      (0x09C1, 0x09C4), (0x09CD, 0x09CD), (0x09E2, 0x09E3), (0x09FE, 0x09FE), (0x0A01, 0x0A02),
      (0x0A3C, 0x0A3C), (0x0A41, 0x0A42), (0x0A47, 0x0A48), (0x0A4B, 0x0A4D), (0x0A51, 0x0A51),
      (0x0A70, 0x0A71), (0x0A75, 0x0A75), (0x0A81, 0x0A82), (0x0ABC, 0x0ABC), (0x0AC1, 0x0AC5),
      (0x0AC7, 0x0AC8), (0x0ACD, 0x0ACD), (0x0AE2, 0x0AE3), (0x0AFA, 0x0AFF), (0x0B01, 0x0B01),
      (0x0B3C, 0x0B3C), (0x0B3F, 0x0B3F), (0x0B41, 0x0B44), (0x0B4D, 0x0B4D), (0x0B55, 0x0B56),
      (0x0B62, 0x0B63), (0x0B82, 0x0B82), (0x0BC0, 0x0BC0), (0x0BCD, 0x0BCD), (0x0C00, 0x0C00),
      (0x0C04, 0x0C04), (0x0C3C, 0x0C3C), (0x0C3E, 0x0C40), (0x0C46, 0x0C48), (0x0C4A, 0x0C4D),
      (0x0C55, 0x0C56), (0x0C62, 0x0C63), (0x0C81, 0x0C81), (0x0CBC, 0x0CBC), (0x0CBF, 0x0CBF),
      (0x0CC6, 0x0CC6), (0x0CCC, 0x0CCD), (0x0CE2, 0x0CE3), (0x0D00, 0x0D01), (0x0D3B, 0x0D3C),
      (0x0D41, 0x0D44), (0x0D4D, 0x0D4D), (0x0D62, 0x0D63), (0x0D81, 0x0D81), (0x0DCA, 0x0DCA),
      (0x0DD2, 0x0DD4), (0x0DD6, 0x0DD6), (0x0E31, 0x0E31), (0x0E34, 0x0E3A), (0x0E46, 0x0E4E),
      (0x0EB1, 0x0EB1), (0x0EB4, 0x0EBC), (0x0EC6, 0x0EC6), (0x0EC8, 0x0ECD), (0x0F18, 0x0F19),
      (0x0F35, 0x0F35), (0x0F37, 0x0F37), (0x0F39, 0x0F39), (0x0F71, 0x0F7E), (0x0F80, 0x0F84),
      (0x0F86, 0x0F87), (0x0F8D, 0x0F97), (0x0F99, 0x0FBC), (0x0FC6, 0x0FC6), (0x102D, 0x1030),
      (0x1032, 0x1037), (0x1039, 0x103A), (0x103D, 0x103E), (0x1058, 0x1059), (0x105E, 0x1060),
      (0x1071, 0x1074), (0x1082, 0x1082), (0x1085, 0x1086), (0x108D, 0x108D), (0x109D, 0x109D),
      (0x10FC, 0x10FC), (0x135D, 0x135F), (0x1712, 0x1714), (0x1732, 0x1733), (0x1752, 0x1753),
      (0x1772, 0x1773), (0x17B4, 0x17B5), (0x17B7, 0x17BD), (0x17C6, 0x17C6), (0x17C9, 0x17D3),
      (0x17D7, 0x17D7), (0x17DD, 0x17DD), (0x180B, 0x180F), (0x1843, 0x1843), (0x1885, 0x1886),
      (0x18A9, 0x18A9), (0x1920, 0x1922), (0x1927, 0x1928), (0x1932, 0x1932), (0x1939, 0x193B),
      (0x1A17, 0x1A18), (0x1A1B, 0x1A1B), (0x1A56, 0x1A56), (0x1A58, 0x1A5E), (0x1A60, 0x1A60),
      (0x1A62, 0x1A62), (0x1A65, 0x1A6C), (0x1A73, 0x1A7C), (0x1A7F, 0x1A7F), (0x1AA7, 0x1AA7),
      (0x1AB0, 0x1ACE), (0x1B00, 0x1B03), (0x1B34, 0x1B34), (0x1B36, 0x1B3A), (0x1B3C, 0x1B3C),
      (0x1B42, 0x1B42), (0x1B6B, 0x1B73), (0x1B80, 0x1B81), (0x1BA2, 0x1BA5), (0x1BA8, 0x1BA9),
      (0x1BAB, 0x1BAD), (0x1BE6, 0x1BE6), (0x1BE8, 0x1BE9), (0x1BED, 0x1BED), (0x1BEF, 0x1BF1),
      (0x1C2C, 0x1C33), (0x1C36, 0x1C37), (0x1C78, 0x1C7D), (0x1CD0, 0x1CD2), (0x1CD4, 0x1CE0),
      (0x1CE2, 0x1CE8), (0x1CED, 0x1CED), (0x1CF4, 0x1CF4), (0x1CF8, 0x1CF9), (0x1D2C, 0x1D6A),
      (0x1D78, 0x1D78), (0x1D9B, 0x1DFF), (0x1FBD, 0x1FBD), (0x1FBF, 0x1FC1), (0x1FCD, 0x1FCF),
      (0x1FDD, 0x1FDF), (0x1FED, 0x1FEF), (0x1FFD, 0x1FFE), (0x200B, 0x200F), (0x2018, 0x2019),
      (0x2024, 0x2024), (0x2027, 0x2027), (0x202A, 0x202E), (0x2060, 0x2064), (0x2066, 0x206F),
      (0x2071, 0x2071), (0x207F, 0x207F), (0x2090, 0x209C), (0x20D0, 0x20F0), (0x2C7C, 0x2C7D),
      (0x2CEF, 0x2CF1), (0x2D6F, 0x2D6F), (0x2D7F, 0x2D7F), (0x2DE0, 0x2DFF), (0x2E2F, 0x2E2F),
      (0x3005, 0x3005), (0x302A, 0x302D), (0x3031, 0x3035), (0x303B, 0x303B), (0x3099, 0x309E),
      (0x30FC, 0x30FE), (0xA015, 0xA015), (0xA4F8, 0xA4FD), (0xA60C, 0xA60C), (0xA66F, 0xA672),
      (0xA674, 0xA67D), (0xA67F, 0xA67F), (0xA69C, 0xA69F), (0xA6F0, 0xA6F1), (0xA700, 0xA721),
      (0xA770, 0xA770), (0xA788, 0xA78A), (0xA7F2, 0xA7F4), (0xA7F8, 0xA7F9), (0xA802, 0xA802),
      (0xA806, 0xA806), (0xA80B, 0xA80B), (0xA825, 0xA826), (0xA82C, 0xA82C), (0xA8C4, 0xA8C5),
      (0xA8E0, 0xA8F1), (0xA8FF, 0xA8FF), (0xA926, 0xA92D), (0xA947, 0xA951), (0xA980, 0xA982),
      (0xA9B3, 0xA9B3), (0xA9B6, 0xA9B9), (0xA9BC, 0xA9BD), (0xA9CF, 0xA9CF), (0xA9E5, 0xA9E6),
      (0xAA29, 0xAA2E), (0xAA31, 0xAA32), (0xAA35, 0xAA36), (0xAA43, 0xAA43), (0xAA4C, 0xAA4C),
      (0xAA70, 0xAA70), (0xAA7C, 0xAA7C), (0xAAB0, 0xAAB0), (0xAAB2, 0xAAB4), (0xAAB7, 0xAAB8),
      (0xAABE, 0xAABF), (0xAAC1, 0xAAC1), (0xAADD, 0xAADD), (0xAAEC, 0xAAED), (0xAAF3, 0xAAF4),
      (0xAAF6, 0xAAF6), (0xAB5B, 0xAB5F), (0xAB69, 0xAB6B), (0xABE5, 0xABE5), (0xABE8, 0xABE8),
      (0xABED, 0xABED), (0xFB1E, 0xFB1E), (0xFBB2, 0xFBC2), (0xFE00, 0xFE0F), (0xFE13, 0xFE13),
      (0xFE20, 0xFE2F), (0xFE52, 0xFE52), (0xFE55, 0xFE55), (0xFEFF, 0xFEFF), (0xFF07, 0xFF07),
      (0xFF0E, 0xFF0E), (0xFF1A, 0xFF1A), (0xFF3E, 0xFF3E), (0xFF40, 0xFF40), (0xFF70, 0xFF70),
      (0xFF9E, 0xFF9F), (0xFFE3, 0xFFE3), (0xFFF9, 0xFFFB), (0x101FD, 0x101FD), (0x102E0, 0x102E0),
      (0x10376, 0x1037A), (0x10780, 0x10785), (0x10787, 0x107B0), (0x107B2, 0x107BA), (0x10A01, 0x10A03),
      (0x10A05, 0x10A06), (0x10A0C, 0x10A0F), (0x10A38, 0x10A3A), (0x10A3F, 0x10A3F), (0x10AE5, 0x10AE6),
      (0x10D24, 0x10D27), (0x10EAB, 0x10EAC), (0x10F46, 0x10F50), (0x10F82, 0x10F85), (0x11001, 0x11001),
      (0x11038, 0x11046), (0x11070, 0x11070), (0x11073, 0x11074), (0x1107F, 0x11081), (0x110B3, 0x110B6),
      (0x110B9, 0x110BA), (0x110BD, 0x110BD), (0x110C2, 0x110C2), (0x110CD, 0x110CD), (0x11100, 0x11102),
      (0x11127, 0x1112B), (0x1112D, 0x11134), (0x11173, 0x11173), (0x11180, 0x11181), (0x111B6, 0x111BE),
      (0x111C9, 0x111CC), (0x111CF, 0x111CF), (0x1122F, 0x11231), (0x11234, 0x11234), (0x11236, 0x11237),
      (0x1123E, 0x1123E), (0x112DF, 0x112DF), (0x112E3, 0x112EA), (0x11300, 0x11301), (0x1133B, 0x1133C),
      (0x11340, 0x11340), (0x11366, 0x1136C), (0x11370, 0x11374), (0x11438, 0x1143F), (0x11442, 0x11444),
      (0x11446, 0x11446), (0x1145E, 0x1145E), (0x114B3, 0x114B8), (0x114BA, 0x114BA), (0x114BF, 0x114C0),
      (0x114C2, 0x114C3), (0x115B2, 0x115B5), (0x115BC, 0x115BD), (0x115BF, 0x115C0), (0x115DC, 0x115DD),
      (0x11633, 0x1163A), (0x1163D, 0x1163D), (0x1163F, 0x11640), (0x116AB, 0x116AB), (0x116AD, 0x116AD),
      (0x116B0, 0x116B5), (0x116B7, 0x116B7), (0x1171D, 0x1171F), (0x11722, 0x11725), (0x11727, 0x1172B),
      (0x1182F, 0x11837), (0x11839, 0x1183A), (0x1193B, 0x1193C), (0x1193E, 0x1193E), (0x11943, 0x11943),
      (0x119D4, 0x119D7), (0x119DA, 0x119DB), (0x119E0, 0x119E0), (0x11A01, 0x11A0A), (0x11A33, 0x11A38),
      (0x11A3B, 0x11A3E), (0x11A47, 0x11A47), (0x11A51, 0x11A56), (0x11A59, 0x11A5B), (0x11A8A, 0x11A96),
      (0x11A98, 0x11A99), (0x11C30, 0x11C36), (0x11C38, 0x11C3D), (0x11C3F, 0x11C3F), (0x11C92, 0x11CA7),
      (0x11CAA, 0x11CB0), (0x11CB2, 0x11CB3), (0x11CB5, 0x11CB6), (0x11D31, 0x11D36), (0x11D3A, 0x11D3A),
      (0x11D3C, 0x11D3D), (0x11D3F, 0x11D45), (0x11D47, 0x11D47), (0x11D90, 0x11D91), (0x11D95, 0x11D95),
      (0x11D97, 0x11D97), (0x11EF3, 0x11EF4), (0x13430, 0x13438), (0x16AF0, 0x16AF4), (0x16B30, 0x16B36),
      (0x16B40, 0x16B43), (0x16F4F, 0x16F4F), (0x16F8F, 0x16F9F), (0x16FE0, 0x16FE1), (0x16FE3, 0x16FE4),
      (0x1AFF0, 0x1AFF3), (0x1AFF5, 0x1AFFB), (0x1AFFD, 0x1AFFE), (0x1BC9D, 0x1BC9E), (0x1BCA0, 0x1BCA3),
      (0x1CF00, 0x1CF2D), (0x1CF30, 0x1CF46), (0x1D167, 0x1D169), (0x1D173, 0x1D182), (0x1D185, 0x1D18B),
      (0x1D1AA, 0x1D1AD), (0x1D242, 0x1D244), (0x1DA00, 0x1DA36), (0x1DA3B, 0x1DA6C), (0x1DA75, 0x1DA75),
      (0x1DA84, 0x1DA84), (0x1DA9B, 0x1DA9F), (0x1DAA1, 0x1DAAF), (0x1E000, 0x1E006), (0x1E008, 0x1E018),
      (0x1E01B, 0x1E021), (0x1E023, 0x1E024), (0x1E026, 0x1E02A), (0x1E130, 0x1E13D), (0x1E2AE, 0x1E2AE),
      (0x1E2EC, 0x1E2EF), (0x1E8D0, 0x1E8D6), (0x1E944, 0x1E94B), (0x1F3FB, 0x1F3FF), (0xE0001, 0xE0001),
      (0xE0020, 0xE007F), (0xE0100, 0xE01EF)]"

definition casedTable :: "(nat \<times> nat) list" where
  "casedTable =
     [(0x0041, 0x005A), (0x0061, 0x007A), (0x00AA, 0x00AA), (0x00B5, 0x00B5), (0x00BA, 0x00BA),
      (0x00C0, 0x00D6), (0x00D8, 0x00F6), (0x00F8, 0x01BA), (0x01BC, 0x01BF), (0x01C4, 0x0293),
      (0x0295, 0x02AF), (0x0370, 0x0373), (0x0376, 0x0377), (0x037B, 0x037D), (0x037F, 0x037F),
      (0x0386, 0x0386), (0x0388, 0x038A), (0x038C, 0x038C), (0x038E, 0x03A1), (0x03A3, 0x03F5),
      (0x03F7, 0x0481), (0x048A, 0x052F), (0x0531, 0x0556), (0x0560, 0x0588), (0x10A0, 0x10C5),
      (0x10C7, 0x10C7), (0x10CD, 0x10CD), (0x10D0, 0x10FA), (0x10FD, 0x10FF), (0x13A0, 0x13F5),
      (0x13F8, 0x13FD), (0x1C80, 0x1C88), (0x1C90, 0x1CBA), (0x1CBD, 0x1CBF), (0x1D00, 0x1D2B),
      (0x1D6B, 0x1D77), (0x1D79, 0x1D9A), (0x1E00, 0x1F15), (0x1F18, 0x1F1D), (0x1F20, 0x1F45),
      (0x1F48, 0x1F4D), (0x1F50, 0x1F57), (0x1F59, 0x1F59), (0x1F5B, 0x1F5B), (0x1F5D, 0x1F5D),
      (0x1F5F, 0x1F7D), (0x1F80, 0x1FB4), (0x1FB6, 0x1FBC), (0x1FBE, 0x1FBE), (0x1FC2, 0x1FC4),
      (0x1FC6, 0x1FCC), (0x1FD0, 0x1FD3), (0x1FD6, 0x1FDB), (0x1FE0, 0x1FEC), (0x1FF2, 0x1FF4),
      (0x1FF6, 0x1FFC), (0x2102, 0x2102), (0x2107, 0x2107), (0x210A, 0x2113), (0x2115, 0x2115),
      (0x2119, 0x211D), (0x2124, 0x2124), (0x2126, 0x2126), (0x2128, 0x2128), (0x212A, 0x212D),
      (0x212F, 0x2134), (0x2139, 0x2139), (0x213C, 0x213F), (0x2145, 0x2149), (0x214E, 0x214E),
      (0x2160, 0x217F), (0x2183, 0x2184), (0x24B6, 0x24E9), (0x2C00, 0x2C7B), (0x2C7E, 0x2CE4),
      (0x2CEB, 0x2CEE), (0x2CF2, 0x2CF3), (0x2D00, 0x2D25), (0x2D27, 0x2D27), (0x2D2D, 0x2D2D),
      (0xA640, 0xA66D), (0xA680, 0xA69B), (0xA722, 0xA76F), (0xA771, 0xA787), (0xA78B, 0xA78E),
      (0xA790, 0xA7CA), (0xA7D0, 0xA7D1), (0xA7D3, 0xA7D3), (0xA7D5, 0xA7D9), (0xA7F5, 0xA7F6),
      (0xA7FA, 0xA7FA), (0xAB30, 0xAB5A), (0xAB60, 0xAB68), (0xAB70, 0xABBF), (0xFB00, 0xFB06),
      (0xFB13, 0xFB17), (0xFF21, 0xFF3A), (0xFF41, 0xFF5A), (0x10400, 0x1044F), (0x104B0, 0x104D3),
      (0x104D8, 0x104FB), (0x10570, 0x1057A), (0x1057C, 0x1058A), (0x1058C, 0x10592), (0x10594, 0x10595),
      (0x10597, 0x105A1), (0x105A3, 0x105B1), (0x105B3, 0x105B9), (0x105BB, 0x105BC), (0x10C80, 0x10CB2),
      (0x10CC0, 0x10CF2), (0x118A0, 0x118DF), (0x16E40, 0x16E7F), (0x1D400, 0x1D454), (0x1D456, 0x1D49C),
      (0x1D49E, 0x1D49F), (0x1D4A2, 0x1D4A2), (0x1D4A5, 0x1D4A6), (0x1D4A9, 0x1D4AC), (0x1D4AE, 0x1D4B9),
      (0x1D4BB, 0x1D4BB), (0x1D4BD, 0x1D4C3), (0x1D4C5, 0x1D505), (0x1D507, 0x1D50A), (0x1D50D, 0x1D514),
      (0x1D516, 0x1D51C), (0x1D51E, 0x1D539), (0x1D53B, 0x1D53E), (0x1D540, 0x1D544), (0x1D546, 0x1D546),
      (0x1D54A, 0x1D550), (0x1D552, 0x1D6A5), (0x1D6A8, 0x1D6C0), (0x1D6C2, 0x1D6DA), (0x1D6DC, 0x1D6FA),
      (0x1D6FC, 0x1D714), (0x1D716, 0x1D734), (0x1D736, 0x1D74E), (0x1D750, 0x1D76E), (0x1D770, 0x1D788),
      (0x1D78A, 0x1D7A8), (0x1D7AA, 0x1D7C2), (0x1D7C4, 0x1D7CB), (0x1DF00, 0x1DF09), (0x1DF0B, 0x1DF1E),
      (0x1E900, 0x1E943), (0x1F130, 0x1F149), (0x1F150, 0x1F169), (0x1F170, 0x1F189)]"

section \<open>Lower case\<close>

text \<open>
  The lower-case form of one code point out of context. The letters A to Z are written
  out; U+0130 becomes two code points; the others are looked up in \<open>lowerTable\<close>.
\<close>

definition lowerUnit :: "nat \<Rightarrow> nat" where
  "lowerUnit c = (if 65 \<le> c \<and> c \<le> 90 then c + 32 else c)"

fun lookupLower :: "(nat \<times> nat \<times> nat \<times> int) list \<Rightarrow> nat \<Rightarrow> nat" where
  "lookupLower [] c = c"
| "lookupLower (r # t) c =
     (if fst r \<le> c \<and> c \<le> fst (snd r) \<and> (c - fst r) mod fst (snd (snd r)) = 0
      then nat (int c + snd (snd (snd r)))
      else lookupLower t c)"

definition lowerPoint :: "nat \<Rightarrow> nat list" where
  "lowerPoint c =
     (if c < 128 then [lowerUnit c]
      else if c = 0x0130 then [0x0069, 0x0307]
      else [lookupLower lowerTable c])"

text \<open>
  The one rule that looks at the context: a capital sigma U+03A3 becomes the final sigma
  U+03C2 when a cased letter stands before it, case-ignorable code points apart, and none
  stands after it in the same way; otherwise it becomes U+03C3.
\<close>

definition inRanges :: "(nat \<times> nat) list \<Rightarrow> nat \<Rightarrow> bool" where
  "inRanges rs c = list_ex (\<lambda>r. fst r \<le> c \<and> c \<le> snd r) rs"

definition casedNext :: "nat list \<Rightarrow> bool" where
  "casedNext cps =
     (case dropWhile (inRanges caseIgnorableTable) cps of
        [] \<Rightarrow> False
      | c # rest \<Rightarrow> inRanges casedTable c)"

fun lowerPoints :: "nat list \<Rightarrow> nat list \<Rightarrow> nat list" where
  "lowerPoints before [] = []"
| "lowerPoints before (c # after) =
     (if c = 0x03A3
      then [if casedNext before \<and> \<not> casedNext after then 0x03C2 else 0x03C3]
      else lowerPoint c)
     @ lowerPoints (c # before) after"

text \<open>\<^verbatim>\<open>String.prototype.toLowerCase\<close>\<close>

definition toLowerCase :: "jsstring \<Rightarrow> jsstring" where
  "toLowerCase s = concat (map fromCodePoint (lowerPoints [] (toCodePoints s)))"

section \<open>Searching and splitting strings\<close>

text \<open>\<^verbatim>\<open>String.prototype.startsWith\<close> and \<^verbatim>\<open>String.prototype.includes\<close>.\<close>

fun startsWith :: "jsstring \<Rightarrow> jsstring \<Rightarrow> bool" where
  "startsWith s [] = True"
| "startsWith [] (c # t) = False"
| "startsWith (d # s) (c # t) = (d = c \<and> startsWith s t)"

fun includesStr :: "jsstring \<Rightarrow> jsstring \<Rightarrow> bool" where
  "includesStr [] t = (t = [])"
| "includesStr (d # s) t = (startsWith (d # s) t \<or> includesStr s t)"

text \<open>
  The class \<^verbatim>\<open>\s\<close> of a JavaScript regular expression: the white space and line
  terminator code units.
\<close>

definition isSpace :: "nat \<Rightarrow> bool" where
  "isSpace c \<longleftrightarrow>
     c \<in> {9, 10, 11, 12, 13, 32, 160, 5760, 8232, 8233, 8239, 8287, 12288, 65279}
     \<or> (8192 \<le> c \<and> c \<le> 8202)"

text \<open>
  \<^verbatim>\<open>s.split(/\s+/)\<close>: the pieces between maximal runs of white space. A string that
  starts (ends) with white space yields an empty first (last) piece, and the empty string
  yields one empty piece. \<open>splitFrom inRun cur s\<close> has read the code units \<open>cur\<close>
  (reversed) of the current piece; \<open>inRun\<close> says that the separator being matched has
  started.
\<close>

fun splitFrom :: "bool \<Rightarrow> jsstring \<Rightarrow> jsstring \<Rightarrow> jsstring list" where
  "splitFrom inRun cur [] = [rev cur]"
| "splitFrom inRun cur (c # s) =
     (if isSpace c
      then (if inRun then splitFrom True [] s else rev cur # splitFrom True [] s)
      else splitFrom False (c # cur) s)"

definition splitWhitespace :: "jsstring \<Rightarrow> jsstring list" where
  "splitWhitespace s = splitFrom False [] s"

section \<open>JavaScript containers\<close>

text \<open>
  A \<^verbatim>\<open>Map\<close> is the list of its entries in insertion order: \<^verbatim>\<open>set\<close> on a key
  that is present replaces the value where the entry stands, a new key goes to the end.
\<close>

definition mapHas :: "('k \<times> 'v) list \<Rightarrow> 'k \<Rightarrow> bool" where
  "mapHas m k = (map_of m k \<noteq> None)"

definition mapGet :: "('k \<times> 'v) list \<Rightarrow> 'k \<Rightarrow> 'v option" where
  "mapGet m k = map_of m k"

fun mapSet :: "('k \<times> 'v) list \<Rightarrow> 'k \<Rightarrow> 'v \<Rightarrow> ('k \<times> 'v) list" where
  "mapSet [] k v = [(k, v)]"
| "mapSet (e # m) k v = (if fst e = k then (k, v) # m else e # mapSet m k v)"

text \<open>\<^verbatim>\<open>new Map(entries)\<close>.\<close>

definition mapFromEntries :: "('k \<times> 'v) list \<Rightarrow> ('k \<times> 'v) list" where
  "mapFromEntries es = foldl (\<lambda>m e. mapSet m (fst e) (snd e)) [] es"

text \<open>
  A \<^verbatim>\<open>Set\<close> is the list of its members in insertion order; \<^verbatim>\<open>add\<close> of a
  member that is present changes nothing. \<^verbatim>\<open>new Set(array)\<close> adds the elements in turn.
\<close>

definition setAdd :: "'a list \<Rightarrow> 'a \<Rightarrow> 'a list" where
  "setAdd s x = (if x \<in> set s then s else s @ [x])"

definition setFromArray :: "'a list \<Rightarrow> 'a list" where
  "setFromArray xs = foldl setAdd [] xs"

text \<open>
  A plain object is the list of its own properties in the order in which
  \<^verbatim>\<open>Object.entries\<close> lists them: the keys that are array indices (canonical decimal
  numerals below \<open>2^32 - 1\<close>) first, in ascending numeric order, then the other keys in
  the order of their creation.
\<close>

definition isDigit :: "nat \<Rightarrow> bool" where
  "isDigit c \<longleftrightarrow> 48 \<le> c \<and> c \<le> 57"

definition digitsValue :: "jsstring \<Rightarrow> nat" where
  "digitsValue s = foldl (\<lambda>a c. 10 * a + (c - 48)) 0 s"

definition isArrayIndex :: "jsstring \<Rightarrow> bool" where
  "isArrayIndex s \<longleftrightarrow>
     s \<noteq> [] \<and> list_all isDigit s \<and> (hd s \<noteq> 48 \<or> length s = 1)
     \<and> digitsValue s < 2 ^ 32 - 1"

fun insertIndex :: "(jsstring \<times> 'v) list \<Rightarrow> jsstring \<Rightarrow> 'v \<Rightarrow> (jsstring \<times> 'v) list" where
  "insertIndex [] k v = [(k, v)]"
| "insertIndex (e # ob) k v =
     (if isArrayIndex (fst e) \<and> digitsValue (fst e) < digitsValue k
      then e # insertIndex ob k v
      else (k, v) # e # ob)"

text \<open>Creating or overwriting the data property \<open>k\<close> of an object.\<close>

definition objSet :: "(jsstring \<times> 'v) list \<Rightarrow> jsstring \<Rightarrow> 'v \<Rightarrow> (jsstring \<times> 'v) list" where
  "objSet ob k v =
     (if mapHas ob k then mapSet ob k v
      else if isArrayIndex k then insertIndex ob k v
      else ob @ [(k, v)])"

text \<open>\<^verbatim>\<open>Object.fromEntries(entries)\<close> and \<^verbatim>\<open>Object.entries(ob)\<close>.\<close>

definition objectFromEntries :: "(jsstring \<times> 'v) list \<Rightarrow> (jsstring \<times> 'v) list" where
  "objectFromEntries es = foldl (\<lambda>ob e. objSet ob (fst e) (snd e)) [] es"

definition objectEntries :: "(jsstring \<times> 'v) list \<Rightarrow> (jsstring \<times> 'v) list" where
  "objectEntries ob = ob"

section \<open>JavaScript numbers\<close>

text \<open>
  A JavaScript number is an IEEE 754 double: a finite value, which is a rational, one of
  the two infinities, or NaN. The sign of a zero is not kept; the only divisor in the code
  is a counter, which is never \<open>-0\<close>. \<open>roundDouble\<close> is the rounding of an exact result
  to the nearest double, ties to the even significand: the significand has 53 bits, the
  exponent of the last place is at least \<open>-1074\<close>, and a result of \<open>2^1024\<close> or more is
  an infinity.
\<close>

datatype jsnum = Num rat | PosInf | NegInf | NaN

text \<open>The number of binary digits of a natural number.\<close>

function bitLength :: "nat \<Rightarrow> nat" where
  "bitLength n = (if n = 0 then 0 else Suc (bitLength (n div 2)))"
  by pat_completeness auto
termination
  by (relation "measure (\<lambda>n. n)") auto

declare bitLength.simps [simp del]

text \<open>The same count for a binary numeral, read off its digits.\<close>

fun numBits :: "num \<Rightarrow> nat" where
  "numBits num.One = 1"
| "numBits (num.Bit0 k) = Suc (numBits k)"
| "numBits (num.Bit1 k) = Suc (numBits k)"

definition pow2 :: "int \<Rightarrow> rat" where
  "pow2 k = (if 0 \<le> k then 2 ^ nat k else 1 / 2 ^ nat (- k))"

text \<open>The exponent \<open>e\<close> with \<open>2^e \<le> x < 2^(e+1)\<close>, for a positive \<open>x\<close>.\<close>

definition floorLog2 :: "rat \<Rightarrow> int" where
  "floorLog2 x =
     (if 1 \<le> x then int (bitLength (nat \<lfloor>x\<rfloor>)) - 1
      else - int (bitLength (nat (\<lceil>1 / x\<rceil> - 1))))"

definition roundHalfEven :: "rat \<Rightarrow> int" where
  "roundHalfEven m =
     (let f = \<lfloor>m\<rfloor>; r = m - of_int f
      in if r < 1 / 2 then f else if 1 / 2 < r then f + 1 else if even f then f else f + 1)"

definition roundDouble :: "rat \<Rightarrow> jsnum" where
  "roundDouble x =
     (if x = 0 then Num 0
      else
        (let a = \<bar>x\<bar>;
             s = max (floorLog2 a) (- 1022) - 52;
             v = of_int (roundHalfEven (a / pow2 s)) * pow2 s
         in if pow2 1024 \<le> v then (if 0 < x then PosInf else NegInf)
            else Num (if 0 < x then v else - v)))"

fun jsNeg :: "jsnum \<Rightarrow> jsnum" where
  "jsNeg (Num a) = Num (- a)"
| "jsNeg PosInf = NegInf"
| "jsNeg NegInf = PosInf"
| "jsNeg NaN = NaN"

text \<open>An infinity times a finite value.\<close>

definition infTimes :: "jsnum \<Rightarrow> rat \<Rightarrow> jsnum" where
  "infTimes x b = (if b = 0 then NaN else if 0 < b then x else jsNeg x)"

fun jsMul :: "jsnum \<Rightarrow> jsnum \<Rightarrow> jsnum" where
  "jsMul NaN y = NaN"
| "jsMul x NaN = NaN"
| "jsMul (Num a) (Num b) = roundDouble (a * b)"
| "jsMul (Num a) y = infTimes y a"
| "jsMul x (Num b) = infTimes x b"
| "jsMul x y = (if x = y then PosInf else NegInf)"

fun jsAdd :: "jsnum \<Rightarrow> jsnum \<Rightarrow> jsnum" where
  "jsAdd NaN y = NaN"
| "jsAdd x NaN = NaN"
| "jsAdd (Num a) (Num b) = roundDouble (a + b)"
| "jsAdd (Num a) y = y"
| "jsAdd x (Num b) = x"
| "jsAdd x y = (if x = y then x else NaN)"

fun jsDiv :: "jsnum \<Rightarrow> jsnum \<Rightarrow> jsnum" where
  "jsDiv NaN y = NaN"
| "jsDiv x NaN = NaN"
| "jsDiv (Num a) (Num b) =
     (if b \<noteq> 0 then roundDouble (a / b)
      else if a = 0 then NaN else if 0 < a then PosInf else NegInf)"
| "jsDiv (Num a) y = Num 0"
| "jsDiv x (Num b) = (if 0 \<le> b then x else jsNeg x)"
| "jsDiv x y = NaN"

text \<open>
  \<^verbatim>\<open>n++\<close> and \<^verbatim>\<open>n + 1\<close> on a counter: exact up to \<open>2^53\<close>, where the sum rounds
  back to \<open>2^53\<close>.
\<close>

definition jsIncr :: "nat \<Rightarrow> nat" where
  "jsIncr n = (if n < 2 ^ 53 then n + 1 else n)"

section \<open>DocumentProcessor: language detection\<close>

text \<open>The language codes that \<^verbatim>\<open>detectPrimaryLanguage\<close> can return.\<close>

datatype lang = En | Hi | Mr | Gu | Bn | Ta | Te | Kn

text \<open>
  The \<^verbatim>\<open>patterns\<close> object of \<^verbatim>\<open>detectPrimaryLanguage\<close>, in the order in which
  \<^verbatim>\<open>Object.entries\<close> lists it; each pattern is a range of code units.
\<close>

definition patterns :: "(lang \<times> nat \<times> nat) list" where
  "patterns =
     [(Hi, 0x0900, 0x097F),
      (Mr, 0x0900, 0x097F),
      (Gu, 0x0A80, 0x0AFF),
      (Bn, 0x0980, 0x09FF),
      (Ta, 0x0B80, 0x0BFF),
      (Te, 0x0C00, 0x0C7F),
      (Kn, 0x0C80, 0x0CFF)]"

text \<open>\<^verbatim>\<open>(content.match(pattern) || []).length\<close> for a global range pattern.\<close>

definition countMatches :: "nat \<times> nat \<Rightarrow> jsstring \<Rightarrow> nat" where
  "countMatches r content = length (filter (\<lambda>c. fst r \<le> c \<and> c \<le> snd r) content)"

text \<open>
  One turn of the \<^verbatim>\<open>forEach\<close> callback on the pair
  \<open>(maxMatches, detectedLang)\<close>.
\<close>

definition detectStep :: "jsstring \<Rightarrow> nat \<times> lang \<Rightarrow> lang \<times> nat \<times> nat \<Rightarrow> nat \<times> lang" where
  "detectStep content acc p =
     (let matches = countMatches (snd p) content
      in if matches > fst acc then (matches, fst p) else acc)"

definition detectPrimaryLanguage :: "jsstring \<Rightarrow> lang" where
  "detectPrimaryLanguage content = snd (foldl (detectStep content) (0, En) patterns)"

text \<open>The match count of one language, read from its entry in \<open>patterns\<close>.\<close>

definition langCount :: "lang \<Rightarrow> jsstring \<Rightarrow> nat" where
  "langCount l content =
     (case map_of patterns l of None \<Rightarrow> 0 | Some r \<Rightarrow> countMatches r content)"

text \<open>The languages in the order in which the scan visits them.\<close>

definition scanOrder :: "lang list" where
  "scanOrder = map fst patterns"

section \<open>ConversationLogger\<close>

text \<open>
  The \<^verbatim>\<open>metadata\<close> argument of \<^verbatim>\<open>logMessage\<close>: the two properties the logger
  reads, each present or absent.
\<close>

record metadata =
  mdLanguage :: "jsstring option"
  mdIntent :: "jsstring option"

text \<open>A string property used as a condition: absent and empty are falsy.\<close>

definition truthyStr :: "jsstring option \<Rightarrow> bool" where
  "truthyStr v = (case v of None \<Rightarrow> False | Some t \<Rightarrow> t \<noteq> [])"

definition orElse :: "jsstring option \<Rightarrow> jsstring \<Rightarrow> jsstring" where
  "orElse v d = (case v of None \<Rightarrow> d | Some t \<Rightarrow> if t = [] then d else t)"

record loggedMessage =
  lmTimestamp :: jsstring
  lmMessage :: jsstring
  lmMetadata :: metadata

record conversation =
  convId :: jsstring
  startTime :: jsstring
  messages :: "loggedMessage list"
  convLanguage :: jsstring
  resolved :: bool

text \<open>
  A value of a histogram object: a count, or, under a key that names a function every
  object inherits, the source text of that function followed by so many digits 1.
\<close>

datatype histValue = Count nat | FunctionText nat

record analytics =
  totalConversations :: nat
  languageDistribution :: "(jsstring \<times> histValue) list"
  intentDistribution :: "(jsstring \<times> histValue) list"
  handoffRate :: jsnum
  satisfactionScores :: "nat list"
  commonIssues :: "(jsstring \<times> nat) list"

record logger =
  conversations :: "(jsstring \<times> conversation) list"
  analyticsData :: analytics

definition ConversationLogger_new :: logger where
  "ConversationLogger_new =
     \<lparr>conversations = [],
      analyticsData = \<lparr>totalConversations = 0, languageDistribution = [],
        intentDistribution = [], handoffRate = Num 0, satisfactionScores = [],
        commonIssues = []\<rparr>\<rparr>"

text \<open>
  \<^verbatim>\<open>dist[key] = (dist[key] || 0) + 1\<close> on a histogram object, which is a plain
  object. Where the object has no property \<open>key\<close> of its own, the read goes to the
  prototype: for most keys it finds nothing and the count becomes 1; for the name of an
  inherited function it finds the function, and the sum is its source text followed by
  \<^verbatim>\<open>1\<close>; for \<^verbatim>\<open>__proto__\<close> it finds the prototype, and the assignment of the
  resulting string to \<^verbatim>\<open>__proto__\<close> changes nothing. A string that is stored gets
  one more \<^verbatim>\<open>1\<close> each time.
\<close>

definition inheritedFunctions :: "jsstring list" where
  "inheritedFunctions =
     [js ''constructor'', js ''__defineGetter__'', js ''__defineSetter__'',
      js ''hasOwnProperty'', js ''__lookupGetter__'', js ''__lookupSetter__'',
      js ''isPrototypeOf'', js ''propertyIsEnumerable'', js ''toString'', js ''valueOf'',
      js ''toLocaleString'']"

definition bumpCount ::
  "(jsstring \<times> histValue) list \<Rightarrow> jsstring \<Rightarrow> (jsstring \<times> histValue) list" where
  "bumpCount h k =
     (case map_of h k of
        Some (Count n) \<Rightarrow> objSet h k (Count (jsIncr n))
      | Some (FunctionText n) \<Rightarrow> objSet h k (FunctionText (Suc n))
      | None \<Rightarrow>
          if k = js ''__proto__'' then h
          else if k \<in> set inheritedFunctions then objSet h k (FunctionText 1)
          else objSet h k (Count 1))"

definition updateAnalytics :: "logger \<Rightarrow> metadata \<Rightarrow> logger" where
  "updateAnalytics L md =
     (let a = analyticsData L;
          a1 = (if truthyStr (mdLanguage md)
                then a\<lparr>languageDistribution :=
                       bumpCount (languageDistribution a) (the (mdLanguage md))\<rparr>
                else a);
          a2 = (if truthyStr (mdIntent md)
                then a1\<lparr>intentDistribution :=
                       bumpCount (intentDistribution a1) (the (mdIntent md))\<rparr>
                else a1)
      in L\<lparr>analyticsData := a2\<rparr>)"

text \<open>
  \<^verbatim>\<open>logMessage(userId, message, metadata)\<close>; \<open>t0\<close> and \<open>t1\<close> are the two readings
  of the clock (the start time of a new conversation, the time stamp of the message).
\<close>

definition logMessage ::
  "logger \<Rightarrow> jsstring \<Rightarrow> jsstring \<Rightarrow> metadata \<Rightarrow> jsstring \<Rightarrow> jsstring \<Rightarrow> logger" where
  "logMessage L userId message md t0 t1 =
     (let L1 = (if \<not> mapHas (conversations L) userId
                then L\<lparr>conversations := mapSet (conversations L) userId
                         \<lparr>convId = userId, startTime = t0, messages = [],
                          convLanguage = orElse (mdLanguage md) (js ''en''),
                          resolved = False\<rparr>,
                       analyticsData := (analyticsData L)
                         \<lparr>totalConversations := jsIncr (totalConversations (analyticsData L))\<rparr>\<rparr>
                else L);
          L2 = (case mapGet (conversations L1) userId of
                  None \<Rightarrow> L1
                | Some c \<Rightarrow> L1\<lparr>conversations := mapSet (conversations L1) userId
                      (c\<lparr>messages := messages c @
                          [\<lparr>lmTimestamp = t1, lmMessage = message, lmMetadata = md\<rparr>]\<rparr>)\<rparr>)
      in updateAnalytics L2 md)"

text \<open>
  \<^verbatim>\<open>logHandoffRequest(handoffRequest)\<close>. The request is only written to the console,
  so it is not an argument of the model.
\<close>

definition logHandoffRequest :: "logger \<Rightarrow> logger" where
  "logHandoffRequest L =
     (let a = analyticsData L; n = totalConversations a
      in L\<lparr>analyticsData := a\<lparr>handoffRate :=
           jsDiv (jsAdd (jsMul (handoffRate a) (Num (of_nat n - 1))) (Num 1))
                 (Num (of_nat n))\<rparr>\<rparr>)"

text \<open>The logger states that the code can reach from a new logger.\<close>

inductive reachableLogger :: "logger \<Rightarrow> bool" where
  logger_new: "reachableLogger ConversationLogger_new"
| logger_message: "reachableLogger L \<Longrightarrow> reachableLogger (logMessage L u m md t0 t1)"
| logger_handoff: "reachableLogger L \<Longrightarrow> reachableLogger (logHandoffRequest L)"

section \<open>HumanHandoffManager\<close>

text \<open>
  The file \<^verbatim>\<open>HumanHandoffManager.js\<close> holds its JavaScript text in escaped form, a
  backslash written twice: as it stands, the string \<^verbatim>\<open>'doesn\\'t work'\<close> of the
  frustration phrases would not parse. It is read unescaped, so that this string is
  \<^verbatim>\<open>doesn't work\<close> and the separator \<^verbatim>\<open>/\\s+/\<close> of
  \<^verbatim>\<open>calculateSimilarity\<close> is the white-space separator \<^verbatim>\<open>/\s+/\<close> that
  \<^verbatim>\<open>DocumentProcessor.js\<close> uses.
\<close>

datatype priority = Urgent | High | Medium | Low

record routing =
  priority :: priority
  department :: jsstring
  estimatedWaitTime :: nat

record escalationRule = routing +
  triggers :: "jsstring list"

record recommendation = routing +
  reason :: jsstring

text \<open>\<^verbatim>\<open>{ name: ruleName, ...rule }\<close>\<close>

record matchedRule =
  ruleName :: jsstring
  rule :: escalationRule

record escalationSignals =
  complexity :: nat
  frustration :: nat
  specificity :: nat
  urgency :: nat

text \<open>
  The value of \<^verbatim>\<open>totalScore >= 2 || matchedRule\<close>: the boolean \<^verbatim>\<open>true\<close>, or
  else whatever \<^verbatim>\<open>matchedRule\<close> holds, the rule object or \<^verbatim>\<open>null\<close>.
  \<open>toBoolean\<close> is how a condition reads it.
\<close>

datatype shouldEscalateValue = SE_true | SE_rule matchedRule | SE_null

fun toBoolean :: "shouldEscalateValue \<Rightarrow> bool" where
  "toBoolean SE_true = True"
| "toBoolean (SE_rule r) = True"
| "toBoolean SE_null = False"

record assessment =
  shouldEscalate :: shouldEscalateValue
  confidence :: rat
  matched :: "matchedRule option"
  signals :: escalationSignals
  recommended :: "recommendation option"

text \<open>An entry of the conversation context: the properties the manager reads.\<close>

record contextEntry =
  message :: jsstring
  language :: "jsstring option"

text \<open>\<^verbatim>\<open>setupEscalationRules\<close>: five \<^verbatim>\<open>set\<close> calls on the rule map.\<close>

definition setupEscalationRules ::
  "(jsstring \<times> escalationRule) list \<Rightarrow> (jsstring \<times> escalationRule) list" where
  "setupEscalationRules rules0 =
     (let r1 = mapSet rules0 (js ''complex_financial'')
            \<lparr>priority = High, department = js ''finance'', estimatedWaitTime = 300,
             triggers = [js ''loan'', js ''EMI'', js ''refund'',
               js ''scholarship eligibility'', js ''financial aid calculation'']\<rparr>;
          r2 = mapSet r1 (js ''technical_issues'')
            \<lparr>priority = Urgent, department = js ''IT'', estimatedWaitTime = 180,
             triggers = [js ''portal not working'', js ''login failed'',
               js ''payment error'', js ''technical problem'']\<rparr>;
          r3 = mapSet r2 (js ''academic_complex'')
            \<lparr>priority = Medium, department = js ''academic'', estimatedWaitTime = 600,
             triggers = [js ''course change'', js ''credit transfer'',
               js ''grade appeal'', js ''academic calendar'']\<rparr>;
          r4 = mapSet r3 (js ''admission_complex'')
            \<lparr>priority = High, department = js ''admissions'', estimatedWaitTime = 450,
             triggers = [js ''document verification'', js ''eligibility query'',
               js ''admission appeal'']\<rparr>;
          r5 = mapSet r4 (js ''complaints'')
            \<lparr>priority = Medium, department = js ''admin'', estimatedWaitTime = 720,
             triggers = [js ''complaint'', js ''unsatisfied'', js ''problem with'',
               js ''issue with'']\<rparr>
      in r5)"

definition complexityTriggers :: "jsstring list" where
  "complexityTriggers =
     [js ''multiple'', js ''various'', js ''different'', js ''complex'', js ''complicated'',
      js ''several'', js ''many'', js ''numerous'', js ''detailed'', js ''specific'']"

definition frustrationTriggers :: "jsstring list" where
  "frustrationTriggers =
     [js ''frustrated'', js ''annoyed'', js ''angry'', js ''upset'', js ''disappointed'',
      js ''not working'', js (''doesn'' @ [CHR 0x27] @ ''t work''), js ''problem'',
      js ''issue'', js ''error'',
      js ''help me'', js ''urgent'', js ''immediately'', js ''asap'']"

text \<open>
  The \<^verbatim>\<open>forEach\<close> over a trigger list: one is added for each trigger that the
  lower-cased message includes.
\<close>

definition countTriggers :: "jsstring list \<Rightarrow> jsstring \<Rightarrow> nat" where
  "countTriggers ts messageLower = length (filter (\<lambda>t. includesStr messageLower t) ts)"

text \<open>
  \<^verbatim>\<open>calculateSimilarity(msg1, msg2)\<close>. \<open>intersection\<close> keeps every word of the first
  message that the second has, with its repetitions; \<open>union\<close> is the array of the
  distinct words of both. The quotient is exact here: it is only compared with 0.7, and
  for word counts below \<open>10^14\<close> the comparison of the doubles has the same outcome.
\<close>

definition calculateSimilarity :: "jsstring \<Rightarrow> jsstring \<Rightarrow> rat" where
  "calculateSimilarity msg1 msg2 =
     (let words1 = splitWhitespace (toLowerCase msg1);
          words2 = splitWhitespace (toLowerCase msg2);
          intersection = filter (\<lambda>word. word \<in> set words2) words1;
          union = setFromArray (words1 @ words2)
      in of_nat (length intersection) / of_nat (length union))"

text \<open>
  The similarity as the specification words it, \<open>|intersection| / |union|\<close> over the
  lower-cased tokens between white space: the number of tokens that the two messages
  share, divided by the number of tokens that either has. It is the measure that the names
  \<open>intersection\<close> and \<open>union\<close> of \<^verbatim>\<open>calculateSimilarity\<close> announce.
\<close>

definition specSimilarity :: "jsstring \<Rightarrow> jsstring \<Rightarrow> rat" where
  "specSimilarity msg1 msg2 =
     (let tokens1 = set (splitWhitespace (toLowerCase msg1));
          tokens2 = set (splitWhitespace (toLowerCase msg2))
      in of_nat (card (tokens1 \<inter> tokens2)) / of_nat (card (tokens1 \<union> tokens2)))"

text \<open>\<^verbatim>\<open>array.slice(-3)\<close>\<close>

definition sliceLast3 :: "'a list \<Rightarrow> 'a list" where
  "sliceLast3 xs = drop (length xs - 3) xs"

text \<open>
  The repeated-query check of \<^verbatim>\<open>analyzeEscalationNeed\<close>: what it adds to
  \<^verbatim>\<open>escalationSignals.frustration\<close>. The context may be \<^verbatim>\<open>null\<close>.
\<close>

definition similarQueries :: "jsstring \<Rightarrow> contextEntry list \<Rightarrow> contextEntry list" where
  "similarQueries msg ctx =
     filter (\<lambda>m. calculateSimilarity (message m) msg > 7 / 10) (sliceLast3 ctx)"

definition repetitionBonus :: "jsstring \<Rightarrow> contextEntry list option \<Rightarrow> nat" where
  "repetitionBonus msg context =
     (case context of
        None \<Rightarrow> 0
      | Some ctx \<Rightarrow>
          if length ctx > 3
          then (if length (similarQueries msg ctx) \<ge> 2 then 2 else 0)
          else 0)"

text \<open>\<^verbatim>\<open>rule.triggers.some(trigger => messageLower.includes(trigger.toLowerCase()))\<close>\<close>

definition hasMatch :: "jsstring \<Rightarrow> escalationRule \<Rightarrow> bool" where
  "hasMatch messageLower r =
     list_ex (\<lambda>trigger. includesStr messageLower (toLowerCase trigger)) (triggers r)"

text \<open>The loop over the rule map, left at the first rule that matches.\<close>

fun findRule :: "jsstring \<Rightarrow> (jsstring \<times> escalationRule) list \<Rightarrow> matchedRule option" where
  "findRule messageLower [] = None"
| "findRule messageLower (e # rules) =
     (if hasMatch messageLower (snd e) then Some \<lparr>ruleName = fst e, rule = snd e\<rparr>
      else findRule messageLower rules)"

definition totalScoreOf :: "escalationSignals \<Rightarrow> rat" where
  "totalScoreOf sg =
     of_nat (complexity sg) * (3 / 10) + of_nat (frustration sg) * (4 / 10)
     + of_nat (specificity sg) * (2 / 10) + of_nat (urgency sg) * (1 / 10)"

definition getEscalationRecommendation :: "rat \<Rightarrow> matchedRule option \<Rightarrow> recommendation option" where
  "getEscalationRecommendation score mr =
     (case mr of
        Some m \<Rightarrow>
          Some \<lparr>priority = priority (rule m), department = department (rule m),
                estimatedWaitTime = estimatedWaitTime (rule m),
                reason = js ''Matched rule: '' @ ruleName m\<rparr>
      | None \<Rightarrow>
          if score \<ge> 4
          then Some \<lparr>priority = Urgent, department = js ''general'', estimatedWaitTime = 180,
                      reason = js ''High complexity/frustration detected''\<rparr>
          else if score \<ge> 2
          then Some \<lparr>priority = Medium, department = js ''general'', estimatedWaitTime = 600,
                      reason = js ''Moderate escalation signals''\<rparr>
          else None)"

text \<open>
  The same sum as the code computes it, in doubles, from left to right; the factors are
  the doubles nearest to 0.3, 0.4, 0.2 and 0.1.
\<close>

definition totalScoreDouble :: "escalationSignals \<Rightarrow> jsnum" where
  "totalScoreDouble sg =
     jsAdd
       (jsAdd
          (jsAdd (jsMul (Num (of_nat (complexity sg))) (roundDouble (3 / 10)))
                 (jsMul (Num (of_nat (frustration sg))) (roundDouble (4 / 10))))
          (jsMul (Num (of_nat (specificity sg))) (roundDouble (2 / 10))))
       (jsMul (Num (of_nat (urgency sg))) (roundDouble (1 / 10)))"

text \<open>
  \<^verbatim>\<open>analyzeEscalationNeed(message, context)\<close>, for a manager whose rule map is
  \<open>rules\<close>. The score is an exact rational; the signals are small counters. The score
  is only compared with 2 and 4. The exact score is a multiple of 0.1 and the double is
  within \<open>10^-14\<close> of it, so the comparisons of the doubles can differ only where the
  exact score is 2 or 4, and there the double is 2 or 4 as well (lemma
  \<open>score_double_boundary\<close>).
\<close>

definition analyzeEscalationNeed ::
  "(jsstring \<times> escalationRule) list \<Rightarrow> jsstring \<Rightarrow> contextEntry list option \<Rightarrow> assessment" where
  "analyzeEscalationNeed rules msg context =
     (let messageLower = toLowerCase msg;
          sg = \<lparr>complexity = countTriggers complexityTriggers messageLower,
                frustration = countTriggers frustrationTriggers messageLower
                  + repetitionBonus msg context,
                specificity = 0, urgency = 0\<rparr>;
          mr = findRule messageLower rules;
          totalScore = totalScoreOf sg
      in \<lparr>shouldEscalate =
             (if totalScore \<ge> 2 then SE_true
              else case mr of Some m \<Rightarrow> SE_rule m | None \<Rightarrow> SE_null),
          confidence = min (totalScore / 5) 1,
          matched = mr,
          signals = sg,
          recommended = getEscalationRecommendation totalScore mr\<rparr>)"

subsection \<open>The handoff queue\<close>

record handoffRequest =
  reqId :: jsstring
  userId :: jsstring
  reqTimestamp :: jsstring
  reqContext :: "contextEntry list"
  escalationInfo :: assessment
  status :: jsstring
  queuePosition :: nat
  reqEstimatedWaitTime :: nat
  reqDepartment :: jsstring
  reqLanguage :: jsstring

text \<open>
  The manager: the queue, the rule map and its logger. (\<^verbatim>\<open>supportAgents\<close> is created
  and never used; the web socket and the status element only write to the console and the
  page.)
\<close>

record manager =
  handoffQueue :: "(jsstring \<times> handoffRequest) list"
  escalationRules :: "(jsstring \<times> escalationRule) list"
  conversationLogger :: logger

definition HumanHandoffManager_new :: manager where
  "HumanHandoffManager_new =
     \<lparr>handoffQueue = [], escalationRules = setupEscalationRules [],
      conversationLogger = ConversationLogger_new\<rparr>"

definition priorityOrder :: "priority \<Rightarrow> int" where
  "priorityOrder p = (case p of Urgent \<Rightarrow> 3 | High \<Rightarrow> 2 | Medium \<Rightarrow> 1 | Low \<Rightarrow> 0)"

text \<open>\<^verbatim>\<open>req.escalationInfo?.recommendation?.priority || 'low'\<close>\<close>

definition priorityOf :: "assessment \<Rightarrow> priority" where
  "priorityOf info = (case recommended info of None \<Rightarrow> Low | Some r \<Rightarrow> priority r)"

text \<open>
  \<^verbatim>\<open>calculateQueuePosition(priority)\<close>: the pending requests, sorted by the comparator
  \<open>priorityOrder b - priorityOrder a\<close> (the sort is stable), and one more than the length
  of that array.
\<close>

definition pendingSorted :: "manager \<Rightarrow> handoffRequest list" where
  "pendingSorted M =
     sort_key (\<lambda>req. - priorityOrder (priorityOf (escalationInfo req)))
       (filter (\<lambda>req. status req = js ''pending'') (map snd (handoffQueue M)))"

definition calculateQueuePosition :: "manager \<Rightarrow> priority option \<Rightarrow> nat" where
  "calculateQueuePosition M p = length (pendingSorted M) + 1"

text \<open>What \<^verbatim>\<open>initiateHandoff\<close> resolves to (the confirmation text is not modelled).\<close>

record handoffOutcome =
  success :: bool
  handoffId :: jsstring
  outQueuePosition :: nat
  outEstimatedWaitTime :: nat

text \<open>\<^verbatim>\<open>context[context.length - 1]?.language || 'en'\<close>\<close>

definition lastLanguage :: "contextEntry list \<Rightarrow> jsstring" where
  "lastLanguage ctx = (if ctx = [] then js ''en'' else orElse (language (last ctx)) (js ''en''))"

text \<open>
  \<^verbatim>\<open>initiateHandoff(userId, context, escalationInfo)\<close>. The generated identifier
  \<open>hid\<close> and the time stamp \<open>now\<close> come from the clock and the random generator and are
  arguments. The wait time of the recommendation replaces 600 unless it is absent or 0, the
  department replaces \<^verbatim>\<open>general\<close> unless it is absent or empty.
\<close>

definition initiateHandoff ::
  "manager \<Rightarrow> jsstring \<Rightarrow> jsstring \<Rightarrow> jsstring \<Rightarrow> contextEntry list \<Rightarrow> assessment
     \<Rightarrow> manager \<times> handoffOutcome" where
  "initiateHandoff M hid now uid ctx info =
     (let request =
            \<lparr>reqId = hid, userId = uid, reqTimestamp = now, reqContext = ctx,
             escalationInfo = info, status = js ''pending'',
             queuePosition =
               calculateQueuePosition M (map_option priority (recommended info)),
             reqEstimatedWaitTime =
               (case recommended info of
                  None \<Rightarrow> 600
                | Some r \<Rightarrow> if estimatedWaitTime r = 0 then 600 else estimatedWaitTime r),
             reqDepartment =
               orElse (map_option department (recommended info)) (js ''general''),
             reqLanguage = lastLanguage ctx\<rparr>;
          M1 = M\<lparr>handoffQueue := mapSet (handoffQueue M) hid request\<rparr>;
          M2 = M1\<lparr>conversationLogger := logHandoffRequest (conversationLogger M1)\<rparr>
      in (M2, \<lparr>success = True, handoffId = hid,
                outQueuePosition = queuePosition request,
                outEstimatedWaitTime = reqEstimatedWaitTime request\<rparr>))"

text \<open>
  An \<^verbatim>\<open>escalationInfo\<close> argument whose recommendation has priority \<open>p\<close>; used to
  enqueue requests of a given priority.
\<close>

definition assessmentWith :: "priority \<Rightarrow> assessment" where
  "assessmentWith p =
     \<lparr>shouldEscalate = SE_true, confidence = 1, matched = None,
      signals = \<lparr>complexity = 0, frustration = 10, specificity = 0, urgency = 0\<rparr>,
      recommended = Some \<lparr>priority = p, department = js ''general'',
        estimatedWaitTime = 600, reason = js ''Moderate escalation signals''\<rparr>\<rparr>"

section \<open>DocumentProcessor: index and search\<close>

text \<open>
  \<^verbatim>\<open>multilingualIndex\<close> is one \<^verbatim>\<open>Map\<close> from a key to the \<^verbatim>\<open>Set\<close> of part
  identifiers: a body word is posted under the word itself, a title word under the word
  prefixed with \<^verbatim>\<open>title_\<close>.
\<close>

type_synonym index = "(jsstring \<times> jsstring list) list"

definition titleKey :: "jsstring \<Rightarrow> jsstring" where
  "titleKey word = js ''title_'' @ word"

text \<open>
  \<^verbatim>\<open>if (!index.has(k)) index.set(k, new Set()); index.get(k).add(id)\<close>
\<close>

definition indexAdd :: "index \<Rightarrow> jsstring \<Rightarrow> jsstring \<Rightarrow> index" where
  "indexAdd idx k pid =
     (let idx1 = (if \<not> mapHas idx k then mapSet idx k [] else idx)
      in case mapGet idx1 k of
           None \<Rightarrow> idx1
         | Some st \<Rightarrow> mapSet idx1 k (setAdd st pid))"

definition postWords :: "(jsstring \<Rightarrow> jsstring) \<Rightarrow> jsstring \<Rightarrow> index \<Rightarrow> jsstring list \<Rightarrow> index" where
  "postWords key pid idx ws =
     foldl (\<lambda>ix word. if length word > 2 then indexAdd ix (key word) pid else ix) idx ws"

text \<open>\<^verbatim>\<open>addToIndex(id, content, title = '')\<close>\<close>

definition addToIndex :: "index \<Rightarrow> jsstring \<Rightarrow> jsstring \<Rightarrow> jsstring \<Rightarrow> index" where
  "addToIndex idx pid content title =
     (let words = splitWhitespace (toLowerCase content);
          idx1 = postWords (\<lambda>word. word) pid idx words
      in if title \<noteq> []
         then postWords titleKey pid idx1 (splitWhitespace (toLowerCase title))
         else idx1)"

text \<open>\<^verbatim>\<open>matches.set(id, (matches.get(id) || 0) + k)\<close>\<close>

definition addScore :: "nat \<Rightarrow> (jsstring \<times> nat) list \<Rightarrow> jsstring \<Rightarrow> (jsstring \<times> nat) list" where
  "addScore k matches pid =
     mapSet matches pid ((case mapGet matches pid of None \<Rightarrow> 0 | Some v \<Rightarrow> v) + k)"

text \<open>The callback of \<^verbatim>\<open>queryWords.forEach\<close> in \<^verbatim>\<open>searchKnowledge\<close>.\<close>

definition scoreWord :: "index \<Rightarrow> (jsstring \<times> nat) list \<Rightarrow> jsstring \<Rightarrow> (jsstring \<times> nat) list" where
  "scoreWord idx matches word =
     (let m1 = (case mapGet idx word of
                  None \<Rightarrow> matches
                | Some st \<Rightarrow> foldl (addScore 1) matches st)
      in case mapGet idx (titleKey word) of
           None \<Rightarrow> m1
         | Some st \<Rightarrow> foldl (addScore 3) m1 st)"

text \<open>
  \<^verbatim>\<open>array.slice(0, limit)\<close> for an integer \<open>limit\<close>: a negative limit counts from
  the end.
\<close>

definition sliceTo :: "int \<Rightarrow> 'a list \<Rightarrow> 'a list" where
  "sliceTo limit xs =
     (if limit < 0 then take (nat (int (length xs) + limit)) xs else take (nat limit) xs)"

text \<open>
  The scores before sorting, and \<^verbatim>\<open>searchKnowledge(query, limit)\<close>: the entries sorted
  by the comparator \<open>b[1] - a[1]\<close> (the sort is stable), cut to the limit. A result
  \<open>{id, score}\<close> is a pair.
\<close>

definition matchScores :: "index \<Rightarrow> jsstring \<Rightarrow> (jsstring \<times> nat) list" where
  "matchScores idx query = foldl (scoreWord idx) [] (splitWhitespace (toLowerCase query))"

definition searchKnowledge :: "index \<Rightarrow> jsstring \<Rightarrow> int \<Rightarrow> (jsstring \<times> nat) list" where
  "searchKnowledge idx query limit =
     sliceTo limit (sort_key (\<lambda>e. - int (snd e)) (matchScores idx query))"

section \<open>DocumentProcessor: ingestion\<close>

datatype error = Error jsstring

record jsfile =
  fileName :: jsstring
  fileText :: "error + jsstring"

record docSection =
  secTitle :: jsstring
  secContent :: jsstring
  secPosition :: nat

record faq =
  question :: jsstring
  answer :: jsstring
  faqLanguage :: lang

record entity =
  entType :: jsstring
  entValue :: jsstring
  entContext :: jsstring

record topic =
  keyword :: jsstring
  frequency :: nat
  relevance :: rat

record docMetadata =
  givenMetadata :: "(jsstring \<times> jsstring) list"
  processedAt :: jsstring
  contentLength :: nat
  docLanguage :: lang

record processedData =
  originalContent :: jsstring
  sections :: "docSection list"
  faqs :: "faq list"
  entities :: "entity list"
  keyTopics :: "topic list"
  docMeta :: docMetadata

text \<open>
  The collaborators of ingestion that the properties below do not depend on, taken as
  parameters: the PDF reader (the \<^verbatim>\<open>pdfjs-dist\<close> library) and the four regular
  expression passes of \<^verbatim>\<open>processContent\<close>.
\<close>

record extractors =
  extractPDFContent :: "jsfile \<Rightarrow> error + jsstring"
  extractSections :: "jsstring \<Rightarrow> docSection list"
  extractFAQs :: "jsstring \<Rightarrow> faq list"
  extractEntities :: "jsstring \<Rightarrow> entity list"
  extractKeyTopics :: "jsstring \<Rightarrow> topic list"

record processor =
  supportedFormats :: "jsstring list"
  extractedKnowledge :: "(jsstring \<times> processedData) list"
  multilingualIndex :: index

definition DocumentProcessor_new :: processor where
  "DocumentProcessor_new =
     \<lparr>supportedFormats = [js ''pdf'', js ''docx'', js ''txt'', js ''doc''],
      extractedKnowledge = [], multilingualIndex = []\<rparr>"

text \<open>\<^verbatim>\<open>file.name.split('.').pop().toLowerCase()\<close>: what follows the last full stop.\<close>

definition extension :: "jsfile \<Rightarrow> jsstring" where
  "extension f = toLowerCase (rev (takeWhile (\<lambda>c. c \<noteq> 46) (rev (fileName f))))"

definition isValidFormat :: "processor \<Rightarrow> jsfile \<Rightarrow> bool" where
  "isValidFormat P f \<longleftrightarrow> extension f \<in> set (supportedFormats P)"

text \<open>
  \<^verbatim>\<open>text.replace(/<[^>]*>/g, '')\<close>: every stretch from a \<^verbatim>\<open><\<close> to the next
  \<^verbatim>\<open>>\<close> is removed; \<open>inTag\<close> says that such a stretch is being skipped.
\<close>

fun stripTags :: "bool \<Rightarrow> jsstring \<Rightarrow> jsstring" where
  "stripTags inTag [] = []"
| "stripTags True (c # s) = (if c = 62 then stripTags False s else stripTags True s)"
| "stripTags False (c # s) =
     (if c = 60 \<and> 62 \<in> set s then stripTags True s else c # stripTags False s)"

definition extractDocxContent :: "jsfile \<Rightarrow> error + jsstring" where
  "extractDocxContent f =
     (case fileText f of
        Inl e \<Rightarrow>
          Inl (Error (js ''Failed to extract DOCX content. Please convert to PDF or TXT format.''))
      | Inr t \<Rightarrow> Inr (stripTags False t))"

definition extractDocContent :: "jsfile \<Rightarrow> error + jsstring" where
  "extractDocContent f =
     Inl (Error (js ''DOC format not supported. Please convert to DOCX, PDF, or TXT format.''))"

definition extractContent :: "extractors \<Rightarrow> jsfile \<Rightarrow> error + jsstring" where
  "extractContent X f =
     (let fileType = extension f
      in if fileType = js ''pdf'' then extractPDFContent X f
         else if fileType = js ''docx'' then extractDocxContent f
         else if fileType = js ''doc'' then extractDocContent f
         else if fileType = js ''txt'' then fileText f
         else Inl (Error (js ''Unsupported file format: '' @ fileType)))"

definition processContent ::
  "extractors \<Rightarrow> jsstring \<Rightarrow> (jsstring \<times> jsstring) list \<Rightarrow> jsstring \<Rightarrow> processedData" where
  "processContent X content md now =
     \<lparr>originalContent = content,
      sections = extractSections X content,
      faqs = extractFAQs X content,
      entities = extractEntities X content,
      keyTopics = extractKeyTopics X content,
      docMeta = \<lparr>givenMetadata = md, processedAt = now, contentLength = length content,
                 docLanguage = detectPrimaryLanguage content\<rparr>\<rparr>"

text \<open>
  \<^verbatim>\<open>storeKnowledge\<close>; the identifier \<open>kid\<close> is built from the clock and the random
  generator and is an argument.
\<close>

definition storeKnowledge :: "processor \<Rightarrow> jsstring \<Rightarrow> processedData \<Rightarrow> processor" where
  "storeKnowledge P kid pd = P\<lparr>extractedKnowledge := mapSet (extractedKnowledge P) kid pd\<rparr>"

text \<open>The decimal numeral of an array position, as a template literal prints it.\<close>

function decimal :: "nat \<Rightarrow> jsstring" where
  "decimal n = (if n < 10 then [48 + n] else decimal (n div 10) @ [48 + n mod 10])"
  by pat_completeness auto
termination
  by (relation "measure (\<lambda>n. n)") auto

definition partId :: "jsstring \<Rightarrow> string \<Rightarrow> nat \<Rightarrow> jsstring" where
  "partId kid kind i = kid @ js kind @ decimal i"

text \<open>\<^verbatim>\<open>createMultilingualIndex(processedData, knowledgeId)\<close>\<close>

definition createMultilingualIndex :: "processor \<Rightarrow> processedData \<Rightarrow> jsstring \<Rightarrow> processor" where
  "createMultilingualIndex P pd kid =
     (let i1 = foldl (\<lambda>ix (i, sec).
                  addToIndex ix (partId kid ''_section_'' i) (secContent sec) (secTitle sec))
                (multilingualIndex P) (enumerate 0 (sections pd));
          i2 = foldl (\<lambda>ix (i, q).
                  addToIndex ix (partId kid ''_faq_'' i)
                    (question q @ js '' '' @ answer q) (question q))
                i1 (enumerate 0 (faqs pd));
          i3 = foldl (\<lambda>ix (i, e).
                  addToIndex ix (partId kid ''_entity_'' i) (entContext e) (entValue e))
                i2 (enumerate 0 (entities pd))
      in P\<lparr>multilingualIndex := i3\<rparr>)"

record ingestResult =
  ingestSuccess :: bool
  knowledgeId :: jsstring
  resContentLength :: nat
  sectionsExtracted :: nat
  faqsExtracted :: nat
  resMetadata :: docMetadata

text \<open>
  \<^verbatim>\<open>ingestDocument(file, metadata)\<close>: the processor after the call, and either the
  error that the \<^verbatim>\<open>catch\<close> clause throws or the result.
\<close>

definition failed :: "error \<Rightarrow> error" where
  "failed e = (case e of Error m \<Rightarrow> Error (js ''Failed to process document: '' @ m))"

definition ingestDocument ::
  "extractors \<Rightarrow> jsstring \<Rightarrow> jsstring \<Rightarrow> processor \<Rightarrow> jsfile \<Rightarrow> (jsstring \<times> jsstring) list
     \<Rightarrow> processor \<times> (error + ingestResult)" where
  "ingestDocument X kid now P f md =
     (if \<not> isValidFormat P f
      then (P, Inl (failed (Error (js ''Unsupported file format: '' @ fileName f))))
      else case extractContent X f of
             Inl e \<Rightarrow> (P, Inl (failed e))
           | Inr content \<Rightarrow>
               (let pd = processContent X content md now;
                    P1 = storeKnowledge P kid pd;
                    P2 = createMultilingualIndex P1 pd kid
                in (P2, Inr \<lparr>ingestSuccess = True, knowledgeId = kid,
                             resContentLength = length content,
                             sectionsExtracted = length (sections pd),
                             faqsExtracted = length (faqs pd),
                             resMetadata = docMeta pd\<rparr>)))"

section \<open>DocumentProcessor: export and import\<close>

record exportedData =
  knowledge :: "(jsstring \<times> processedData) list"
  exportedIndex :: "(jsstring \<times> jsstring list) list"
  exportedAt :: jsstring

definition exportKnowledgeBase :: "processor \<Rightarrow> jsstring \<Rightarrow> exportedData" where
  "exportKnowledgeBase P now =
     \<lparr>knowledge = objectFromEntries (extractedKnowledge P),
      exportedIndex = objectFromEntries (map (\<lambda>e. (fst e, snd e)) (multilingualIndex P)),
      exportedAt = now\<rparr>"

definition importKnowledgeBase :: "processor \<Rightarrow> exportedData \<Rightarrow> processor" where
  "importKnowledgeBase P d =
     P\<lparr>extractedKnowledge := mapFromEntries (objectEntries (knowledge d)),
       multilingualIndex :=
         mapFromEntries (map (\<lambda>e. (fst e, setFromArray (snd e))) (objectEntries (exportedIndex d)))\<rparr>"

text \<open>
  The entry lists that stand for a \<^verbatim>\<open>Map\<close> of \<^verbatim>\<open>Set\<close>s: no key twice, no
  member twice.
\<close>

definition wfIndex :: "index \<Rightarrow> bool" where
  "wfIndex idx \<longleftrightarrow> distinct (map fst idx) \<and> list_all (\<lambda>e. distinct (snd e)) idx"

text \<open>The processor states that the code can reach from a new processor.\<close>

inductive reachable :: "processor \<Rightarrow> bool" where
  reach_new: "reachable DocumentProcessor_new"
| reach_add: "reachable P \<Longrightarrow>
     reachable (P\<lparr>multilingualIndex := addToIndex (multilingualIndex P) pid content title\<rparr>)"
| reach_ingest: "reachable P \<Longrightarrow> reachable (fst (ingestDocument X kid now P f md))"
| reach_import: "reachable P \<Longrightarrow> reachable Q \<Longrightarrow>
     reachable (importKnowledgeBase Q (exportKnowledgeBase P now))"

section \<open>Example inputs\<close>

text \<open>
  A logger that has recorded a message of each of three users, and the same logger after
  one handoff.
\<close>

definition plainMetadata :: metadata where
  "plainMetadata = \<lparr>mdLanguage = Some (js ''en''), mdIntent = None\<rparr>"

definition threeConversations :: logger where
  "threeConversations =
     logMessage
       (logMessage
          (logMessage ConversationLogger_new (js ''u1'') (js ''hello'') plainMetadata
             (js ''t0'') (js ''t1''))
          (js ''u2'') (js ''hello'') plainMetadata (js ''t2'') (js ''t3''))
       (js ''u3'') (js ''hello'') plainMetadata (js ''t4'') (js ''t5'')"

definition afterOneHandoff :: logger where
  "afterOneHandoff = logHandoffRequest threeConversations"

text \<open>A message that contains a trigger of the rule \<^verbatim>\<open>complex_financial\<close> and no signal phrase.\<close>

definition refundMessage :: jsstring where
  "refundMessage = js ''I want a REFUND''"

text \<open>
  A message with the same trigger and five frustration phrases, and a message that spells
  a trigger of \<^verbatim>\<open>technical_issues\<close> in capitals, with the Kelvin sign U+212A for the
  letter K.
\<close>

definition urgentRefundMessage :: jsstring where
  "urgentRefundMessage = js ''Urgent problem: refund issue, error, asap''"

definition kelvinMessage :: jsstring where
  "kelvinMessage = js ''PORTAL NOT WOR'' @ [0x212A] @ js ''ING''"

text \<open>The message of the example of claim C6, analysed with an empty context.\<close>

definition portalMessage :: jsstring where
  "portalMessage = js ''This portal is not working, I need help immediately''"

definition portalAssessment :: assessment where
  "portalAssessment =
     analyzeEscalationNeed (escalationRules HumanHandoffManager_new) portalMessage (Some [])"

text \<open>A question, a context whose last three turns repeat it, and one where one turn does.\<close>

definition feeQuestion :: jsstring where
  "feeQuestion = js ''When is the hostel fee due''"

definition repeatedContext :: "contextEntry list" where
  "repeatedContext =
     [\<lparr>message = js ''hello'', language = Some (js ''en'')\<rparr>,
      \<lparr>message = js ''when is the hostel fee due'', language = Some (js ''en'')\<rparr>,
      \<lparr>message = js ''When is the hostel fee due ?'', language = Some (js ''en'')\<rparr>,
      \<lparr>message = js ''when  is the HOSTEL fee due'', language = Some (js ''en'')\<rparr>]"

definition variedContext :: "contextEntry list" where
  "variedContext =
     [\<lparr>message = js ''hello'', language = Some (js ''en'')\<rparr>,
      \<lparr>message = js ''library timings'', language = Some (js ''en'')\<rparr>,
      \<lparr>message = js ''when is the hostel fee due'', language = Some (js ''en'')\<rparr>,
      \<lparr>message = js ''thanks'', language = Some (js ''en'')\<rparr>]"

text \<open>
  A context whose last three turns repeat one word, and a message of that word alone.
\<close>

definition feeMessage :: jsstring where
  "feeMessage = js ''fee''"

definition feeContext :: "contextEntry list" where
  "feeContext =
     [\<lparr>message = js ''hello'', language = Some (js ''en'')\<rparr>,
      \<lparr>message = js ''fee fee fee hostel'', language = Some (js ''en'')\<rparr>,
      \<lparr>message = js ''fee fee fee hostel'', language = Some (js ''en'')\<rparr>,
      \<lparr>message = js ''fee fee fee hostel'', language = Some (js ''en'')\<rparr>]"

text \<open>
  Enqueueing a request of a given priority, and the managers after requests of priority
  low, urgent and medium have been enqueued in that order.
\<close>

definition enqueue :: "manager \<Rightarrow> string \<Rightarrow> priority \<Rightarrow> manager \<times> handoffOutcome" where
  "enqueue M hid p = initiateHandoff M (js hid) (js ''t'') (js ''u'') [] (assessmentWith p)"

definition afterLow :: manager where
  "afterLow = fst (enqueue HumanHandoffManager_new ''HO_1'' Low)"

definition afterUrgent :: manager where
  "afterUrgent = fst (enqueue afterLow ''HO_2'' Urgent)"

definition afterMedium :: manager where
  "afterMedium = fst (enqueue afterUrgent ''HO_3'' Medium)"

text \<open>
  Collaborators that find nothing, and a file whose extension is \<^verbatim>\<open>doc\<close> once it is
  lower-cased.
\<close>

definition plainExtractors :: extractors where
  "plainExtractors =
     \<lparr>extractPDFContent = (\<lambda>f. Inl (Error (js ''Invalid PDF structure''))),
      extractSections = (\<lambda>content. []), extractFAQs = (\<lambda>content. []),
      extractEntities = (\<lambda>content. []), extractKeyTopics = (\<lambda>content. [])\<rparr>"

definition docFile :: jsfile where
  "docFile = \<lparr>fileName = js ''Hostel.Rules.DOC'', fileText = Inr (js ''Chapter 1 Fees'')\<rparr>"

text \<open>
  A processor that has indexed one part. One of its body words is an array index, so the
  exported object lists it first.
\<close>

definition sampleProcessor :: processor where
  "sampleProcessor = DocumentProcessor_new\<lparr>multilingualIndex :=
     addToIndex (multilingualIndex DocumentProcessor_new) (js ''kb_1_section_0'')
       (js ''Hostel fee 2024 due'') (js ''Fee'')\<rparr>"

section \<open>DocumentProcessor: indexing a list of parts\<close>

text \<open>
  A part is one call of \<^verbatim>\<open>addToIndex(id, content, title)\<close>, as
  \<^verbatim>\<open>createMultilingualIndex\<close> makes one for each section, FAQ and entity.
  \<open>indexParts\<close> makes the calls in turn.
\<close>

record part =
  pId :: jsstring
  pContent :: jsstring
  pTitle :: jsstring

definition indexParts :: "index \<Rightarrow> part list \<Rightarrow> index" where
  "indexParts idx parts =
     foldl (\<lambda>ix p. addToIndex ix (pId p) (pContent p) (pTitle p)) idx parts"

text \<open>The words of a content and of a title that \<^verbatim>\<open>addToIndex\<close> posts.\<close>

definition bodyWords :: "jsstring \<Rightarrow> jsstring list" where
  "bodyWords content = filter (\<lambda>word. length word > 2) (splitWhitespace (toLowerCase content))"

definition titleWords :: "jsstring \<Rightarrow> jsstring list" where
  "titleWords title =
     (if title \<noteq> [] then filter (\<lambda>word. length word > 2) (splitWhitespace (toLowerCase title))
      else [])"

text \<open>
  The members of the set stored under a key (none when the key is absent), and the
  property that no stored set is empty.
\<close>

definition postings :: "index \<Rightarrow> jsstring \<Rightarrow> jsstring set" where
  "postings idx k = (case mapGet idx k of None \<Rightarrow> {} | Some st \<Rightarrow> set st)"

definition noEmptySet :: "index \<Rightarrow> bool" where
  "noEmptySet idx \<longleftrightarrow> (\<forall>k. mapGet idx k \<noteq> Some [])"

text \<open>
  Three parts: a section whose body has the word \<^verbatim>\<open>title_500\<close>, an entity whose value
  \<^verbatim>\<open>500\<close> lies outside its context window, and a section without either.
\<close>

definition sectionPart :: part where
  "sectionPart = \<lparr>pId = js ''kb_1_section_0'',
     pContent = js ''Chapter 1 Enter title_500 in the form'', pTitle = js ''Chapter 1''\<rparr>"

definition entityPart :: part where
  "entityPart = \<lparr>pId = js ''kb_1_entity_0'',
     pContent = js ''fee for the hostel is Rs.'', pTitle = js ''500''\<rparr>"

definition receiptPart :: part where
  "receiptPart = \<lparr>pId = js ''kb_1_section_1'',
     pContent = js ''Chapter 2 Keep the receipt'', pTitle = js ''Chapter 2''\<rparr>"

section \<open>Properties of strings and numbers\<close>

text \<open>On ASCII text, lower-casing maps the letters A to Z and nothing else.\<close>

lemma toCodePoints_ascii: "list_all (\<lambda>c. c < 128) s \<Longrightarrow> toCodePoints s = s"
  by (induction s rule: toCodePoints.induct) (auto simp: isHighSurrogate_def)

lemma lowerPoints_ascii:
  "list_all (\<lambda>c. c < 128) s \<Longrightarrow> lowerPoints before s = map lowerUnit s"
  by (induction s arbitrary: before) (auto simp: lowerPoint_def)

lemma fromCodePoint_units:
  "list_all (\<lambda>c. c < 0x10000) s \<Longrightarrow> concat (map fromCodePoint s) = s"
  by (induction s) (auto simp: fromCodePoint_def)

lemma toLowerCase_ascii:
  assumes "list_all (\<lambda>c. c < 128) s"
  shows "toLowerCase s = map lowerUnit s"
proof -
  have "list_all (\<lambda>c. c < 0x10000) (map lowerUnit s)"
    using assms by (induction s) (auto simp: lowerUnit_def)
  then have "concat (map fromCodePoint (map lowerUnit s)) = map lowerUnit s"
    by (rule fromCodePoint_units)
  then show ?thesis
    using assms by (simp only: toLowerCase_def toCodePoints_ascii lowerPoints_ascii)
qed

text \<open>The rules that evaluate lower-casing on text with other code points.\<close>

lemmas lower_eval = toLowerCase_def lowerPoint_def lowerUnit_def fromCodePoint_def
  isHighSurrogate_def isLowSurrogate_def casedNext_def inRanges_def

text \<open>The rules that evaluate a rounding on numerals.\<close>

lemma bitLength_0: "bitLength 0 = 0"
  by (simp add: bitLength.simps)

lemma bitLength_1: "bitLength (Suc 0) = 1"
  by (simp add: bitLength.simps[of "Suc 0"] bitLength_0)

lemma bitLength_numeral: "bitLength (numeral k) = numBits k"
proof (induction k)
  case One
  show ?case using bitLength_1 by simp
next
  case (Bit0 k)
  have "numeral (num.Bit0 k) div 2 = (numeral k :: nat)" by simp
  with Bit0 show ?case by (simp add: bitLength.simps[of "numeral (num.Bit0 k)"])
next
  case (Bit1 k)
  have "numeral (num.Bit1 k) div 2 = (numeral k :: nat)" by simp
  with Bit1 show ?case by (simp add: bitLength.simps[of "numeral (num.Bit1 k)"])
qed

lemma floor_fraction: "\<lfloor>(numeral a :: rat) / numeral b\<rfloor> = numeral a div numeral b"
  using floor_divide_of_int_eq[of "numeral a" "numeral b", where ?'a = rat] by simp

lemma floor_unit_fraction: "\<lfloor>(1 :: rat) / numeral b\<rfloor> = 1 div numeral b"
  using floor_divide_of_int_eq[of 1 "numeral b", where ?'a = rat] by simp

lemma ceiling_fraction: "\<lceil>(numeral a :: rat) / numeral b\<rceil> = - (- numeral a div numeral b)"
  using floor_divide_of_int_eq[of "- numeral a" "numeral b", where ?'a = rat]
  by (simp add: ceiling_def)

lemma ceiling_unit_fraction: "\<lceil>(1 :: rat) / numeral b\<rceil> = - (- 1 div numeral b)"
  using floor_divide_of_int_eq[of "- 1" "numeral b", where ?'a = rat]
  by (simp add: ceiling_def)

lemmas round_eval = roundDouble_def floorLog2_def roundHalfEven_def pow2_def Let_def
  bitLength_0 bitLength_1 bitLength_numeral floor_fraction floor_unit_fraction
  ceiling_fraction ceiling_unit_fraction

text \<open>
  The signals with an exact score of 2 or of 4, among those with at most 10 complexity
  and 16 frustration phrases: the score in doubles is 2 or 4 as well.
\<close>

lemma double_factors:
  "roundDouble (3 / 10) = Num (5404319552844595 / 18014398509481984)
   \<and> roundDouble (4 / 10) = Num (3602879701896397 / 9007199254740992)
   \<and> roundDouble (2 / 10) = Num (3602879701896397 / 18014398509481984)
   \<and> roundDouble (1 / 10) = Num (3602879701896397 / 36028797018963968)"
  by (simp add: round_eval)

lemma score_double_eval:
  "totalScoreDouble \<lparr>complexity = c, frustration = f, specificity = 0, urgency = 0\<rparr>
     = jsAdd (jsAdd (jsAdd
         (jsMul (Num (of_nat c)) (Num (5404319552844595 / 18014398509481984)))
         (jsMul (Num (of_nat f)) (Num (3602879701896397 / 9007199254740992))))
         (Num 0)) (Num 0)"
  unfolding totalScoreDouble_def double_factors[THEN conjunct1]
    double_factors[THEN conjunct2, THEN conjunct1]
    double_factors[THEN conjunct2, THEN conjunct2, THEN conjunct1]
    double_factors[THEN conjunct2, THEN conjunct2, THEN conjunct2]
  by (simp add: roundDouble_def)

lemma score_double_boundary:
  "totalScoreDouble \<lparr>complexity = 0, frustration = 5, specificity = 0, urgency = 0\<rparr> = Num 2
   \<and> totalScoreDouble \<lparr>complexity = 4, frustration = 2, specificity = 0, urgency = 0\<rparr> = Num 2
   \<and> totalScoreDouble \<lparr>complexity = 0, frustration = 10, specificity = 0, urgency = 0\<rparr> = Num 4
   \<and> totalScoreDouble \<lparr>complexity = 4, frustration = 7, specificity = 0, urgency = 0\<rparr> = Num 4
   \<and> totalScoreDouble \<lparr>complexity = 8, frustration = 4, specificity = 0, urgency = 0\<rparr> = Num 4"
proof -
  have a: "totalScoreDouble \<lparr>complexity = 0, frustration = 5, specificity = 0, urgency = 0\<rparr>
      = Num 2"
    unfolding score_double_eval by (simp add: round_eval)
  have b: "totalScoreDouble \<lparr>complexity = 4, frustration = 2, specificity = 0, urgency = 0\<rparr>
      = Num 2"
    unfolding score_double_eval by (simp add: round_eval)
  have c: "totalScoreDouble \<lparr>complexity = 0, frustration = 10, specificity = 0, urgency = 0\<rparr>
      = Num 4"
    unfolding score_double_eval by (simp add: round_eval)
  have d: "totalScoreDouble \<lparr>complexity = 4, frustration = 7, specificity = 0, urgency = 0\<rparr>
      = Num 4"
    unfolding score_double_eval by (simp add: round_eval)
  have e: "totalScoreDouble \<lparr>complexity = 8, frustration = 4, specificity = 0, urgency = 0\<rparr>
      = Num 4"
    unfolding score_double_eval by (simp add: round_eval)
  from a b c d e show ?thesis by blast
qed

section \<open>Properties of the language detector\<close>

lemma detect_fold:
  "(foldl (detectStep c) (m, l) ps = (m, l) \<and> (\<forall>p\<in>set ps. countMatches (snd p) c \<le> m)) \<or>
   (\<exists>i<length ps. foldl (detectStep c) (m, l) ps = (countMatches (snd (ps ! i)) c, fst (ps ! i))
      \<and> m < countMatches (snd (ps ! i)) c
      \<and> (\<forall>j<length ps. countMatches (snd (ps ! j)) c \<le> countMatches (snd (ps ! i)) c)
      \<and> (\<forall>j<i. countMatches (snd (ps ! j)) c < countMatches (snd (ps ! i)) c))"
proof (induction ps rule: rev_induct)
  case Nil
  then show ?case by simp
next
  case (snoc p ps)
  let ?n = "\<lambda>q. countMatches (snd q) c"
  have step: "foldl (detectStep c) (m, l) (ps @ [p]) =
      (if fst (foldl (detectStep c) (m, l) ps) < ?n p then (?n p, fst p)
       else foldl (detectStep c) (m, l) ps)"
    by (simp add: detectStep_def Let_def)
  from snoc.IH show ?case
  proof (elim disjE conjE exE)
    assume keep: "foldl (detectStep c) (m, l) ps = (m, l)" and le: "\<forall>q\<in>set ps. ?n q \<le> m"
    show ?thesis
    proof (cases "m < ?n p")
      case True
      have "\<forall>j<length ps. ?n (ps ! j) \<le> m" using le by simp
      with True keep step show ?thesis
        by (intro disjI2 exI[of _ "length ps"]) (auto simp: nth_append less_Suc_eq)
    next
      case False
      with keep le step show ?thesis by auto
    qed
  next
    fix i
    assume i: "i < length ps"
      and r: "foldl (detectStep c) (m, l) ps = (?n (ps ! i), fst (ps ! i))"
      and gt: "m < ?n (ps ! i)"
      and mx: "\<forall>j<length ps. ?n (ps ! j) \<le> ?n (ps ! i)"
      and first: "\<forall>j<i. ?n (ps ! j) < ?n (ps ! i)"
    show ?thesis
    proof (cases "?n (ps ! i) < ?n p")
      case True
      have "\<forall>j<length ps. ?n (ps ! j) < ?n p" using mx True by (meson le_less_trans)
      with True r gt step show ?thesis
        by (intro disjI2 exI[of _ "length ps"]) (auto simp: nth_append less_Suc_eq intro: less_imp_le)
    next
      case False
      with i r gt mx first step show ?thesis
        by (intro disjI2 exI[of _ i]) (auto simp: nth_append less_Suc_eq)
    qed
  qed
qed


lemma patterns_length: "length patterns = 7"
  by (simp add: patterns_def)

lemma patterns_index: "i < length patterns \<Longrightarrow> i \<in> {0, 1, 2, 3, 4, 5, 6}"
  unfolding patterns_length by auto

lemma langCount_nth:
  assumes "i < length patterns"
  shows "langCount (fst (patterns ! i)) c = countMatches (snd (patterns ! i)) c"
proof -
  have d: "distinct (map fst patterns)" by (simp add: patterns_def)
  have "(fst (patterns ! i), snd (patterns ! i)) \<in> set patterns"
    using assms by (metis nth_mem prod.collapse)
  with d have "map_of patterns (fst (patterns ! i)) = Some (snd (patterns ! i))"
    by (rule map_of_is_SomeI)
  then show ?thesis by (simp add: langCount_def)
qed

lemma langCount_cases:
  "langCount l c = 0 \<or> (\<exists>j<length patterns. l = fst (patterns ! j)
      \<and> langCount l c = countMatches (snd (patterns ! j)) c)"
proof (cases "map_of patterns l")
  case None
  then show ?thesis by (simp add: langCount_def)
next
  case (Some r)
  then have "(l, r) \<in> set patterns" by (rule map_of_SomeD)
  then obtain j where "j < length patterns" "patterns ! j = (l, r)"
    by (auto simp: in_set_conv_nth)
  with Some show ?thesis by (auto simp: langCount_def)
qed

lemma detect_cases:
  "(detectPrimaryLanguage c = En \<and> (\<forall>l. langCount l c = 0)) \<or>
   (\<exists>i<length patterns. detectPrimaryLanguage c = fst (patterns ! i)
      \<and> 0 < langCount (fst (patterns ! i)) c
      \<and> (\<forall>l. langCount l c \<le> langCount (fst (patterns ! i)) c)
      \<and> (\<forall>j<i. langCount (fst (patterns ! j)) c < langCount (fst (patterns ! i)) c))"
proof -
  let ?n = "\<lambda>q. countMatches (snd q) c"
  from detect_fold[of c 0 En patterns] show ?thesis
  proof (elim disjE conjE exE)
    assume r: "foldl (detectStep c) (0, En) patterns = (0, En)"
      and z: "\<forall>p\<in>set patterns. ?n p \<le> 0"
    have "langCount l c = 0" for l
      using langCount_cases[of l c] z by auto
    with r show ?thesis by (simp add: detectPrimaryLanguage_def)
  next
    fix i
    assume i: "i < length patterns"
      and r: "foldl (detectStep c) (0, En) patterns = (?n (patterns ! i), fst (patterns ! i))"
      and pos: "0 < ?n (patterns ! i)"
      and mx: "\<forall>j<length patterns. ?n (patterns ! j) \<le> ?n (patterns ! i)"
      and first: "\<forall>j<i. ?n (patterns ! j) < ?n (patterns ! i)"
    have a: "langCount l c \<le> langCount (fst (patterns ! i)) c" for l
      using langCount_cases[of l c] mx i by (auto simp: langCount_nth)
    have b: "langCount (fst (patterns ! j)) c < langCount (fst (patterns ! i)) c" if "j < i" for j
      using that first i by (simp add: langCount_nth)
    from i r pos a b show ?thesis
      by (intro disjI2 exI[of _ i]) (simp add: detectPrimaryLanguage_def langCount_nth)
  qed
qed

text \<open>
  Claim C5, as amended. The detector counts, for each language of the scan, the code units
  of the text in that language's range. The result has the most matches of all languages;
  a text with no match at all gives \<open>En\<close>; and when some language has a match, the result
  is a language of the scan that has strictly more matches than every language scanned
  before it: of several languages that tie for the most matches, the one scanned first
  wins, not the baseline language.
\<close>

theorem detect_most_matches_earliest_wins:
  "(\<forall>l. langCount l c \<le> langCount (detectPrimaryLanguage c) c)
   \<and> ((\<forall>l. langCount l c = 0) \<longrightarrow> detectPrimaryLanguage c = En)
   \<and> ((\<exists>l. 0 < langCount l c) \<longrightarrow>
        (\<exists>i<length scanOrder. detectPrimaryLanguage c = scanOrder ! i
           \<and> (\<forall>j<i. langCount (scanOrder ! j) c < langCount (scanOrder ! i) c)))"
proof -
  from detect_cases[of c] show ?thesis
  proof (elim disjE conjE exE)
    assume "detectPrimaryLanguage c = En" "\<forall>l. langCount l c = 0"
    then show ?thesis by simp
  next
    fix i
    assume i: "i < length patterns"
      and d: "detectPrimaryLanguage c = fst (patterns ! i)"
      and pos: "0 < langCount (fst (patterns ! i)) c"
      and mx: "\<forall>l. langCount l c \<le> langCount (fst (patterns ! i)) c"
      and first: "\<forall>j<i. langCount (fst (patterns ! j)) c < langCount (fst (patterns ! i)) c"
    have nz: "\<not> (\<forall>l. langCount l c = 0)" using pos by auto
    have ex: "\<exists>k<length scanOrder. detectPrimaryLanguage c = scanOrder ! k
           \<and> (\<forall>j<k. langCount (scanOrder ! j) c < langCount (scanOrder ! k) c)"
      using i d first by (intro exI[of _ i]) (simp add: scanOrder_def)
    have top: "\<forall>l. langCount l c \<le> langCount (detectPrimaryLanguage c) c"
      using mx d by simp
    from top nz ex show ?thesis by blast
  qed
qed

theorem detect_most_matches_earliest_wins_witness:
  "langCount Bn [0x0A85, 0x0985]
     \<le> langCount (detectPrimaryLanguage [0x0A85, 0x0985]) [0x0A85, 0x0985]
   \<and> detectPrimaryLanguage [0x0A85, 0x0985] \<in> set scanOrder
   \<and> detectPrimaryLanguage [0x41] = En"
proof -
  let ?c = "[0x0A85, 0x0985] :: jsstring"
  have z: "\<forall>l. langCount l [0x41] = 0"
  proof
    show "langCount l [0x41] = 0" for l
      by (cases l) (simp_all add: langCount_def patterns_def countMatches_def)
  qed
  have e: "\<exists>l. 0 < langCount l ?c"
    by (intro exI[of _ Gu]) (simp add: langCount_def patterns_def countMatches_def)
  from detect_most_matches_earliest_wins[of ?c] e
  have "langCount Bn ?c \<le> langCount (detectPrimaryLanguage ?c) ?c"
    and "\<exists>i<length scanOrder. detectPrimaryLanguage ?c = scanOrder ! i"
    by blast+
  moreover from detect_most_matches_earliest_wins[of "[0x41]"] z
  have "detectPrimaryLanguage [0x41] = En" by blast
  ultimately show ?thesis by (auto simp: in_set_conv_nth)
qed

text \<open>
  Claim C5 as stated fails: a text with one Gujarati and one Bengali letter has a tie for
  the most matches between \<open>Gu\<close> and \<open>Bn\<close>, and the detector answers \<open>Gu\<close>, not the
  baseline language.
\<close>

theorem detect_tie_counterexample:
  "langCount Gu [0x0A85, 0x0985] = 1 \<and> langCount Bn [0x0A85, 0x0985] = 1
   \<and> langCount Hi [0x0A85, 0x0985] = 0 \<and> langCount Mr [0x0A85, 0x0985] = 0
   \<and> langCount Ta [0x0A85, 0x0985] = 0 \<and> langCount Te [0x0A85, 0x0985] = 0
   \<and> langCount Kn [0x0A85, 0x0985] = 0
   \<and> detectPrimaryLanguage [0x0A85, 0x0985] = Gu
   \<and> detectPrimaryLanguage [0x0A85, 0x0985] \<noteq> En"
  by (simp add: langCount_def patterns_def countMatches_def detectPrimaryLanguage_def
      detectStep_def)

text \<open>
  Claim C10. The detector never answers \<open>Mr\<close>: \<open>Mr\<close> has the same range and so the
  same count as \<open>Hi\<close>, which is scanned before it, and a later language replaces the
  winner only with a strictly greater count. A text in which Devanagari has a match and
  no language has more matches resolves to \<open>Hi\<close>; a text without any match resolves to
  \<open>En\<close>.
\<close>

theorem never_marathi:
  "detectPrimaryLanguage c \<noteq> Mr
   \<and> langCount Mr c = langCount Hi c
   \<and> (0 < langCount Hi c \<and> (\<forall>l. langCount l c \<le> langCount Hi c)
        \<longrightarrow> detectPrimaryLanguage c = Hi)
   \<and> ((\<forall>l. langCount l c = 0) \<longrightarrow> detectPrimaryLanguage c = En)"
proof -
  have same: "langCount Mr c = langCount Hi c"
    by (simp add: langCount_def patterns_def)
  have p0: "fst (patterns ! 0) = Hi" and p1: "fst (patterns ! Suc 0) = Mr"
    by (simp_all add: patterns_def)
  from detect_cases[of c] show ?thesis
  proof (elim disjE conjE exE)
    assume "detectPrimaryLanguage c = En" "\<forall>l. langCount l c = 0"
    then show ?thesis using same by simp
  next
    fix i
    assume i: "i < length patterns"
      and d: "detectPrimaryLanguage c = fst (patterns ! i)"
      and pos: "0 < langCount (fst (patterns ! i)) c"
      and mx: "\<forall>l. langCount l c \<le> langCount (fst (patterns ! i)) c"
      and first: "\<forall>j<i. langCount (fst (patterns ! j)) c < langCount (fst (patterns ! i)) c"
    have notMr: "fst (patterns ! i) \<noteq> Mr"
    proof
      assume m: "fst (patterns ! i) = Mr"
      have "i = 1" using patterns_index[OF i] m by (auto simp: patterns_def)
      with first have "langCount (fst (patterns ! 0)) c < langCount (fst (patterns ! Suc 0)) c"
        by simp
      with same show False by (simp add: p0 p1)
    qed
    have hi: "fst (patterns ! i) = Hi" if "\<forall>l. langCount l c \<le> langCount Hi c"
    proof (rule ccontr)
      assume n: "fst (patterns ! i) \<noteq> Hi"
      then have "0 < i" using p0 by (cases i) auto
      with first have "langCount (fst (patterns ! 0)) c < langCount (fst (patterns ! i)) c"
        by simp
      with that show False by (simp add: p0 not_less[symmetric])
    qed
    have nz: "\<not> (\<forall>l. langCount l c = 0)" using pos by auto
    from d notMr hi nz same show ?thesis by simp
  qed
qed

theorem never_marathi_witness:
  "detectPrimaryLanguage [0x0915, 0x0A85, 0x092E] = Hi \<and> detectPrimaryLanguage [0x41] = En
   \<and> detectPrimaryLanguage [0x0915, 0x0A85, 0x092E] \<noteq> Mr"
proof -
  let ?c = "[0x0915, 0x0A85, 0x092E] :: jsstring"
  have h: "0 < langCount Hi ?c \<and> (\<forall>l. langCount l ?c \<le> langCount Hi ?c)"
  proof (intro conjI allI)
    show "0 < langCount Hi ?c" by (simp add: langCount_def patterns_def countMatches_def)
    show "langCount l ?c \<le> langCount Hi ?c" for l
      by (cases l) (simp_all add: langCount_def patterns_def countMatches_def)
  qed
  have z: "\<forall>l. langCount l [0x41] = 0"
  proof
    show "langCount l [0x41] = 0" for l
      by (cases l) (simp_all add: langCount_def patterns_def countMatches_def)
  qed
  from never_marathi[of ?c] never_marathi[of "[0x41]"] h z show ?thesis by simp
qed

section \<open>Properties of the conversation logger\<close>

lemma mapSet_length_new: "\<not> mapHas m k \<Longrightarrow> length (mapSet m k v) = Suc (length m)"
  by (induction m) (auto simp: mapHas_def)

lemma mapSet_length_old: "mapHas m k \<Longrightarrow> length (mapSet m k v) = length m"
  by (induction m) (auto simp: mapHas_def)

lemma mapSet_has: "mapHas (mapSet m k v) k"
  by (induction m) (auto simp: mapHas_def)

lemma mapGet_mapSet: "mapGet (mapSet m k v) k' = (if k' = k then Some v else mapGet m k')"
  by (induction m) (auto simp: mapGet_def)

lemma mapSet_keys_new: "\<not> mapHas m k \<Longrightarrow> map fst (mapSet m k v) = map fst m @ [k]"
  by (induction m) (auto simp: mapHas_def)

lemma mapSet_keys_old: "mapHas m k \<Longrightarrow> map fst (mapSet m k v) = map fst m"
  by (induction m) (auto simp: mapHas_def)

lemma mapHas_keys: "mapHas m k \<longleftrightarrow> k \<in> set (map fst m)"
  by (simp add: mapHas_def map_of_eq_None_iff)

text \<open>A histogram bumped under an ordinary key and under keys that every object inherits.\<close>

lemma bumpCount_inherited:
  "bumpCount [] (js ''en'') = [(js ''en'', Count 1)]
   \<and> bumpCount [(js ''en'', Count 1)] (js ''en'') = [(js ''en'', Count 2)]
   \<and> bumpCount [] (js ''constructor'') = [(js ''constructor'', FunctionText 1)]
   \<and> bumpCount [(js ''constructor'', FunctionText 1)] (js ''constructor'')
       = [(js ''constructor'', FunctionText 2)]
   \<and> bumpCount [(js ''en'', Count 1)] (js ''__proto__'') = [(js ''en'', Count 1)]"
  by (simp add: bumpCount_def objSet_def mapHas_def isArrayIndex_def isDigit_def
      inheritedFunctions_def jsIncr_def js_def)

lemma updateAnalytics_frame:
  "conversations (updateAnalytics L md) = conversations L
   \<and> totalConversations (analyticsData (updateAnalytics L md))
       = totalConversations (analyticsData L)
   \<and> handoffRate (analyticsData (updateAnalytics L md)) = handoffRate (analyticsData L)"
  by (simp add: updateAnalytics_def Let_def)

text \<open>What a logged message does to the keys of the conversation map and to the counter.\<close>

lemma logMessage_effect:
  "map fst (conversations (logMessage L u m md t0 t1))
     = (if mapHas (conversations L) u then map fst (conversations L)
        else map fst (conversations L) @ [u])
   \<and> totalConversations (analyticsData (logMessage L u m md t0 t1))
     = (if mapHas (conversations L) u then totalConversations (analyticsData L)
        else jsIncr (totalConversations (analyticsData L)))
   \<and> handoffRate (analyticsData (logMessage L u m md t0 t1)) = handoffRate (analyticsData L)"
proof (cases "mapHas (conversations L) u")
  case True
  then obtain c where c: "mapGet (conversations L) u = Some c"
    by (auto simp: mapHas_def mapGet_def)
  with True show ?thesis
    by (simp add: logMessage_def Let_def updateAnalytics_frame mapSet_keys_old)
next
  case False
  then show ?thesis
    by (simp add: logMessage_def Let_def updateAnalytics_frame mapGet_mapSet
        mapSet_keys_new mapSet_keys_old mapSet_has)
qed

lemma logMessage_total:
  assumes "totalConversations (analyticsData L) = min (length (conversations L)) (2 ^ 53)"
  shows "totalConversations (analyticsData (logMessage L u m md t0 t1))
           = min (length (conversations (logMessage L u m md t0 t1))) (2 ^ 53)"
proof -
  have len: "length (conversations (logMessage L u m md t0 t1))
      = (if mapHas (conversations L) u then length (conversations L)
         else Suc (length (conversations L)))"
    using logMessage_effect[of L u m md t0 t1, THEN conjunct1, THEN arg_cong, of length]
    by (simp split: if_splits)
  show ?thesis
    using assms logMessage_effect[of L u m md t0 t1]
    by (auto simp: len jsIncr_def min_def)
qed

lemma reachable_total:
  "reachableLogger L \<Longrightarrow>
     totalConversations (analyticsData L) = min (length (conversations L)) (2 ^ 53)"
proof (induction rule: reachableLogger.induct)
  case logger_new
  show ?case by (simp add: ConversationLogger_new_def)
next
  case (logger_message L u m md t0 t1)
  from logger_message.IH show ?case by (rule logMessage_total)
next
  case (logger_handoff L)
  then show ?case by (simp add: logHandoffRequest_def Let_def)
qed

text \<open>
  Claim C8. Recording a handoff sets the running rate to the value of
  \<open>(oldRate * (N - 1) + 1) / N\<close> as the code computes it, in double arithmetic, \<open>N\<close>
  being the counter \<open>totalConversations\<close>: for a finite old rate \<open>r\<close> and \<open>N > 0\<close> the
  product \<open>r * (N - 1)\<close> is rounded to a double \<open>x\<close>, the sum \<open>x + 1\<close> to a double
  \<open>y\<close>, and the new rate is the quotient \<open>y / N\<close> rounded. In every logger state that
  the code can reach, \<open>N\<close> is the number of conversations recorded so far (the
  counter is a double and would stop at \<open>2^53\<close>, more entries than a map holds).
  Nothing else of the logger changes: the conversations and the other analytics fields
  stay as they are, and a handoff touches the logger only through this update.
\<close>

theorem handoff_rate_update:
  "conversations (logHandoffRequest L) = conversations L
   \<and> totalConversations (analyticsData (logHandoffRequest L)) = totalConversations (analyticsData L)
   \<and> languageDistribution (analyticsData (logHandoffRequest L))
       = languageDistribution (analyticsData L)
   \<and> intentDistribution (analyticsData (logHandoffRequest L))
       = intentDistribution (analyticsData L)
   \<and> satisfactionScores (analyticsData (logHandoffRequest L))
       = satisfactionScores (analyticsData L)
   \<and> commonIssues (analyticsData (logHandoffRequest L)) = commonIssues (analyticsData L)
   \<and> handoffRate (analyticsData (logHandoffRequest L))
       = jsDiv (jsAdd (jsMul (handoffRate (analyticsData L))
                  (Num (of_nat (totalConversations (analyticsData L)) - 1))) (Num 1))
               (Num (of_nat (totalConversations (analyticsData L))))
   \<and> (handoffRate (analyticsData L) = Num r \<and> 0 < totalConversations (analyticsData L)
        \<and> roundDouble (r * (of_nat (totalConversations (analyticsData L)) - 1)) = Num x
        \<and> roundDouble (x + 1) = Num y \<longrightarrow>
        handoffRate (analyticsData (logHandoffRequest L))
          = roundDouble (y / of_nat (totalConversations (analyticsData L))))
   \<and> (reachableLogger L \<longrightarrow>
        totalConversations (analyticsData L) = min (length (conversations L)) (2 ^ 53))
   \<and> conversationLogger (fst (initiateHandoff M hid now uid ctx info))
       = logHandoffRequest (conversationLogger M)"
  by (simp add: logHandoffRequest_def Let_def reachable_total initiateHandoff_def)

lemma three_keys:
  "map fst (conversations threeConversations) = [js ''u1'', js ''u2'', js ''u3'']
   \<and> totalConversations (analyticsData threeConversations) = 3
   \<and> handoffRate (analyticsData threeConversations) = Num 0"
  by (simp add: threeConversations_def logMessage_effect mapHas_keys
      ConversationLogger_new_def jsIncr_def js_def)

lemma one_handoff:
  "conversations afterOneHandoff = conversations threeConversations
   \<and> totalConversations (analyticsData afterOneHandoff) = 3
   \<and> handoffRate (analyticsData afterOneHandoff)
       = Num (6004799503160661 / 18014398509481984)"
  using three_keys
  by (simp add: afterOneHandoff_def logHandoffRequest_def Let_def round_eval)

theorem handoff_rate_update_witness:
  "reachableLogger afterOneHandoff
   \<and> length (conversations afterOneHandoff) = 3
   \<and> totalConversations (analyticsData afterOneHandoff) = 3
   \<and> handoffRate (analyticsData afterOneHandoff) = Num (6004799503160661 / 18014398509481984)
   \<and> handoffRate (analyticsData (logHandoffRequest afterOneHandoff))
       = Num (5003999585967217 / 9007199254740992)"
proof -
  let ?r = "6004799503160661 / 18014398509481984 :: rat"
  let ?x = "6004799503160661 / 9007199254740992 :: rat"
  let ?y = "3752999689475413 / 2251799813685248 :: rat"
  have r: "reachableLogger afterOneHandoff"
    unfolding afterOneHandoff_def threeConversations_def by (intro reachableLogger.intros)
  have h: "handoffRate (analyticsData afterOneHandoff) = Num ?r"
    using one_handoff by simp
  have l: "length (conversations afterOneHandoff) = 3"
    using one_handoff three_keys[THEN conjunct1, THEN arg_cong, of length] by simp
  from handoff_rate_update[of afterOneHandoff] r
  have "totalConversations (analyticsData afterOneHandoff)
      = min (length (conversations afterOneHandoff)) (2 ^ 53)"
    by blast
  with l have n: "totalConversations (analyticsData afterOneHandoff) = 3"
    by simp
  have x: "roundDouble (?r * (of_nat 3 - 1)) = Num ?x"
    by (simp add: round_eval)
  have y: "roundDouble (?x + 1) = Num ?y"
    by (simp add: round_eval)
  have z: "roundDouble (?y / of_nat 3) = Num (5003999585967217 / 9007199254740992)"
    by (simp add: round_eval)
  from handoff_rate_update[of afterOneHandoff ?r ?x ?y] h n x y
  have "handoffRate (analyticsData (logHandoffRequest afterOneHandoff))
      = roundDouble (?y / of_nat 3)"
    by simp
  with z r l n h show ?thesis by simp
qed

section \<open>Properties of the escalation analyzer\<close>

lemma startsWith_subset: "startsWith s t \<Longrightarrow> set t \<subseteq> set s"
  by (induction s t rule: startsWith.induct) auto

lemma includesStr_subset: "includesStr s t \<Longrightarrow> set t \<subseteq> set s"
proof (induction s)
  case Nil
  then show ?case by simp
next
  case (Cons d s)
  then show ?case using startsWith_subset[of "d # s" t] by auto
qed

text \<open>No unit of a lower-cased string is one of the letters A to Z.\<close>

lemma lookupLower_above:
  "list_all (\<lambda>r. 90 < int (fst r) + snd (snd (snd r))) tbl \<Longrightarrow> 90 < c
   \<Longrightarrow> 90 < lookupLower tbl c"
  by (induction tbl) auto

lemma lowerTable_above: "list_all (\<lambda>r. 90 < int (fst r) + snd (snd (snd r))) lowerTable"
  by (simp add: lowerTable_def)

lemma lowerPoint_no_capital: "u \<in> set (lowerPoint c) \<Longrightarrow> u < 65 \<or> 90 < u"
  using lookupLower_above[OF lowerTable_above, of c]
  by (auto simp: lowerPoint_def lowerUnit_def split: if_splits)

lemma lowerPoints_no_capital: "u \<in> set (lowerPoints before s) \<Longrightarrow> u < 65 \<or> 90 < u"
proof (induction s arbitrary: before)
  case Nil
  then show ?case by simp
next
  case (Cons c s)
  then show ?case using lowerPoint_no_capital[of u c] by (auto split: if_splits)
qed

lemma fromCodePoint_no_capital:
  "u \<in> set (fromCodePoint c) \<Longrightarrow> c < 65 \<or> 90 < c \<Longrightarrow> u < 65 \<or> 90 < u"
  by (auto simp: fromCodePoint_def split: if_splits)

lemma toLowerCase_no_capital: "u \<in> set (toLowerCase s) \<Longrightarrow> u < 65 \<or> 90 < u"
  using fromCodePoint_no_capital lowerPoints_no_capital
  by (fastforce simp: toLowerCase_def)

text \<open>
  An ASCII phrase that a lower-cased message includes is in lower case already: comparing
  with the phrase is comparing with the lower-cased phrase, as the code does.
\<close>

lemma lowered_fixed:
  assumes "includesStr (toLowerCase msg) t" and "list_all (\<lambda>c. c < 128) t"
  shows "toLowerCase t = t"
proof -
  have "\<forall>c\<in>set t. lowerUnit c = c"
    using includesStr_subset[OF assms(1)] toLowerCase_no_capital[of _ msg]
    by (fastforce simp: lowerUnit_def)
  then have "map lowerUnit t = t" by (simp add: map_idI)
  then show ?thesis using toLowerCase_ascii[OF assms(2)] by simp
qed

lemma findRule_first:
  assumes "\<exists>e\<in>set rules. hasMatch m (snd e)"
  shows "\<exists>i<length rules.
           findRule m rules = Some \<lparr>ruleName = fst (rules ! i), rule = snd (rules ! i)\<rparr>
           \<and> hasMatch m (snd (rules ! i))
           \<and> (\<forall>j<i. \<not> hasMatch m (snd (rules ! j)))"
  using assms
proof (induction rules)
  case Nil
  then show ?case by simp
next
  case (Cons e rules)
  show ?case
  proof (cases "hasMatch m (snd e)")
    case True
    then show ?thesis by (intro exI[of _ 0]) simp
  next
    case False
    with Cons.prems have "\<exists>e\<in>set rules. hasMatch m (snd e)" by auto
    from Cons.IH[OF this] obtain i where i: "i < length rules"
      and f: "findRule m rules = Some \<lparr>ruleName = fst (rules ! i), rule = snd (rules ! i)\<rparr>"
      and h: "hasMatch m (snd (rules ! i))"
      and n: "\<forall>j<i. \<not> hasMatch m (snd (rules ! j))"
      by blast
    have "\<forall>j<Suc i. \<not> hasMatch m (snd ((e # rules) ! j))"
      using False n by (auto simp: less_Suc_eq_0_disj)
    with i f h False show ?thesis by (intro exI[of _ "Suc i"]) simp
  qed
qed

lemma findRule_none: "findRule m rules = None \<longleftrightarrow> (\<forall>e\<in>set rules. \<not> hasMatch m (snd e))"
  by (induction rules) auto

text \<open>
  Claim C3, as amended. Let the lower-cased message include a trigger phrase of some rule
  of the rule map, lower-cased as the code compares it (for an ASCII phrase, the phrase
  itself). Then, whatever the context and whatever the signal counters come to,
  \<open>shouldEscalate\<close> is truthy: it is the boolean \<^verbatim>\<open>true\<close> when the total score is
  at least 2, and otherwise it is the matched rule object, not \<^verbatim>\<open>true\<close>.
  \<open>matchedRule\<close> is the first rule in registration order that has a trigger whose lower
  case the lower-cased message includes: no trigger of a rule before it is included.
\<close>

theorem rule_trigger_truthy:
  assumes rule: "(n, r) \<in> set rules"
    and trig: "t \<in> set (triggers r)"
    and inc: "includesStr (toLowerCase msg) (toLowerCase t)
              \<or> (list_all (\<lambda>c. c < 128) t \<and> includesStr (toLowerCase msg) t)"
  shows "toBoolean (shouldEscalate (analyzeEscalationNeed rules msg context))
     \<and> (\<exists>i<length rules.
           matched (analyzeEscalationNeed rules msg context)
             = Some \<lparr>ruleName = fst (rules ! i), rule = snd (rules ! i)\<rparr>
           \<and> (\<exists>u\<in>set (triggers (snd (rules ! i))).
                 includesStr (toLowerCase msg) (toLowerCase u))
           \<and> (\<forall>j<i. \<forall>u\<in>set (triggers (snd (rules ! j))).
                 \<not> includesStr (toLowerCase msg) (toLowerCase u))
           \<and> shouldEscalate (analyzeEscalationNeed rules msg context)
               = (if 2 \<le> totalScoreOf (signals (analyzeEscalationNeed rules msg context))
                  then SE_true
                  else SE_rule \<lparr>ruleName = fst (rules ! i), rule = snd (rules ! i)\<rparr>))"
proof -
  let ?A = "analyzeEscalationNeed rules msg context"
  have "includesStr (toLowerCase msg) (toLowerCase t)"
    using inc lowered_fixed[of msg t] by auto
  with trig have "hasMatch (toLowerCase msg) r"
    by (auto simp: hasMatch_def list_ex_iff)
  with rule have ex: "\<exists>e\<in>set rules. hasMatch (toLowerCase msg) (snd e)"
    by force
  from findRule_first[OF ex] obtain i where i: "i < length rules"
    and f: "findRule (toLowerCase msg) rules
              = Some \<lparr>ruleName = fst (rules ! i), rule = snd (rules ! i)\<rparr>"
    and h: "hasMatch (toLowerCase msg) (snd (rules ! i))"
    and n: "\<forall>j<i. \<not> hasMatch (toLowerCase msg) (snd (rules ! j))"
    by blast
  have m: "matched ?A = Some \<lparr>ruleName = fst (rules ! i), rule = snd (rules ! i)\<rparr>"
    using f by (simp add: analyzeEscalationNeed_def Let_def)
  have s: "toBoolean (shouldEscalate ?A)"
    using f by (simp add: analyzeEscalationNeed_def Let_def)
  have v: "shouldEscalate ?A
             = (if 2 \<le> totalScoreOf (signals ?A) then SE_true
                else SE_rule \<lparr>ruleName = fst (rules ! i), rule = snd (rules ! i)\<rparr>)"
    using f by (simp add: analyzeEscalationNeed_def Let_def)
  have h': "\<exists>u\<in>set (triggers (snd (rules ! i))).
              includesStr (toLowerCase msg) (toLowerCase u)"
    using h by (simp add: hasMatch_def list_ex_iff)
  have n': "\<forall>j<i. \<forall>u\<in>set (triggers (snd (rules ! j))).
              \<not> includesStr (toLowerCase msg) (toLowerCase u)"
    using n by (simp add: hasMatch_def list_ex_iff)
  from i m h' n' v have "\<exists>i<length rules.
           matched ?A = Some \<lparr>ruleName = fst (rules ! i), rule = snd (rules ! i)\<rparr>
           \<and> (\<exists>u\<in>set (triggers (snd (rules ! i))).
                 includesStr (toLowerCase msg) (toLowerCase u))
           \<and> (\<forall>j<i. \<forall>u\<in>set (triggers (snd (rules ! j))).
                 \<not> includesStr (toLowerCase msg) (toLowerCase u))
           \<and> shouldEscalate ?A
               = (if 2 \<le> totalScoreOf (signals ?A) then SE_true
                  else SE_rule \<lparr>ruleName = fst (rules ! i), rule = snd (rules ! i)\<rparr>)"
    by blast
  with s show ?thesis by (rule conjI)
qed

lemma rules_new:
  "escalationRules HumanHandoffManager_new =
     [(js ''complex_financial'',
        \<lparr>priority = High, department = js ''finance'', estimatedWaitTime = 300,
         triggers = [js ''loan'', js ''EMI'', js ''refund'',
           js ''scholarship eligibility'', js ''financial aid calculation'']\<rparr>),
      (js ''technical_issues'',
        \<lparr>priority = Urgent, department = js ''IT'', estimatedWaitTime = 180,
         triggers = [js ''portal not working'', js ''login failed'',
           js ''payment error'', js ''technical problem'']\<rparr>),
      (js ''academic_complex'',
        \<lparr>priority = Medium, department = js ''academic'', estimatedWaitTime = 600,
         triggers = [js ''course change'', js ''credit transfer'',
           js ''grade appeal'', js ''academic calendar'']\<rparr>),
      (js ''admission_complex'',
        \<lparr>priority = High, department = js ''admissions'', estimatedWaitTime = 450,
         triggers = [js ''document verification'', js ''eligibility query'',
           js ''admission appeal'']\<rparr>),
      (js ''complaints'',
        \<lparr>priority = Medium, department = js ''admin'', estimatedWaitTime = 720,
         triggers = [js ''complaint'', js ''unsatisfied'', js ''problem with'',
           js ''issue with'']\<rparr>)]"
  by (simp add: HumanHandoffManager_new_def setupEscalationRules_def Let_def js_def)

text \<open>The three example messages in lower case, and what the analysis counts in them.\<close>

lemma refund_lower: "toLowerCase refundMessage = js ''i want a refund''"
  by (simp add: refundMessage_def js_def toLowerCase_ascii lowerUnit_def)

lemma urgent_lower:
  "toLowerCase urgentRefundMessage = js ''urgent problem: refund issue, error, asap''"
  by (simp add: urgentRefundMessage_def js_def toLowerCase_ascii lowerUnit_def)

lemma kelvin_lower: "toLowerCase kelvinMessage = js ''portal not working''"
  by (simp add: kelvinMessage_def js_def lower_eval lowerTable_def)

lemma finance_triggers_lower:
  "map toLowerCase (triggers (snd (escalationRules HumanHandoffManager_new ! 0)))
     = [js ''loan'', js ''emi'', js ''refund'', js ''scholarship eligibility'',
        js ''financial aid calculation'']"
  unfolding rules_new by (simp add: js_def toLowerCase_ascii lowerUnit_def)

lemma portal_trigger_lower: "toLowerCase (js ''portal not working'') = js ''portal not working''"
  by (simp add: js_def toLowerCase_ascii lowerUnit_def)

lemma refund_signals:
  "signals (analyzeEscalationNeed rules refundMessage None)
     = \<lparr>complexity = 0, frustration = 0, specificity = 0, urgency = 0\<rparr>"
  unfolding analyzeEscalationNeed_def Let_def refund_lower
  by (simp add: countTriggers_def complexityTriggers_def frustrationTriggers_def
      repetitionBonus_def js_def)

lemma urgent_signals:
  "signals (analyzeEscalationNeed rules urgentRefundMessage None)
     = \<lparr>complexity = 0, frustration = 5, specificity = 0, urgency = 0\<rparr>"
  unfolding analyzeEscalationNeed_def Let_def urgent_lower
  by (simp add: countTriggers_def complexityTriggers_def frustrationTriggers_def
      repetitionBonus_def js_def)

lemma kelvin_signals:
  "signals (analyzeEscalationNeed rules kelvinMessage None)
     = \<lparr>complexity = 0, frustration = 1, specificity = 0, urgency = 0\<rparr>"
  unfolding analyzeEscalationNeed_def Let_def kelvin_lower
  by (simp add: countTriggers_def complexityTriggers_def frustrationTriggers_def
      repetitionBonus_def js_def)

lemma kelvin_no_finance:
  "\<forall>u\<in>set (map toLowerCase (triggers (snd (escalationRules HumanHandoffManager_new ! 0)))).
     \<not> includesStr (toLowerCase kelvinMessage) u"
  unfolding finance_triggers_lower kelvin_lower by (simp add: js_def)

text \<open>
  Claim C3 as stated fails: the message \<^verbatim>\<open>I want a REFUND\<close> contains the trigger
  \<^verbatim>\<open>refund\<close> of the first configured rule, and with a score of 0
  \<open>shouldEscalate\<close> is not \<^verbatim>\<open>true\<close> but the rule object.
\<close>

theorem rule_object_counterexample:
  "js ''refund'' \<in> set (triggers (snd (escalationRules HumanHandoffManager_new ! 0)))
   \<and> includesStr (toLowerCase refundMessage) (js ''refund'')
   \<and> shouldEscalate
         (analyzeEscalationNeed (escalationRules HumanHandoffManager_new) refundMessage None)
       \<noteq> SE_true
   \<and> shouldEscalate
         (analyzeEscalationNeed (escalationRules HumanHandoffManager_new) refundMessage None)
       = SE_rule \<lparr>ruleName = js ''complex_financial'',
           rule = snd (escalationRules HumanHandoffManager_new ! 0)\<rparr>"
proof -
  let ?R = "escalationRules HumanHandoffManager_new"
  have a: "js ''refund'' \<in> set (triggers (snd (?R ! 0)))"
    unfolding rules_new by simp
  have b: "includesStr (toLowerCase refundMessage) (js ''refund'')"
    unfolding refund_lower by (simp add: js_def)
  have f: "findRule (toLowerCase refundMessage) ?R
      = Some \<lparr>ruleName = js ''complex_financial'', rule = snd (?R ! 0)\<rparr>"
    unfolding refund_lower rules_new
    by (simp add: hasMatch_def js_def toLowerCase_ascii lowerUnit_def)
  have s: "totalScoreOf (signals (analyzeEscalationNeed ?R refundMessage None)) = 0"
    unfolding refund_signals by (simp add: totalScoreOf_def)
  have c: "shouldEscalate (analyzeEscalationNeed ?R refundMessage None)
      = SE_rule \<lparr>ruleName = js ''complex_financial'', rule = snd (?R ! 0)\<rparr>"
    using s f by (simp add: analyzeEscalationNeed_def Let_def)
  from a b c show ?thesis by simp
qed

theorem rule_trigger_truthy_witness:
  "shouldEscalate
       (analyzeEscalationNeed (escalationRules HumanHandoffManager_new) refundMessage None)
     = SE_rule \<lparr>ruleName = js ''complex_financial'',
         rule = snd (escalationRules HumanHandoffManager_new ! 0)\<rparr>
   \<and> shouldEscalate
       (analyzeEscalationNeed (escalationRules HumanHandoffManager_new) urgentRefundMessage None)
     = SE_true
   \<and> matched
       (analyzeEscalationNeed (escalationRules HumanHandoffManager_new) urgentRefundMessage None)
     = Some \<lparr>ruleName = js ''complex_financial'',
         rule = snd (escalationRules HumanHandoffManager_new ! 0)\<rparr>
   \<and> shouldEscalate
       (analyzeEscalationNeed (escalationRules HumanHandoffManager_new) kelvinMessage None)
     = SE_rule \<lparr>ruleName = js ''technical_issues'',
         rule = snd (escalationRules HumanHandoffManager_new ! 1)\<rparr>"
proof -
  let ?R = "escalationRules HumanHandoffManager_new"
  have names: "fst (?R ! 0) = js ''complex_financial''" "fst (?R ! 1) = js ''technical_issues''"
    unfolding rules_new by simp_all
  have r0: "(fst (?R ! 0), snd (?R ! 0)) \<in> set ?R" and r1: "(fst (?R ! 1), snd (?R ! 1)) \<in> set ?R"
    unfolding rules_new by simp_all
  have t0: "js ''refund'' \<in> set (triggers (snd (?R ! 0)))"
    and t1: "js ''portal not working'' \<in> set (triggers (snd (?R ! 1)))"
    unfolding rules_new by simp_all
  have ascii: "list_all (\<lambda>c. c < 128) (js ''refund'')"
    by (simp add: js_def)
  have i1: "includesStr (toLowerCase refundMessage) (js ''refund'')"
    unfolding refund_lower by (simp add: js_def)
  have i2: "includesStr (toLowerCase urgentRefundMessage) (js ''refund'')"
    unfolding urgent_lower by (simp add: js_def)
  have i3: "includesStr (toLowerCase kelvinMessage) (toLowerCase (js ''portal not working''))"
    unfolding kelvin_lower portal_trigger_lower by (simp add: js_def)
  have s1: "totalScoreOf (signals (analyzeEscalationNeed ?R refundMessage None)) = 0"
    unfolding refund_signals by (simp add: totalScoreOf_def)
  have s2: "totalScoreOf (signals (analyzeEscalationNeed ?R urgentRefundMessage None)) = 2"
    unfolding urgent_signals by (simp add: totalScoreOf_def)
  have s3: "totalScoreOf (signals (analyzeEscalationNeed ?R kelvinMessage None)) = 2 / 5"
    unfolding kelvin_signals by (simp add: totalScoreOf_def)
  have first: "i = 0" if "\<forall>j<i. \<forall>u\<in>set (triggers (snd (?R ! j))).
        \<not> includesStr (toLowerCase m) (toLowerCase u)"
      and "includesStr (toLowerCase m) (toLowerCase (js ''refund''))" for i m
  proof (rule ccontr)
    assume "i \<noteq> 0"
    then have "0 < i" by simp
    with that(1) t0 have "\<not> includesStr (toLowerCase m) (toLowerCase (js ''refund''))"
      by blast
    with that(2) show False by simp
  qed
  have low: "toLowerCase (js ''refund'') = js ''refund''"
    by (simp add: js_def toLowerCase_ascii lowerUnit_def)
  from rule_trigger_truthy[OF r0 t0, of refundMessage None] ascii i1
  obtain i where a: "\<forall>j<i. \<forall>u\<in>set (triggers (snd (?R ! j))).
        \<not> includesStr (toLowerCase refundMessage) (toLowerCase u)"
    and b: "shouldEscalate (analyzeEscalationNeed ?R refundMessage None)
        = (if 2 \<le> totalScoreOf (signals (analyzeEscalationNeed ?R refundMessage None))
           then SE_true else SE_rule \<lparr>ruleName = fst (?R ! i), rule = snd (?R ! i)\<rparr>)"
    by blast
  have "i = 0" using first[OF a] i1 low by simp
  with b s1 names have c1: "shouldEscalate (analyzeEscalationNeed ?R refundMessage None)
      = SE_rule \<lparr>ruleName = js ''complex_financial'', rule = snd (?R ! 0)\<rparr>"
    by simp
  from rule_trigger_truthy[OF r0 t0, of urgentRefundMessage None] ascii i2
  obtain k where a: "\<forall>j<k. \<forall>u\<in>set (triggers (snd (?R ! j))).
        \<not> includesStr (toLowerCase urgentRefundMessage) (toLowerCase u)"
    and m: "matched (analyzeEscalationNeed ?R urgentRefundMessage None)
        = Some \<lparr>ruleName = fst (?R ! k), rule = snd (?R ! k)\<rparr>"
    and b: "shouldEscalate (analyzeEscalationNeed ?R urgentRefundMessage None)
        = (if 2 \<le> totalScoreOf (signals (analyzeEscalationNeed ?R urgentRefundMessage None))
           then SE_true else SE_rule \<lparr>ruleName = fst (?R ! k), rule = snd (?R ! k)\<rparr>)"
    by blast
  have "k = 0" using first[OF a] i2 low by simp
  with b m s2 names have c2: "shouldEscalate (analyzeEscalationNeed ?R urgentRefundMessage None)
      = SE_true
    \<and> matched (analyzeEscalationNeed ?R urgentRefundMessage None)
      = Some \<lparr>ruleName = js ''complex_financial'', rule = snd (?R ! 0)\<rparr>"
    by simp
  from rule_trigger_truthy[OF r1 t1, of kelvinMessage None] i3
  obtain l where a: "\<forall>j<l. \<forall>u\<in>set (triggers (snd (?R ! j))).
        \<not> includesStr (toLowerCase kelvinMessage) (toLowerCase u)"
    and h: "\<exists>u\<in>set (triggers (snd (?R ! l))).
        includesStr (toLowerCase kelvinMessage) (toLowerCase u)"
    and b: "shouldEscalate (analyzeEscalationNeed ?R kelvinMessage None)
        = (if 2 \<le> totalScoreOf (signals (analyzeEscalationNeed ?R kelvinMessage None))
           then SE_true else SE_rule \<lparr>ruleName = fst (?R ! l), rule = snd (?R ! l)\<rparr>)"
    by blast
  have "l \<noteq> 0"
  proof
    assume "l = 0"
    with h kelvin_no_finance show False by auto
  qed
  moreover have "\<not> 1 < l" using a t1 i3 by blast
  ultimately have "l = 1" by simp
  with b s3 names have c3: "shouldEscalate (analyzeEscalationNeed ?R kelvinMessage None)
      = SE_rule \<lparr>ruleName = js ''technical_issues'', rule = snd (?R ! 1)\<rparr>"
    by simp
  from c1 c2 c3 show ?thesis by blast
qed

lemma setAdd_distinct: "distinct s \<Longrightarrow> distinct (setAdd s x)"
  by (simp add: setAdd_def)

lemma setAdd_set: "set (setAdd s x) = insert x (set s)"
  by (auto simp: setAdd_def)

lemma foldl_setAdd: "distinct s \<Longrightarrow>
    distinct (foldl setAdd s xs) \<and> set (foldl setAdd s xs) = set s \<union> set xs"
  by (induction xs arbitrary: s) (auto simp: setAdd_distinct setAdd_set)

lemma setFromArray_distinct: "distinct (setFromArray xs)"
  using foldl_setAdd[of "[]" xs] by (simp add: setFromArray_def)

lemma setFromArray_set: "set (setFromArray xs) = set xs"
  using foldl_setAdd[of "[]" xs] by (simp add: setFromArray_def)

lemma setFromArray_card: "length (setFromArray xs) = card (set xs)"
  using distinct_card[OF setFromArray_distinct, of xs] by (simp add: setFromArray_set)

lemma portal_lower:
  "toLowerCase portalMessage = js ''this portal is not working, i need help immediately''"
  by (simp add: portalMessage_def js_def toLowerCase_ascii lowerUnit_def)

lemma portal_hits:
  "filter (includesStr (toLowerCase portalMessage)) frustrationTriggers
     = [js ''not working'', js ''immediately'']"
  unfolding portal_lower by (simp add: frustrationTriggers_def js_def)

lemma portal_complexity:
  "countTriggers complexityTriggers (toLowerCase portalMessage) = 0"
  unfolding portal_lower by (simp add: countTriggers_def complexityTriggers_def js_def)

lemma portal_rule:
  "findRule (toLowerCase portalMessage) (escalationRules HumanHandoffManager_new) = None"
  unfolding portal_lower
  by (simp add: HumanHandoffManager_new_def setupEscalationRules_def Let_def
      hasMatch_def js_def toLowerCase_ascii lowerUnit_def)

lemma portal_signals:
  "signals portalAssessment = \<lparr>complexity = 0, frustration = 2, specificity = 0, urgency = 0\<rparr>"
  by (simp add: portalAssessment_def analyzeEscalationNeed_def Let_def countTriggers_def
      portal_hits portal_complexity[unfolded countTriggers_def] repetitionBonus_def)

text \<open>
  Claim C6, as amended. For the message \<^verbatim>\<open>This portal is not working, I need help
  immediately\<close> with an empty context the frustration count is 2 (the phrases
  \<^verbatim>\<open>not working\<close> and \<^verbatim>\<open>immediately\<close>; \<^verbatim>\<open>help me\<close> does not occur), the
  total score is 0.8, no rule matches (\<^verbatim>\<open>portal not working\<close> is a trigger of
  \<^verbatim>\<open>technical_issues\<close>, but the message reads \<^verbatim>\<open>portal is not working\<close>), and
  \<open>shouldEscalate\<close> is \<^verbatim>\<open>null\<close>.
\<close>

theorem portal_message_assessment:
  "frustration (signals portalAssessment) = 2
   \<and> filter (includesStr (toLowerCase portalMessage)) frustrationTriggers
       = [js ''not working'', js ''immediately'']
   \<and> totalScoreOf (signals portalAssessment) = 4 / 5
   \<and> shouldEscalate portalAssessment = SE_null
   \<and> matched portalAssessment = None
   \<and> \<not> includesStr (toLowerCase portalMessage) (js ''portal not working'')
   \<and> list_ex (\<lambda>e. fst e = js ''technical_issues''
          \<and> js ''portal not working'' \<in> set (triggers (snd e)))
        (escalationRules HumanHandoffManager_new)
   \<and> recommended portalAssessment = None"
proof -
  have s: "totalScoreOf (signals portalAssessment) = 4 / 5"
    unfolding portal_signals by (simp add: totalScoreOf_def)
  have m: "matched portalAssessment = None"
    by (simp add: portalAssessment_def analyzeEscalationNeed_def Let_def portal_rule)
  have e: "shouldEscalate portalAssessment = SE_null"
    using s
    by (simp add: portalAssessment_def analyzeEscalationNeed_def Let_def portal_rule)
  have r: "recommended portalAssessment = None"
    using s
    by (simp add: portalAssessment_def analyzeEscalationNeed_def Let_def portal_rule
        getEscalationRecommendation_def)
  have n: "\<not> includesStr (toLowerCase portalMessage) (js ''portal not working'')"
    unfolding portal_lower by (simp add: js_def)
  have c: "list_ex (\<lambda>e. fst e = js ''technical_issues''
          \<and> js ''portal not working'' \<in> set (triggers (snd e)))
        (escalationRules HumanHandoffManager_new)"
    unfolding rules_new by simp
  from s m e r n c portal_hits show ?thesis by (simp add: portal_signals)
qed

text \<open>
  Claim C6 as stated fails on each count: the frustration count is below 3, the score is
  below 2, \<open>shouldEscalate\<close> is falsy and no rule is matched.
\<close>

theorem portal_message_counterexample:
  "\<not> 3 \<le> frustration (signals portalAssessment)
   \<and> \<not> 2 \<le> totalScoreOf (signals portalAssessment)
   \<and> \<not> toBoolean (shouldEscalate portalAssessment)
   \<and> map_option ruleName (matched portalAssessment) \<noteq> Some (js ''technical_issues'')"
proof -
  have s: "totalScoreOf (signals portalAssessment) = 4 / 5"
    unfolding portal_signals by (simp add: totalScoreOf_def)
  have m: "matched portalAssessment = None"
    by (simp add: portalAssessment_def analyzeEscalationNeed_def Let_def portal_rule)
  have e: "shouldEscalate portalAssessment = SE_null"
    using s
    by (simp add: portalAssessment_def analyzeEscalationNeed_def Let_def portal_rule)
  from s m e show ?thesis by (simp add: portal_signals)
qed


lemma sliceLast3_length: "3 < length xs \<Longrightarrow> length (sliceLast3 xs) = 3"
  by (simp add: sliceLast3_def)

text \<open>
  The repeated-query check. With more than three context entries, the last three are
  compared with the current message by \<open>calculateSimilarity\<close>, the number of words of the
  entry that the message has, each counted as often as the entry repeats it, divided by
  the number of distinct words of both. If at least two of the three quotients exceed 0.7,
  the frustration count is that of the same call without context plus 2, once, however
  many entries are similar; otherwise, and with three entries or fewer, nothing is added.
\<close>

theorem repetition_bonus_once:
  "(3 < length ctx
      \<and> 2 \<le> length (filter (\<lambda>e. 7 / 10 < calculateSimilarity (message e) msg) (sliceLast3 ctx))
      \<longrightarrow> frustration (signals (analyzeEscalationNeed rules msg (Some ctx)))
            = frustration (signals (analyzeEscalationNeed rules msg None)) + 2)
   \<and> (3 < length ctx
      \<and> \<not> 2 \<le> length (filter (\<lambda>e. 7 / 10 < calculateSimilarity (message e) msg) (sliceLast3 ctx))
      \<longrightarrow> frustration (signals (analyzeEscalationNeed rules msg (Some ctx)))
            = frustration (signals (analyzeEscalationNeed rules msg None)))
   \<and> (length ctx \<le> 3
      \<longrightarrow> frustration (signals (analyzeEscalationNeed rules msg (Some ctx)))
            = frustration (signals (analyzeEscalationNeed rules msg None)))
   \<and> frustration (signals (analyzeEscalationNeed rules msg None))
       = countTriggers frustrationTriggers (toLowerCase msg)
   \<and> (3 < length ctx \<longrightarrow>
        sliceLast3 ctx = [ctx ! (length ctx - 3), ctx ! (length ctx - 2), ctx ! (length ctx - 1)])
   \<and> calculateSimilarity m1 msg
       = of_nat (length (filter (\<lambda>w. w \<in> set (splitWhitespace (toLowerCase msg)))
                   (splitWhitespace (toLowerCase m1))))
         / of_nat (card (set (splitWhitespace (toLowerCase m1))
                     \<union> set (splitWhitespace (toLowerCase msg))))"
proof -
  have last3: "sliceLast3 ctx = [ctx ! (length ctx - 3), ctx ! (length ctx - 2), ctx ! (length ctx - 1)]"
    if "3 < length ctx"
  proof (rule nth_equalityI)
    show "length (sliceLast3 ctx) = length [ctx ! (length ctx - 3), ctx ! (length ctx - 2), ctx ! (length ctx - 1)]"
      using that by (simp add: sliceLast3_def)
    fix i assume "i < length (sliceLast3 ctx)"
    then have "i < 3" using that by (simp add: sliceLast3_def)
    then have "i = 0 \<or> i = 1 \<or> i = 2" by auto
    then show "sliceLast3 ctx ! i = [ctx ! (length ctx - 3), ctx ! (length ctx - 2), ctx ! (length ctx - 1)] ! i"
      using that by (auto simp: sliceLast3_def numeral_3_eq_3 numeral_2_eq_2)
  qed
  have sim: "calculateSimilarity m1 msg
       = of_nat (length (filter (\<lambda>w. w \<in> set (splitWhitespace (toLowerCase msg)))
                   (splitWhitespace (toLowerCase m1))))
         / of_nat (card (set (splitWhitespace (toLowerCase m1))
                     \<union> set (splitWhitespace (toLowerCase msg))))"
    by (simp add: calculateSimilarity_def Let_def setFromArray_card)
  show ?thesis
    using last3 sim
    by (simp add: analyzeEscalationNeed_def Let_def repetitionBonus_def similarQueries_def)
qed


lemmas sim_eval = calculateSimilarity_def Let_def splitWhitespace_def toLowerCase_ascii
  lowerUnit_def isSpace_def js_def feeQuestion_def setFromArray_def setAdd_def

lemma sim_same: "calculateSimilarity (js ''when is the hostel fee due'') feeQuestion = 1"
  by (simp add: sim_eval)

lemma sim_mark: "calculateSimilarity (js ''When is the hostel fee due ?'') feeQuestion = 6 / 7"
  by (simp add: sim_eval)

lemma sim_case: "calculateSimilarity (js ''when  is the HOSTEL fee due'') feeQuestion = 1"
  by (simp add: sim_eval)

lemma sim_library: "calculateSimilarity (js ''library timings'') feeQuestion = 0"
  by (simp add: sim_eval)

lemma sim_accent:
  "calculateSimilarity (js ''CAF'' @ [0xC9] @ js '' MENU PRIX'')
     (js ''caf'' @ [0xE9] @ js '' menu prix'') = 1"
  by (simp add: calculateSimilarity_def Let_def splitWhitespace_def isSpace_def js_def
      setFromArray_def setAdd_def lower_eval lowerTable_def)

lemma sim_thanks: "calculateSimilarity (js ''thanks'') feeQuestion = 0"
  by (simp add: sim_eval)

lemma fee_base: "countTriggers frustrationTriggers (toLowerCase feeQuestion) = 0"
  by (simp add: countTriggers_def frustrationTriggers_def js_def feeQuestion_def
      toLowerCase_ascii lowerUnit_def)

theorem repetition_bonus_once_witness:
  "length (filter (\<lambda>e. 7 / 10 < calculateSimilarity (message e) feeQuestion)
             (sliceLast3 repeatedContext)) = 3
   \<and> frustration (signals (analyzeEscalationNeed (escalationRules HumanHandoffManager_new) feeQuestion (Some repeatedContext))) = 2
   \<and> length (filter (\<lambda>e. 7 / 10 < calculateSimilarity (message e) feeQuestion)
             (sliceLast3 variedContext)) = 1
   \<and> frustration (signals (analyzeEscalationNeed (escalationRules HumanHandoffManager_new) feeQuestion (Some variedContext))) = 0"
proof -
  have l1: "3 < length repeatedContext" and l2: "3 < length variedContext"
    by (simp_all add: repeatedContext_def variedContext_def)
  have f1: "length (filter (\<lambda>e. 7 / 10 < calculateSimilarity (message e) feeQuestion)
             (sliceLast3 repeatedContext)) = 3"
    by (simp add: sliceLast3_def repeatedContext_def sim_same sim_mark sim_case)
  have f2: "length (filter (\<lambda>e. 7 / 10 < calculateSimilarity (message e) feeQuestion)
             (sliceLast3 variedContext)) = 1"
    by (simp add: sliceLast3_def variedContext_def sim_same sim_library sim_thanks)
  from repetition_bonus_once[of repeatedContext feeQuestion "escalationRules HumanHandoffManager_new"] l1 f1 fee_base
  have a: "frustration (signals (analyzeEscalationNeed (escalationRules HumanHandoffManager_new) feeQuestion (Some repeatedContext))) = 2"
    by simp
  from repetition_bonus_once[of variedContext feeQuestion "escalationRules HumanHandoffManager_new"] l2 f2 fee_base
  have b: "frustration (signals (analyzeEscalationNeed (escalationRules HumanHandoffManager_new) feeQuestion (Some variedContext))) = 0"
    by simp
  from f1 a f2 b show ?thesis by blast
qed

text \<open>
  Where the entry repeats no word, \<open>calculateSimilarity\<close> is the measure of the
  specification.
\<close>

lemma similarity_distinct:
  assumes "distinct (splitWhitespace (toLowerCase m1))"
  shows "calculateSimilarity m1 m2 = specSimilarity m1 m2"
proof -
  let ?w1 = "splitWhitespace (toLowerCase m1)" and ?w2 = "splitWhitespace (toLowerCase m2)"
  have "distinct (filter (\<lambda>w. w \<in> set ?w2) ?w1)"
    using assms by simp
  then have "length (filter (\<lambda>w. w \<in> set ?w2) ?w1) = card (set (filter (\<lambda>w. w \<in> set ?w2) ?w1))"
    by (rule distinct_card[symmetric])
  moreover have "set (filter (\<lambda>w. w \<in> set ?w2) ?w1) = set ?w1 \<inter> set ?w2"
    by auto
  ultimately show ?thesis
    by (simp add: calculateSimilarity_def specSimilarity_def Let_def setFromArray_card)
qed

lemma fee_words:
  "splitWhitespace (toLowerCase (js ''fee fee fee hostel''))
     = [js ''fee'', js ''fee'', js ''fee'', js ''hostel'']
   \<and> splitWhitespace (toLowerCase feeMessage) = [js ''fee'']"
  by (simp add: feeMessage_def splitWhitespace_def toLowerCase_ascii lowerUnit_def isSpace_def
      js_def)

lemma fee_similarity:
  "calculateSimilarity (js ''fee fee fee hostel'') feeMessage = 3 / 2
   \<and> calculateSimilarity feeMessage (js ''fee fee fee hostel'') = 1 / 2
   \<and> specSimilarity (js ''fee fee fee hostel'') feeMessage = 1 / 2"
  unfolding calculateSimilarity_def specSimilarity_def Let_def
    fee_words[THEN conjunct1] fee_words[THEN conjunct2]
  by (simp add: setFromArray_def setAdd_def js_def)

text \<open>
  Claim C4, evaluated where the stored messages repeat a word. The current message is
  \<^verbatim>\<open>fee\<close>, and each of the last three of four context entries is
  \<^verbatim>\<open>fee fee fee hostel\<close>. One token of two is shared, so the similarity
  \<open>|intersection| / |union|\<close> is 1/2 and none of the three exceeds 0.7: no bonus is due.
  \<open>calculateSimilarity\<close> removes the repetitions from \<open>union\<close> and not from
  \<open>intersection\<close>: it yields 3/2, more than the similarity of a message with itself,
  and 1/2 when its arguments are exchanged. All three entries count as similar and 2 is
  added to the frustration signal.
\<close>

theorem similarity_counts_repetitions:
  "3 < length feeContext
   \<and> map message (sliceLast3 feeContext)
       = [js ''fee fee fee hostel'', js ''fee fee fee hostel'', js ''fee fee fee hostel'']
   \<and> specSimilarity (js ''fee fee fee hostel'') feeMessage = 1 / 2
   \<and> filter (\<lambda>e. 7 / 10 < specSimilarity (message e) feeMessage) (sliceLast3 feeContext) = []
   \<and> calculateSimilarity (js ''fee fee fee hostel'') feeMessage = 3 / 2
   \<and> calculateSimilarity feeMessage feeMessage = 1
   \<and> calculateSimilarity feeMessage (js ''fee fee fee hostel'') = 1 / 2
   \<and> frustration (signals (analyzeEscalationNeed (escalationRules HumanHandoffManager_new)
         feeMessage None)) = 0
   \<and> frustration (signals (analyzeEscalationNeed (escalationRules HumanHandoffManager_new)
         feeMessage (Some feeContext))) = 2"
proof -
  let ?R = "escalationRules HumanHandoffManager_new"
  have l: "3 < length feeContext"
    by (simp add: feeContext_def)
  have m: "map message (sliceLast3 feeContext)
       = [js ''fee fee fee hostel'', js ''fee fee fee hostel'', js ''fee fee fee hostel'']"
    by (simp add: feeContext_def sliceLast3_def)
  have f: "filter (\<lambda>e. 7 / 10 < specSimilarity (message e) feeMessage) (sliceLast3 feeContext)
       = []"
    by (simp add: feeContext_def sliceLast3_def fee_similarity)
  have self: "calculateSimilarity feeMessage feeMessage = 1"
    unfolding calculateSimilarity_def Let_def fee_words[THEN conjunct2]
    by (simp add: setFromArray_def setAdd_def)
  have low: "toLowerCase feeMessage = js ''fee''"
    by (simp add: feeMessage_def js_def toLowerCase_ascii lowerUnit_def)
  have base: "countTriggers frustrationTriggers (toLowerCase feeMessage) = 0"
    unfolding low by (simp add: countTriggers_def frustrationTriggers_def js_def)
  have n: "frustration (signals (analyzeEscalationNeed ?R feeMessage None)) = 0"
    using base by (simp add: analyzeEscalationNeed_def Let_def repetitionBonus_def)
  have q: "similarQueries feeMessage feeContext = sliceLast3 feeContext"
    by (simp add: similarQueries_def feeContext_def sliceLast3_def fee_similarity)
  have b: "repetitionBonus feeMessage (Some feeContext) = 2"
    using l by (simp add: repetitionBonus_def q sliceLast3_def)
  have c: "frustration (signals (analyzeEscalationNeed ?R feeMessage (Some feeContext))) = 2"
    using base b by (simp add: analyzeEscalationNeed_def Let_def)
  from l m f self n c fee_similarity show ?thesis by blast
qed

section \<open>Properties of the handoff queue\<close>

text \<open>
  The position is one more than the number of pending requests, whatever the priority
  argument and whatever the priorities in the queue: sorting does not change the count.
\<close>

lemma queue_position_count:
  "calculateQueuePosition M p
     = length (filter (\<lambda>req. status req = js ''pending'') (map snd (handoffQueue M))) + 1"
  by (simp add: calculateQueuePosition_def pendingSorted_def)

text \<open>
  Claim C1, evaluated: requests of priority low, urgent and medium, enqueued in that order
  into a new manager, get the positions 1, 2 and 3. The urgent request gets 2 at its own
  enqueue time, not 1.
\<close>

theorem queue_position_ignores_priority:
  "outQueuePosition (snd (enqueue HumanHandoffManager_new ''HO_1'' Low)) = 1
   \<and> outQueuePosition (snd (enqueue afterLow ''HO_2'' Urgent)) = 2
   \<and> outQueuePosition (snd (enqueue afterUrgent ''HO_3'' Medium)) = 3
   \<and> map (\<lambda>e. (priorityOf (escalationInfo (snd e)), queuePosition (snd e)))
        (handoffQueue afterMedium)
       = [(Low, 1), (Urgent, 2), (Medium, 3)]"
  by (simp add: afterMedium_def afterUrgent_def afterLow_def enqueue_def initiateHandoff_def
      Let_def queue_position_count HumanHandoffManager_new_def js_def assessmentWith_def
      priorityOf_def)

section \<open>Properties of ingestion\<close>

lemma reachable_formats:
  "reachable P \<Longrightarrow> supportedFormats P = supportedFormats DocumentProcessor_new"
proof (induction rule: reachable.induct)
  case reach_new
  show ?case by simp
next
  case (reach_add P pid content title)
  then show ?case by simp
next
  case (reach_ingest P X kid now f md)
  then show ?case
    by (simp add: ingestDocument_def Let_def storeKnowledge_def createMultilingualIndex_def
        split: sum.splits)
next
  case (reach_import P Q now)
  then show ?case by (simp add: importKnowledgeBase_def)
qed

lemma doc_extract:
  "extension f = js ''doc'' \<Longrightarrow> extractContent X f
     = Inl (Error (js ''DOC format not supported. Please convert to DOCX, PDF, or TXT format.''))"
  by (simp add: extractContent_def Let_def extractDocContent_def js_def)

text \<open>
  Claim C9. \<^verbatim>\<open>doc\<close> is in the list of supported formats of a new processor and of every
  processor the code can reach, so \<open>isValidFormat\<close> accepts a file with that extension;
  yet its ingestion always ends with an error, the one that \<open>extractDocContent\<close> throws
  wrapped by the \<^verbatim>\<open>catch\<close> clause, and leaves the processor, and with it the
  knowledge store and the index, as it was.
\<close>

theorem doc_ingestion_fails:
  assumes "extension f = js ''doc''"
  shows "isValidFormat DocumentProcessor_new f
    \<and> (reachable P \<longrightarrow> isValidFormat P f)
    \<and> (isValidFormat P f \<longrightarrow> ingestDocument X kid now P f md =
          (P, Inl (Error (js ''Failed to process document: DOC format not supported. Please convert to DOCX, PDF, or TXT format.''))))
    \<and> (\<exists>e. ingestDocument X kid now P f md = (P, Inl e))"
proof -
  have v: "isValidFormat DocumentProcessor_new f"
    using assms by (simp add: isValidFormat_def DocumentProcessor_new_def)
  have r: "isValidFormat P f" if "reachable P"
    using v reachable_formats[OF that] by (simp add: isValidFormat_def)
  have i: "ingestDocument X kid now P f md =
          (P, Inl (Error (js ''Failed to process document: DOC format not supported. Please convert to DOCX, PDF, or TXT format.'')))"
    if "isValidFormat P f"
    using that doc_extract[OF assms, of X]
    by (simp add: ingestDocument_def failed_def js_def)
  have e: "\<exists>e. ingestDocument X kid now P f md = (P, Inl e)"
    using doc_extract[OF assms, of X] by (simp add: ingestDocument_def)
  from v r i e show ?thesis by blast
qed

theorem doc_ingestion_fails_witness:
  "extension docFile = js ''doc''
   \<and> isValidFormat DocumentProcessor_new docFile
   \<and> ingestDocument plainExtractors (js ''kb_1'') (js ''t'') DocumentProcessor_new docFile [] =
        (DocumentProcessor_new, Inl (Error (js ''Failed to process document: DOC format not supported. Please convert to DOCX, PDF, or TXT format.'')))"
proof -
  have x: "extension docFile = js ''doc''"
    by (simp add: extension_def docFile_def js_def toLowerCase_ascii lowerUnit_def)
  from doc_ingestion_fails[OF x, of DocumentProcessor_new plainExtractors "js ''kb_1''"
      "js ''t''" "[]"] x
  show ?thesis by blast
qed

section \<open>Properties of export and import\<close>

lemma map_of_mapSet: "map_of (mapSet m k v) = (map_of m)(k \<mapsto> v)"
  by (induction m) (auto simp: fun_eq_iff)

lemma keys_mapSet: "fst ` set (mapSet m k v) = insert k (fst ` set m)"
  by (induction m) auto

lemma distinct_mapSet: "distinct (map fst m) \<Longrightarrow> distinct (map fst (mapSet m k v))"
  by (induction m) (auto simp: keys_mapSet)

lemma values_mapSet: "snd ` set (mapSet m k v) \<subseteq> insert v (snd ` set m)"
  by (induction m) auto

lemma map_of_rev_distinct: "distinct (map fst xs) \<Longrightarrow> map_of (rev xs) = map_of xs"
  by (subst map_of_inject_set) (simp_all add: rev_map[symmetric])

lemma foldl_mapSet_map_of:
  "map_of (foldl (\<lambda>m e. mapSet m (fst e) (snd e)) m0 es) = map_of m0 ++ map_of (rev es)"
proof (induction es arbitrary: m0)
  case Nil
  show ?case by simp
next
  case (Cons e es)
  have "map_of (mapSet m0 (fst e) (snd e)) ++ map_of (rev es)
        = map_of m0 ++ map_of (rev (e # es))"
    by (simp add: map_of_mapSet fun_eq_iff map_add_def split: option.splits)
  then show ?case using Cons.IH[of "mapSet m0 (fst e) (snd e)"] by simp
qed

lemma foldl_mapSet_distinct:
  "distinct (map fst m0) \<Longrightarrow> distinct (map fst (foldl (\<lambda>m e. mapSet m (fst e) (snd e)) m0 es))"
  by (induction es arbitrary: m0) (simp_all add: distinct_mapSet)

lemma foldl_mapSet_values:
  "snd ` set (foldl (\<lambda>m e. mapSet m (fst e) (snd e)) m0 es) \<subseteq> snd ` set m0 \<union> snd ` set es"
proof (induction es arbitrary: m0)
  case Nil
  show ?case by simp
next
  case (Cons e es)
  from Cons.IH[of "mapSet m0 (fst e) (snd e)"] values_mapSet[of m0 "fst e" "snd e"]
  show ?case by (simp add: subset_iff) blast
qed

lemma map_of_map_values:
  "map_of (map (\<lambda>e. (fst e, f (snd e))) xs) k = map_option f (map_of xs k)"
  by (induction xs) auto

lemma mapFromEntries_map_of: "map_of (mapFromEntries es) = map_of (rev es)"
  using foldl_mapSet_map_of[of "[]" es] by (simp add: mapFromEntries_def)

lemma mapFromEntries_distinct: "distinct (map fst (mapFromEntries es))"
  using foldl_mapSet_distinct[of "[]" es] by (simp add: mapFromEntries_def)

lemma mapFromEntries_values: "snd ` set (mapFromEntries es) \<subseteq> snd ` set es"
  using foldl_mapSet_values[of "[]" es] by (simp add: mapFromEntries_def)

lemma insertIndex_keys: "fst ` set (insertIndex ob k v) = insert k (fst ` set ob)"
  by (induction ob) auto

lemma insertIndex_map_of:
  "k \<notin> fst ` set ob \<Longrightarrow> map_of (insertIndex ob k v) = (map_of ob)(k \<mapsto> v)"
  by (induction ob) (auto simp: fun_eq_iff)

lemma insertIndex_distinct:
  "k \<notin> fst ` set ob \<Longrightarrow> distinct (map fst ob) \<Longrightarrow> distinct (map fst (insertIndex ob k v))"
  by (induction ob) (auto simp: insertIndex_keys)

lemma not_has_key: "\<not> mapHas ob k \<longleftrightarrow> k \<notin> fst ` set ob"
  by (simp add: mapHas_def map_of_eq_None_iff)

lemma objSet_map_of: "map_of (objSet ob k v) = (map_of ob)(k \<mapsto> v)"
proof (cases "mapHas ob k")
  case True
  then show ?thesis by (simp add: objSet_def map_of_mapSet)
next
  case False
  then have n: "k \<notin> fst ` set ob" by (simp add: not_has_key)
  then have "map_of ob k = None" by (simp add: map_of_eq_None_iff)
  then have "map_of (ob @ [(k, v)]) = (map_of ob)(k \<mapsto> v)"
    by (auto simp: fun_eq_iff map_add_def split: option.splits)
  with False n show ?thesis by (simp add: objSet_def insertIndex_map_of)
qed

lemma objSet_distinct: "distinct (map fst ob) \<Longrightarrow> distinct (map fst (objSet ob k v))"
proof (cases "mapHas ob k")
  case True
  assume "distinct (map fst ob)"
  with True show ?thesis by (simp add: objSet_def distinct_mapSet)
next
  case False
  assume d: "distinct (map fst ob)"
  from False have n: "k \<notin> fst ` set ob" by (simp add: not_has_key)
  with False d show ?thesis by (simp add: objSet_def insertIndex_distinct)
qed

lemma objSet_values: "snd ` set (objSet ob k v) \<subseteq> insert v (snd ` set ob)"
proof -
  have "snd ` set (insertIndex ob k v) \<subseteq> insert v (snd ` set ob)"
    by (induction ob) auto
  then show ?thesis using values_mapSet[of ob k v] by (auto simp: objSet_def)
qed

lemma foldl_objSet:
  "distinct (map fst ob) \<Longrightarrow>
     map_of (foldl (\<lambda>ob e. objSet ob (fst e) (snd e)) ob es) = map_of ob ++ map_of (rev es)
     \<and> distinct (map fst (foldl (\<lambda>ob e. objSet ob (fst e) (snd e)) ob es))"
proof (induction es arbitrary: ob)
  case Nil
  then show ?case by simp
next
  case (Cons e es)
  have "map_of (objSet ob (fst e) (snd e)) ++ map_of (rev es)
        = map_of ob ++ map_of (rev (e # es))"
    by (simp add: objSet_map_of fun_eq_iff map_add_def split: option.splits)
  then show ?case
    using Cons.IH[of "objSet ob (fst e) (snd e)"] Cons.prems by (simp add: objSet_distinct)
qed

lemma objectFromEntries_map_of:
  "distinct (map fst es) \<Longrightarrow> map_of (objectFromEntries es) = map_of es"
  using foldl_objSet[of "[]" es] by (simp add: objectFromEntries_def map_of_rev_distinct)

lemma objectFromEntries_distinct: "distinct (map fst (objectFromEntries es))"
  using foldl_objSet[of "[]" es] by (simp add: objectFromEntries_def)

lemma foldl_setAdd_append: "distinct (s @ xs) \<Longrightarrow> foldl setAdd s xs = s @ xs"
  by (induction xs arbitrary: s) (auto simp: setAdd_def)

lemma setFromArray_id: "distinct xs \<Longrightarrow> setFromArray xs = xs"
  using foldl_setAdd_append[of "[]" xs] by (simp add: setFromArray_def)

text \<open>Import after export gives an index with the same sets under the same keys.\<close>

lemma import_export_get:
  assumes "wfIndex (multilingualIndex P)"
  shows "mapGet (multilingualIndex (importKnowledgeBase Q (exportKnowledgeBase P now))) k
           = mapGet (multilingualIndex P) k"
proof -
  let ?idx = "multilingualIndex P"
  let ?ob = "objectFromEntries ?idx"
  let ?g = "\<lambda>e. (fst e, setFromArray (snd e))"
  from assms have d: "distinct (map fst ?idx)" and s: "\<forall>e\<in>set ?idx. distinct (snd e)"
    by (simp_all add: wfIndex_def list_all_iff)
  have ob: "map_of ?ob = map_of ?idx" using d by (rule objectFromEntries_map_of)
  have dg: "distinct (map fst (map ?g ?ob))"
    using objectFromEntries_distinct[of ?idx] by (simp add: comp_def)
  have "map_of (mapFromEntries (map ?g ?ob)) k = map_of (map ?g ?ob) k"
    by (simp add: mapFromEntries_map_of map_of_rev_distinct[OF dg])
  also have "\<dots> = map_option setFromArray (map_of ?ob k)"
    by (rule map_of_map_values)
  also have "\<dots> = map_option setFromArray (map_of ?idx k)" by (simp add: ob)
  also have "\<dots> = map_of ?idx k"
  proof (cases "map_of ?idx k")
    case None
    then show ?thesis by simp
  next
    case (Some st)
    then have "(k, st) \<in> set ?idx" by (rule map_of_SomeD)
    with s have "distinct st" by force
    with Some show ?thesis by (simp add: setFromArray_id)
  qed
  finally show ?thesis
    by (simp add: importKnowledgeBase_def exportKnowledgeBase_def objectEntries_def mapGet_def)
qed

lemma search_cong:
  assumes "\<And>k. mapGet idx k = mapGet idx' k"
  shows "searchKnowledge idx q limit = searchKnowledge idx' q limit"
proof -
  have "scoreWord idx = scoreWord idx'"
    by (simp add: fun_eq_iff scoreWord_def assms)
  then show ?thesis by (simp add: searchKnowledge_def matchScores_def)
qed


lemma mapSet_all: "list_all Q m \<Longrightarrow> Q (k, v) \<Longrightarrow> list_all Q (mapSet m k v)"
  by (induction m) auto

lemma wfIndex_mapSet: "wfIndex idx \<Longrightarrow> distinct st \<Longrightarrow> wfIndex (mapSet idx k st)"
  by (simp add: wfIndex_def distinct_mapSet mapSet_all)

lemma wfIndex_get: "wfIndex idx \<Longrightarrow> mapGet idx k = Some st \<Longrightarrow> distinct st"
  by (auto simp: wfIndex_def mapGet_def list_all_iff dest!: map_of_SomeD)

lemma wfIndex_indexAdd:
  assumes "wfIndex idx"
  shows "wfIndex (indexAdd idx k pid)"
proof -
  let ?idx1 = "if \<not> mapHas idx k then mapSet idx k [] else idx"
  have w1: "wfIndex ?idx1" using assms by (simp add: wfIndex_mapSet)
  show ?thesis
  proof (cases "mapGet ?idx1 k")
    case None
    with w1 show ?thesis by (simp add: indexAdd_def Let_def)
  next
    case (Some st)
    with w1 have "distinct st" by (rule wfIndex_get)
    then have "wfIndex (mapSet ?idx1 k (setAdd st pid))"
      using w1 by (intro wfIndex_mapSet) (simp_all add: setAdd_distinct)
    with Some show ?thesis by (simp add: indexAdd_def Let_def)
  qed
qed

lemma wfIndex_postWords: "wfIndex idx \<Longrightarrow> wfIndex (postWords key pid idx ws)"
  unfolding postWords_def
  by (induction ws arbitrary: idx) (simp_all add: wfIndex_indexAdd)

lemma wfIndex_addToIndex: "wfIndex idx \<Longrightarrow> wfIndex (addToIndex idx pid content title)"
  by (simp add: addToIndex_def Let_def wfIndex_postWords)

lemma wfIndex_foldl_add:
  "wfIndex idx \<Longrightarrow> wfIndex (foldl (\<lambda>ix x. addToIndex ix (a x) (b x) (c x)) idx xs)"
  by (induction xs arbitrary: idx) (simp_all add: wfIndex_addToIndex)

lemma wfIndex_create:
  assumes "wfIndex (multilingualIndex P)"
  shows "wfIndex (multilingualIndex (createMultilingualIndex P pd kid))"
proof -
  let ?i1 = "foldl (\<lambda>ix x. addToIndex ix (partId kid ''_section_'' (fst x))
               (secContent (snd x)) (secTitle (snd x)))
             (multilingualIndex P) (enumerate 0 (sections pd))"
  let ?i2 = "foldl (\<lambda>ix x. addToIndex ix (partId kid ''_faq_'' (fst x))
               (question (snd x) @ js '' '' @ answer (snd x)) (question (snd x)))
             ?i1 (enumerate 0 (faqs pd))"
  let ?i3 = "foldl (\<lambda>ix x. addToIndex ix (partId kid ''_entity_'' (fst x))
               (entContext (snd x)) (entValue (snd x)))
             ?i2 (enumerate 0 (entities pd))"
  have "wfIndex ?i1" using assms by (rule wfIndex_foldl_add)
  then have "wfIndex ?i2" by (rule wfIndex_foldl_add)
  then have "wfIndex ?i3" by (rule wfIndex_foldl_add)
  then show ?thesis by (simp add: createMultilingualIndex_def Let_def split_def)
qed

lemma wfIndex_import: "wfIndex (multilingualIndex (importKnowledgeBase Q d))"
proof -
  let ?es = "map (\<lambda>e. (fst e, setFromArray (snd e))) (objectEntries (exportedIndex d))"
  have "\<forall>e\<in>set (mapFromEntries ?es). distinct (snd e)"
  proof
    fix e assume "e \<in> set (mapFromEntries ?es)"
    then have "snd e \<in> snd ` set ?es" using mapFromEntries_values[of ?es] by auto
    then show "distinct (snd e)" by (auto simp: setFromArray_distinct)
  qed
  then show ?thesis
    by (simp add: importKnowledgeBase_def wfIndex_def mapFromEntries_distinct list_all_iff)
qed

lemma reachable_wfIndex: "reachable P \<Longrightarrow> wfIndex (multilingualIndex P)"
proof (induction rule: reachable.induct)
  case reach_new
  show ?case by (simp add: DocumentProcessor_new_def wfIndex_def)
next
  case (reach_add P pid content title)
  then show ?case by (simp add: wfIndex_addToIndex)
next
  case (reach_ingest P X kid now f md)
  then have "wfIndex (multilingualIndex (storeKnowledge P kid pd))" for pd
    by (simp add: storeKnowledge_def)
  then have "wfIndex (multilingualIndex
      (createMultilingualIndex (storeKnowledge P kid pd) pd kid))" for pd
    by (rule wfIndex_create)
  with reach_ingest show ?case
    by (simp add: ingestDocument_def Let_def split: sum.splits)
next
  case (reach_import P Q now)
  show ?case by (rule wfIndex_import)
qed

text \<open>
  Claim C7. For every processor state that the code can reach, exporting the knowledge
  base and importing the exported data into a new processor gives an index on which
  \<open>searchKnowledge\<close> returns the same list, the same part identifiers with the same
  scores in the same order, for every query and every limit. (The imported map may list
  its keys in another order, as the example shows; the search does not depend on it.)
\<close>

theorem export_import_search:
  assumes "reachable P"
  shows "searchKnowledge
           (multilingualIndex
              (importKnowledgeBase DocumentProcessor_new (exportKnowledgeBase P now)))
           query limit
         = searchKnowledge (multilingualIndex P) query limit"
proof (rule search_cong)
  fix k
  from assms have "wfIndex (multilingualIndex P)" by (rule reachable_wfIndex)
  then show "mapGet (multilingualIndex
                (importKnowledgeBase DocumentProcessor_new (exportKnowledgeBase P now))) k
             = mapGet (multilingualIndex P) k"
    by (rule import_export_get)
qed

lemma sample_index:
  "multilingualIndex sampleProcessor =
     [(js ''hostel'', [js ''kb_1_section_0'']), (js ''fee'', [js ''kb_1_section_0'']),
      (js ''2024'', [js ''kb_1_section_0'']), (js ''due'', [js ''kb_1_section_0'']),
      (js ''title_fee'', [js ''kb_1_section_0''])]"
  by (simp add: sampleProcessor_def DocumentProcessor_new_def addToIndex_def Let_def
      postWords_def indexAdd_def splitWhitespace_def toLowerCase_ascii lowerUnit_def
      isSpace_def js_def mapHas_def mapGet_def setAdd_def titleKey_def)

lemma sample_import:
  "multilingualIndex (importKnowledgeBase DocumentProcessor_new
       (exportKnowledgeBase sampleProcessor now)) =
     [(js ''2024'', [js ''kb_1_section_0'']),
      (js ''hostel'', [js ''kb_1_section_0'']), (js ''fee'', [js ''kb_1_section_0'']),
      (js ''due'', [js ''kb_1_section_0'']),
      (js ''title_fee'', [js ''kb_1_section_0''])]"
  unfolding importKnowledgeBase_def exportKnowledgeBase_def sample_index
  by (simp add: objectFromEntries_def objectEntries_def objSet_def mapFromEntries_def
      setFromArray_def setAdd_def mapHas_def isArrayIndex_def isDigit_def digitsValue_def
      js_def)

theorem export_import_search_witness:
  "reachable sampleProcessor
   \<and> multilingualIndex (importKnowledgeBase DocumentProcessor_new
         (exportKnowledgeBase sampleProcessor (js ''t''))) \<noteq> multilingualIndex sampleProcessor
   \<and> searchKnowledge (multilingualIndex (importKnowledgeBase DocumentProcessor_new
         (exportKnowledgeBase sampleProcessor (js ''t'')))) (js ''fee 2024'') 10
       = searchKnowledge (multilingualIndex sampleProcessor) (js ''fee 2024'') 10"
proof -
  have r: "reachable sampleProcessor"
    unfolding sampleProcessor_def by (intro reachable.intros)
  have n: "multilingualIndex (importKnowledgeBase DocumentProcessor_new
         (exportKnowledgeBase sampleProcessor (js ''t''))) \<noteq> multilingualIndex sampleProcessor"
    unfolding sample_import sample_index by (simp add: js_def)
  from export_import_search[OF r, of "js ''t''" "js ''fee 2024''" 10] r n
  show ?thesis by blast
qed

section \<open>Properties of index and search\<close>

lemma mapGet_indexAdd:
  "mapGet (indexAdd idx k pid) k' =
     (if k' = k then Some (setAdd (case mapGet idx k of None \<Rightarrow> [] | Some st \<Rightarrow> st) pid)
      else mapGet idx k')"
  by (cases "mapGet idx k")
     (simp_all add: indexAdd_def Let_def mapHas_def mapGet_def map_of_mapSet)

lemma postings_indexAdd:
  "postings (indexAdd idx k pid) k' = postings idx k' \<union> (if k' = k then {pid} else {})"
  by (cases "mapGet idx k") (auto simp: postings_def mapGet_indexAdd setAdd_set)

lemma setAdd_not_empty: "setAdd s x \<noteq> []"
  by (auto simp: setAdd_def)

lemma noEmptySet_indexAdd: "noEmptySet idx \<Longrightarrow> noEmptySet (indexAdd idx k pid)"
  by (simp add: noEmptySet_def mapGet_indexAdd setAdd_not_empty)

lemma postings_postWords:
  "postings (postWords key pid idx ws) k
     = postings idx k \<union> (if k \<in> key ` {w \<in> set ws. 2 < length w} then {pid} else {})"
proof (induction ws arbitrary: idx)
  case Nil
  show ?case by (simp add: postWords_def)
next
  case (Cons w ws)
  have step: "postWords key pid idx (w # ws)
      = postWords key pid (if 2 < length w then indexAdd idx (key w) pid else idx) ws"
    by (simp add: postWords_def)
  show ?case
  proof (cases "2 < length w")
    case True
    have "postings (postWords key pid idx (w # ws)) k
        = postings (indexAdd idx (key w) pid) k
          \<union> (if k \<in> key ` {w \<in> set ws. 2 < length w} then {pid} else {})"
      using True Cons.IH[of "indexAdd idx (key w) pid"] by (simp add: step)
    also have "\<dots> = postings idx k
          \<union> (if k \<in> key ` {x \<in> set (w # ws). 2 < length x} then {pid} else {})"
      using True by (auto simp: postings_indexAdd)
    finally show ?thesis .
  next
    case False
    have "postings (postWords key pid idx (w # ws)) k
        = postings idx k \<union> (if k \<in> key ` {w \<in> set ws. 2 < length w} then {pid} else {})"
      using False Cons.IH[of idx] by (simp add: step)
    also have "\<dots> = postings idx k
          \<union> (if k \<in> key ` {x \<in> set (w # ws). 2 < length x} then {pid} else {})"
      using False by auto
    finally show ?thesis .
  qed
qed

lemma noEmptySet_postWords: "noEmptySet idx \<Longrightarrow> noEmptySet (postWords key pid idx ws)"
  unfolding postWords_def
  by (induction ws arbitrary: idx) (simp_all add: noEmptySet_indexAdd)

lemma postings_addToIndex:
  "postings (addToIndex idx pid content title) k
     = postings idx k
       \<union> (if k \<in> set (bodyWords content) \<union> titleKey ` set (titleWords title)
          then {pid} else {})"
proof -
  let ?b = "splitWhitespace (toLowerCase content)"
  let ?t = "splitWhitespace (toLowerCase title)"
  let ?i1 = "postWords (\<lambda>word. word) pid idx ?b"
  have b: "(\<lambda>word. word) ` {w \<in> set ?b. 2 < length w} = set (bodyWords content)"
    by (auto simp: bodyWords_def)
  have p1: "postings ?i1 k
      = postings idx k \<union> (if k \<in> set (bodyWords content) then {pid} else {})"
    using postings_postWords[of "\<lambda>word. word" pid idx ?b k] unfolding b .
  show ?thesis
  proof (cases "title = []")
    case True
    then show ?thesis by (simp add: addToIndex_def Let_def p1 titleWords_def)
  next
    case False
    then have t: "titleKey ` {w \<in> set ?t. 2 < length w} = titleKey ` set (titleWords title)"
      by (simp add: titleWords_def)
    have "postings (addToIndex idx pid content title) k
        = postings ?i1 k \<union> (if k \<in> titleKey ` set (titleWords title) then {pid} else {})"
      using False postings_postWords[of titleKey pid ?i1 ?t k] unfolding t
      by (simp add: addToIndex_def Let_def)
    then show ?thesis unfolding p1 by auto
  qed
qed

lemma noEmptySet_addToIndex:
  "noEmptySet idx \<Longrightarrow> noEmptySet (addToIndex idx pid content title)"
  by (simp add: addToIndex_def Let_def noEmptySet_postWords)

lemma indexParts_Cons:
  "indexParts idx (p # parts)
     = indexParts (addToIndex idx (pId p) (pContent p) (pTitle p)) parts"
  by (simp add: indexParts_def)

lemma postings_indexParts:
  "postings (indexParts idx parts) k
     = postings idx k
       \<union> {pId p | p. p \<in> set parts
            \<and> k \<in> set (bodyWords (pContent p)) \<union> titleKey ` set (titleWords (pTitle p))}"
proof (induction parts arbitrary: idx)
  case Nil
  show ?case by (simp add: indexParts_def)
next
  case (Cons p parts)
  define K where "K = (\<lambda>p :: part. k \<in> set (bodyWords (pContent p))
      \<union> titleKey ` set (titleWords (pTitle p)))"
  have "postings (indexParts idx (p # parts)) k
      = (postings idx k \<union> (if K p then {pId p} else {}))
        \<union> {pId x | x. x \<in> set parts \<and> K x}"
    unfolding indexParts_Cons Cons.IH postings_addToIndex K_def ..
  also have "\<dots> = postings idx k \<union> {pId x | x. x \<in> set (p # parts) \<and> K x}"
    by auto
  finally show ?case unfolding K_def .
qed

lemma noEmptySet_indexParts: "noEmptySet idx \<Longrightarrow> noEmptySet (indexParts idx parts)"
  by (induction parts arbitrary: idx) (simp_all add: indexParts_def noEmptySet_addToIndex)

lemma wfIndex_indexParts: "wfIndex idx \<Longrightarrow> wfIndex (indexParts idx parts)"
  unfolding indexParts_def by (rule wfIndex_foldl_add)

lemma mapSet_new: "k \<notin> fst ` set m \<Longrightarrow> mapSet m k v = m @ [(k, v)]"
  by (induction m) auto

lemma foldl_addScore_new:
  "distinct st \<Longrightarrow> set st \<inter> fst ` set m = {} \<Longrightarrow>
     foldl (addScore n) m st = m @ map (\<lambda>i. (i, n)) st"
proof (induction st arbitrary: m)
  case Nil
  show ?case by simp
next
  case (Cons i st)
  from Cons.prems have new: "i \<notin> fst ` set m" by auto
  then have "mapGet m i = None" by (simp add: mapGet_def map_of_eq_None_iff)
  with new have a: "addScore n m i = m @ [(i, n)]"
    by (simp add: addScore_def mapSet_new)
  from Cons.prems have "distinct st" "set st \<inter> fst ` set (m @ [(i, n)]) = {}" by auto
  from Cons.IH[OF this] a show ?case by simp
qed

lemma sort_constant: "sort_key (\<lambda>e. - int (snd e)) (map (\<lambda>i. (i, n)) st) = map (\<lambda>i. (i, n)) st"
  by (rule sort_key_id_if_sorted) (simp add: comp_def map_replicate_const)

text \<open>
  When the query is one word \<open>w\<close> that no part has in its body, and the key
  \<^verbatim>\<open>title_\<close>\<open>w\<close> is kept apart from the body words and \<open>w\<close> from the title keys,
  the search returns exactly the parts with \<open>w\<close> in the title, each once and with score
  3, in the order of indexing, cut to the limit.
\<close>

theorem title_only_search:
  assumes q: "splitWhitespace (toLowerCase query) = [w]"
    and nobody: "\<forall>p\<in>set parts. w \<notin> set (bodyWords (pContent p))"
    and apart1: "\<forall>p\<in>set parts. titleKey w \<notin> set (bodyWords (pContent p))"
    and apart2: "\<forall>p\<in>set parts. w \<notin> titleKey ` set (titleWords (pTitle p))"
  shows "\<exists>st. distinct st
      \<and> set st = {pId p | p. p \<in> set parts \<and> w \<in> set (titleWords (pTitle p))}
      \<and> searchKnowledge (indexParts [] parts) query limit
          = sliceTo limit (map (\<lambda>i. (i, 3)) st)"
proof -
  let ?idx = "indexParts [] parts"
  have e: "postings [] k = {}" for k by (simp add: postings_def mapGet_def)
  have ne: "noEmptySet ?idx"
    by (rule noEmptySet_indexParts) (simp add: noEmptySet_def mapGet_def)
  have wf: "wfIndex ?idx"
    by (rule wfIndex_indexParts) (simp add: wfIndex_def)
  have pw: "postings ?idx w = {}"
    unfolding postings_indexParts e using nobody apart2 by blast
  have pt: "postings ?idx (titleKey w)
      = {pId p | p. p \<in> set parts \<and> w \<in> set (titleWords (pTitle p))}"
  proof -
    have "k \<in> set (bodyWords (pContent p)) \<union> titleKey ` set (titleWords (pTitle p))
          \<longleftrightarrow> w \<in> set (titleWords (pTitle p))"
      if "p \<in> set parts" "k = titleKey w" for p k
      using that apart1 by (auto simp: titleKey_def)
    then show ?thesis unfolding postings_indexParts e by blast
  qed
  have gw: "mapGet ?idx w = None"
  proof (cases "mapGet ?idx w")
    case (Some st)
    with pw have "st = []" by (simp add: postings_def)
    with Some ne show ?thesis by (simp add: noEmptySet_def)
  qed simp
  define st where "st = (case mapGet ?idx (titleKey w) of None \<Rightarrow> [] | Some s \<Rightarrow> s)"
  have d: "distinct st"
    using wf by (auto simp: st_def split: option.splits dest: wfIndex_get)
  have s: "set st = {pId p | p. p \<in> set parts \<and> w \<in> set (titleWords (pTitle p))}"
    using pt by (simp add: st_def postings_def split: option.splits)
  have "scoreWord ?idx [] w = map (\<lambda>i. (i, 3)) st"
    using foldl_addScore_new[OF d, of "[]" 3]
    by (simp add: scoreWord_def gw st_def split: option.splits)
  then have "searchKnowledge ?idx query limit = sliceTo limit (map (\<lambda>i. (i, 3)) st)"
    by (simp add: searchKnowledge_def matchScores_def q sort_constant)
  with d s show ?thesis by blast
qed


lemmas word_eval = bodyWords_def titleWords_def splitWhitespace_def toLowerCase_ascii
  lowerUnit_def isSpace_def js_def

lemma section_words:
  "bodyWords (pContent sectionPart)
     = [js ''chapter'', js ''enter'', js ''title_500'', js ''the'', js ''form'']
   \<and> titleWords (pTitle sectionPart) = [js ''chapter'']"
  by (simp add: sectionPart_def word_eval)

lemma entity_words:
  "bodyWords (pContent entityPart)
     = [js ''fee'', js ''for'', js ''the'', js ''hostel'', js ''rs.'']
   \<and> titleWords (pTitle entityPart) = [js ''500'']"
  by (simp add: entityPart_def word_eval)

lemma receipt_words:
  "bodyWords (pContent receiptPart) = [js ''chapter'', js ''keep'', js ''the'', js ''receipt'']
   \<and> titleWords (pTitle receiptPart) = [js ''chapter'']"
  by (simp add: receiptPart_def word_eval)

lemma query_500: "splitWhitespace (toLowerCase (js ''500'')) = [js ''500'']"
  by (simp add: word_eval)

lemma addToIndex_words:
  "addToIndex idx pid content title
     = postWords titleKey pid (postWords (\<lambda>word. word) pid idx (bodyWords content))
         (titleWords title)"
proof -
  have f: "postWords key pid ix (filter (\<lambda>word. 2 < length word) ws) = postWords key pid ix ws"
    for key ix ws
    unfolding postWords_def by (induction ws arbitrary: ix) simp_all
  show ?thesis
    by (simp add: addToIndex_def Let_def bodyWords_def titleWords_def f)
       (simp add: postWords_def)
qed

lemma colliding_index:
  "indexParts [] [sectionPart, entityPart] =
     [(js ''chapter'', [js ''kb_1_section_0'']),
      (js ''enter'', [js ''kb_1_section_0'']),
      (js ''title_500'', [js ''kb_1_section_0'', js ''kb_1_entity_0'']),
      (js ''the'', [js ''kb_1_section_0'', js ''kb_1_entity_0'']),
      (js ''form'', [js ''kb_1_section_0'']),
      (js ''title_chapter'', [js ''kb_1_section_0'']),
      (js ''fee'', [js ''kb_1_entity_0'']),
      (js ''for'', [js ''kb_1_entity_0'']),
      (js ''hostel'', [js ''kb_1_entity_0'']),
      (js ''rs.'', [js ''kb_1_entity_0''])]"
  unfolding indexParts_def
  by (simp add: addToIndex_words section_words entity_words)
     (simp add: sectionPart_def entityPart_def postWords_def indexAdd_def js_def mapHas_def
        mapGet_def setAdd_def titleKey_def)

text \<open>
  Claim C2, evaluated where a body word collides with a title key. The word
  \<^verbatim>\<open>500\<close> occurs only in the title of the entity part. The section part has it neither
  in its body nor in its title, but its body word \<^verbatim>\<open>title_500\<close> is the key under which
  title words \<^verbatim>\<open>500\<close> are posted: the search for \<^verbatim>\<open>500\<close> gives the section part
  the title score 3 and ranks it before the entity part, and with limit 1 returns the
  section part alone.
\<close>

theorem title_key_collision:
  "js ''500'' \<notin> set (bodyWords (pContent sectionPart))
   \<and> js ''500'' \<notin> set (titleWords (pTitle sectionPart))
   \<and> js ''500'' \<notin> set (bodyWords (pContent entityPart))
   \<and> js ''500'' \<in> set (titleWords (pTitle entityPart))
   \<and> titleKey (js ''500'') \<in> set (bodyWords (pContent sectionPart))
   \<and> searchKnowledge (indexParts [] [sectionPart, entityPart]) (js ''500'') 10
       = [(js ''kb_1_section_0'', 3), (js ''kb_1_entity_0'', 3)]
   \<and> searchKnowledge (indexParts [] [sectionPart, entityPart]) (js ''500'') 1
       = [(js ''kb_1_section_0'', 3)]"
proof -
  have w: "js ''500'' \<notin> set (bodyWords (pContent sectionPart))
      \<and> js ''500'' \<notin> set (titleWords (pTitle sectionPart))
      \<and> js ''500'' \<notin> set (bodyWords (pContent entityPart))
      \<and> js ''500'' \<in> set (titleWords (pTitle entityPart))
      \<and> titleKey (js ''500'') \<in> set (bodyWords (pContent sectionPart))"
    unfolding section_words[THEN conjunct1] section_words[THEN conjunct2]
      entity_words[THEN conjunct1] entity_words[THEN conjunct2]
    by (simp add: js_def titleKey_def)
  have m: "matchScores (indexParts [] [sectionPart, entityPart]) (js ''500'')
       = [(js ''kb_1_section_0'', 3), (js ''kb_1_entity_0'', 3)]"
    unfolding matchScores_def query_500 colliding_index
    by (simp add: scoreWord_def mapGet_def titleKey_def addScore_def js_def)
  have s: "searchKnowledge (indexParts [] [sectionPart, entityPart]) (js ''500'') 10
       = [(js ''kb_1_section_0'', 3), (js ''kb_1_entity_0'', 3)]"
    unfolding searchKnowledge_def m by (simp add: sliceTo_def)
  have t: "searchKnowledge (indexParts [] [sectionPart, entityPart]) (js ''500'') 1
       = [(js ''kb_1_section_0'', 3)]"
    unfolding searchKnowledge_def m by (simp add: sliceTo_def)
  from w s t show ?thesis by blast
qed

theorem title_only_search_witness:
  "searchKnowledge (indexParts [] [receiptPart, entityPart]) (js ''500'') 10
     = [(js ''kb_1_entity_0'', 3)]"
proof -
  let ?parts = "[receiptPart, entityPart]"
  have a: "\<forall>p\<in>set ?parts. js ''500'' \<notin> set (bodyWords (pContent p))"
    by (simp add: receipt_words entity_words) (simp add: js_def)
  have b: "\<forall>p\<in>set ?parts. titleKey (js ''500'') \<notin> set (bodyWords (pContent p))"
    by (simp add: receipt_words entity_words) (simp add: js_def titleKey_def)
  have c: "\<forall>p\<in>set ?parts. js ''500'' \<notin> titleKey ` set (titleWords (pTitle p))"
    by (simp add: receipt_words entity_words) (simp add: js_def titleKey_def)
  from title_only_search[OF query_500 a b c, of 10]
  obtain st where d: "distinct st"
    and s: "set st = {pId p | p. p \<in> set ?parts \<and> js ''500'' \<in> set (titleWords (pTitle p))}"
    and r: "searchKnowledge (indexParts [] ?parts) (js ''500'') 10
              = sliceTo 10 (map (\<lambda>i. (i, 3)) st)"
    by blast
  have nr: "js ''500'' \<notin> set (titleWords (pTitle receiptPart))"
    by (simp add: receipt_words js_def)
  have ye: "js ''500'' \<in> set (titleWords (pTitle entityPart))"
    by (simp add: entity_words)
  have "{pId p | p. p \<in> set ?parts \<and> js ''500'' \<in> set (titleWords (pTitle p))}
      = {pId entityPart}"
    using nr ye by auto
  with s have "set st = {js ''kb_1_entity_0''}" by (simp add: entityPart_def)
  with d have "st = [js ''kb_1_entity_0'']"
    by (cases st) (auto simp: insert_eq_iff dest: subset_singletonD)
  with r show ?thesis by (simp add: sliceTo_def)
qed

end
